(* ===== verification/GoBase.thy ===== *)
theory GoBase
  imports Main "HOL-Library.AList" "HOL-Library.Sublist"
begin

text \<open>
  Prelude: the parts of Go's language and standard library that the modelled code uses.
  A Go string is a list of bytes (\<open>string\<close>, one \<open>char\<close> per byte).  The theory
  defines the functions of packages \<open>strings\<close>, \<open>path/filepath\<close> and \<open>strconv\<close>
  that occur in the source, 64-bit wrap-around, error values with their wrap chains, and
  association lists as Go maps (the order of the list is the order in which a
  \<open>range\<close> loop visits the map, which Go leaves open, so every lemma holds for every
  order).  The named collections gather the facts the component proofs use.
\<close>

named_theorems go_str \<open>facts on Go strings\<close>
named_theorems go_map \<open>facts on Go maps\<close>

section \<open>Package strings\<close>

definition hasPrefix :: "string \<Rightarrow> string \<Rightarrow> bool" where
  "hasPrefix s p \<longleftrightarrow> take (length p) s = p"

definition hasSuffix :: "string \<Rightarrow> string \<Rightarrow> bool" where
  "hasSuffix s q \<longleftrightarrow> hasPrefix (rev s) (rev q)"

definition trimPrefix :: "string \<Rightarrow> string \<Rightarrow> string" where
  "trimPrefix s p = (if hasPrefix s p then drop (length p) s else s)"

definition trimSuffix :: "string \<Rightarrow> string \<Rightarrow> string" where
  "trimSuffix s q = (if hasSuffix s q then take (length s - length q) s else s)"

fun containsStr :: "string \<Rightarrow> string \<Rightarrow> bool" where
  "containsStr [] q = (q = [])"
| "containsStr (c # s) q = (hasPrefix (c # s) q \<or> containsStr s q)"

definition toLower :: "string \<Rightarrow> string" where
  "toLower = List.map (\<lambda>c. if 65 \<le> (of_char c :: nat) \<and> (of_char c :: nat) \<le> 90
                          then char_of ((of_char c :: nat) + 32) else c)"

text \<open>
  \<open>strings.TrimSpace\<close> removes Unicode white space.  The byte sequences below are the
  UTF-8 encodings of the white-space code points of \<open>unicode.IsSpace\<close>.
\<close>

definition spaceSeqs :: "string list" where
  "spaceSeqs =
     [[CHR 0x20], [CHR 0x09], [CHR 0x0A], [CHR 0x0B], [CHR 0x0C], [CHR 0x0D],
      [CHR 0xC2, CHR 0x85], [CHR 0xC2, CHR 0xA0], [CHR 0xE1, CHR 0x9A, CHR 0x80],
      [CHR 0xE2, CHR 0x80, CHR 0x80], [CHR 0xE2, CHR 0x80, CHR 0x81],
      [CHR 0xE2, CHR 0x80, CHR 0x82], [CHR 0xE2, CHR 0x80, CHR 0x83],
      [CHR 0xE2, CHR 0x80, CHR 0x84], [CHR 0xE2, CHR 0x80, CHR 0x85],
      [CHR 0xE2, CHR 0x80, CHR 0x86], [CHR 0xE2, CHR 0x80, CHR 0x87],
      [CHR 0xE2, CHR 0x80, CHR 0x88], [CHR 0xE2, CHR 0x80, CHR 0x89],
      [CHR 0xE2, CHR 0x80, CHR 0x8A], [CHR 0xE2, CHR 0x80, CHR 0xA8],
      [CHR 0xE2, CHR 0x80, CHR 0xA9], [CHR 0xE2, CHR 0x80, CHR 0xAF],
      [CHR 0xE2, CHR 0x81, CHR 0x9F], [CHR 0xE3, CHR 0x80, CHR 0x80]]"

function stripFront :: "string list \<Rightarrow> string \<Rightarrow> string" where
  "stripFront qs s =
     (case find (\<lambda>q. q \<noteq> [] \<and> hasPrefix s q) qs of
        None \<Rightarrow> s
      | Some q \<Rightarrow> stripFront qs (drop (length q) s))"
  by pat_completeness auto
termination
proof (relation "measure (\<lambda>(qs, s). length s)", goal_cases)
  case 1
  show ?case by simp
next
  case (2 qs s q)
  then have "q \<noteq> []" and p: "take (length q) s = q"
    by (auto simp: find_Some_iff hasPrefix_def)
  from p have "s \<noteq> []" using \<open>q \<noteq> []\<close> by auto
  with \<open>q \<noteq> []\<close> show ?case by simp
qed

declare stripFront.simps [simp del]

definition trimSpace :: "string \<Rightarrow> string" where
  "trimSpace s =
     rev (stripFront (List.map rev spaceSeqs) (rev (stripFront spaceSeqs s)))"

text \<open>\<open>strings.Split\<close> with a one-byte separator, and \<open>strings.Join\<close>.\<close>

fun splitOn :: "char \<Rightarrow> string \<Rightarrow> string list" where
  "splitOn c [] = [[]]"
| "splitOn c (x # xs) =
     (if x = c then [] # splitOn c xs
      else (case splitOn c xs of [] \<Rightarrow> [[x]] | p # ps \<Rightarrow> (x # p) # ps))"

fun joinOn :: "char \<Rightarrow> string list \<Rightarrow> string" where
  "joinOn c [] = []"
| "joinOn c [p] = p"
| "joinOn c (p # q # ps) = p @ c # joinOn c (q # ps)"

definition replaceChar :: "char \<Rightarrow> char \<Rightarrow> string \<Rightarrow> string" where
  "replaceChar old new = List.map (\<lambda>x. if x = old then new else x)"

subsection \<open>Facts\<close>

lemma hasPrefix_iff [go_str]: "hasPrefix s p \<longleftrightarrow> prefix p s"
proof
  assume "hasPrefix s p"
  then have "take (length p) s = p" by (simp add: hasPrefix_def)
  then show "prefix p s" by (metis take_is_prefix)
next
  assume "prefix p s"
  then show "hasPrefix s p" by (auto simp: hasPrefix_def prefix_def)
qed

lemma hasSuffix_iff [go_str]: "hasSuffix s q \<longleftrightarrow> suffix q s"
  by (simp add: hasSuffix_def hasPrefix_iff suffix_to_prefix)

lemma containsStr_iff [go_str]: "containsStr s q \<longleftrightarrow> sublist q s"
  by (induction s) (simp_all add: hasPrefix_iff sublist_Cons_right)

lemma splitOn_not_Nil [simp]: "splitOn c s \<noteq> []"
  by (cases s) (auto split: list.splits)

lemma splitOn_Cons_other:
  "x \<noteq> c \<Longrightarrow> splitOn c (x # xs) = (x # hd (splitOn c xs)) # tl (splitOn c xs)"
  by (cases "splitOn c xs") auto

lemma joinOn_Cons: "ps \<noteq> [] \<Longrightarrow> joinOn c (p # ps) = p @ c # joinOn c ps"
  by (cases ps) auto

lemma joinOn_splitOn [simp]: "joinOn c (splitOn c s) = s"
proof (induction s)
  case Nil
  show ?case by simp
next
  case (Cons x xs)
  then show ?case
    by (cases "splitOn c xs"; cases "tl (splitOn c xs)") (auto simp: joinOn_Cons)
qed

lemma splitOn_parts: "p \<in> set (splitOn c s) \<Longrightarrow> c \<notin> set p"
  by (induction s arbitrary: p) (fastforce split: if_splits list.splits)+

lemma splitOn_no_sep: "c \<notin> set p \<Longrightarrow> splitOn c p = [p]"
  by (induction p) auto

lemma splitOn_append_sep: "c \<notin> set p \<Longrightarrow> splitOn c (p @ c # s) = p # splitOn c s"
  by (induction p) auto

lemma splitOn_joinOn:
  "ps \<noteq> [] \<Longrightarrow> \<forall>p \<in> set ps. c \<notin> set p \<Longrightarrow> splitOn c (joinOn c ps) = ps"
  by (induction c ps rule: joinOn.induct) (auto simp: splitOn_no_sep splitOn_append_sep)

text \<open>
  The reason why the source appends a separator before it compares path prefixes: with the
  separator on both sides, a string prefix is a prefix of the list of components.
\<close>

lemma prefix_sep_splitOn:
  "prefix (b @ [c]) (r @ [c]) \<longleftrightarrow> prefix (splitOn c b) (splitOn c r)"
proof (induction b arbitrary: r)
  case Nil
  show ?case
    by (cases r) (auto split: list.splits)
next
  case (Cons x b)
  show ?case
  proof (cases r)
    case Nil
    have "\<not> prefix (splitOn c (x # b)) [[]]" if "x \<noteq> c"
      using that by (cases "splitOn c b") auto
    moreover have "\<not> prefix (splitOn c b) []" by simp
    ultimately show ?thesis using Nil by (auto simp: Cons_prefix_Cons)
  next
    case (Cons y r')
    obtain p ps q qs where "splitOn c b = p # ps" "splitOn c r' = q # qs"
      by (meson neq_Nil_conv splitOn_not_Nil)
    with Cons.IH [of r'] show ?thesis by (auto simp: Cons)
  qed
qed

lemma stripFront_None:
  "find (\<lambda>q. q \<noteq> [] \<and> hasPrefix s q) qs = None \<Longrightarrow> stripFront qs s = s"
  by (subst stripFront.simps) simp

lemma stripFront_Some:
  "find (\<lambda>q. q \<noteq> [] \<and> hasPrefix s q) qs = Some q \<Longrightarrow>
   stripFront qs s = stripFront qs (drop (length q) s)"
  by (subst stripFront.simps) simp

lemma stripFront_result:
  "\<not> (\<exists>q \<in> set qs. q \<noteq> [] \<and> hasPrefix (stripFront qs s) q)"
proof (induction qs s rule: stripFront.induct)
  case (1 qs s)
  show ?case
  proof (cases "find (\<lambda>q. q \<noteq> [] \<and> hasPrefix s q) qs")
    case None
    with stripFront_None [OF None] show ?thesis by (auto simp: find_None_iff)
  next
    case (Some q)
    with 1 show ?thesis by (simp add: stripFront_Some)
  qed
qed

lemma stripFront_fixed:
  "\<not> (\<exists>q \<in> set qs. q \<noteq> [] \<and> hasPrefix s q) \<Longrightarrow> stripFront qs s = s"
  by (rule stripFront_None) (auto simp: find_None_iff)

lemma stripFront_suffix: "suffix (stripFront qs s) s"
proof (induction qs s rule: stripFront.induct)
  case (1 qs s)
  show ?case
  proof (cases "find (\<lambda>q. q \<noteq> [] \<and> hasPrefix s q) qs")
    case None
    then show ?thesis by (simp add: stripFront_None)
  next
    case (Some q)
    with 1 have "suffix (stripFront qs (drop (length q) s)) (drop (length q) s)" by simp
    then have "suffix (stripFront qs (drop (length q) s)) s"
      using suffix_drop suffix_order.trans by blast
    with Some show ?thesis by (simp add: stripFront_Some)
  qed
qed

lemma trimSpace_idem [simp]: "trimSpace (trimSpace s) = trimSpace s"
proof -
  let ?b = "List.map rev spaceSeqs"
  let ?f = "stripFront spaceSeqs s"
  let ?t = "stripFront ?b (rev ?f)"
  have "prefix (rev ?t) ?f"
    using stripFront_suffix [of ?b "rev ?f"] by (simp add: suffix_to_prefix)
  then have "\<not> (\<exists>q \<in> set spaceSeqs. q \<noteq> [] \<and> hasPrefix (rev ?t) q)"
    using stripFront_result [of spaceSeqs s] by (meson hasPrefix_iff prefix_order.trans)
  then have "stripFront spaceSeqs (rev ?t) = rev ?t" by (rule stripFront_fixed)
  moreover have "stripFront ?b ?t = ?t" by (rule stripFront_fixed) (rule stripFront_result)
  ultimately show ?thesis by (simp add: trimSpace_def)
qed

lemma stripFront_Nil [simp]: "stripFront qs [] = []"
  by (rule stripFront_None) (auto simp: find_None_iff hasPrefix_def)

lemma trimSpace_Nil [simp]: "trimSpace [] = []"
  by (simp add: trimSpace_def)

section \<open>Package strconv and formatting\<close>

definition digitChar :: "nat \<Rightarrow> char" where
  "digitChar d = char_of (48 + d)"

fun showNat :: "nat \<Rightarrow> string" where
  "showNat n = (if n < 10 then [digitChar n] else showNat (n div 10) @ [digitChar (n mod 10)])"

declare showNat.simps [simp del]

definition showInt :: "int \<Rightarrow> string" where
  "showInt i = (if i < 0 then CHR ''-'' # showNat (nat (- i)) else showNat (nat i))"

definition isDigit :: "char \<Rightarrow> bool" where
  "isDigit c \<longleftrightarrow> 48 \<le> (of_char c :: nat) \<and> (of_char c :: nat) \<le> 57"

definition readDigits :: "string \<Rightarrow> nat" where
  "readDigits s = foldl (\<lambda>acc c. acc * 10 + ((of_char c :: nat) - 48)) 0 s"

text \<open>
  \<open>strconv.Quote\<close>, which \<open>fmt\<close> uses for the verb \<open>%q\<close>.  Bytes of 128 and above are
  copied: they are taken to be printable UTF-8.
\<close>

definition hexChar :: "nat \<Rightarrow> char" where
  "hexChar d = (if d < 10 then char_of (48 + d) else char_of (87 + d))"

definition quoteChar :: "char \<Rightarrow> string" where
  "quoteChar c =
     (if c = CHR 0x22 then [CHR 0x5C, CHR 0x22]
      else if c = CHR 0x5C then [CHR 0x5C, CHR 0x5C]
      else if c = CHR 0x07 then [CHR 0x5C, CHR ''a'']
      else if c = CHR 0x08 then [CHR 0x5C, CHR ''b'']
      else if c = CHR 0x0C then [CHR 0x5C, CHR ''f'']
      else if c = CHR 0x0A then [CHR 0x5C, CHR ''n'']
      else if c = CHR 0x0D then [CHR 0x5C, CHR ''r'']
      else if c = CHR 0x09 then [CHR 0x5C, CHR ''t'']
      else if c = CHR 0x0B then [CHR 0x5C, CHR ''v'']
      else if (of_char c :: nat) < 32 \<or> (of_char c :: nat) = 127
      then [CHR 0x5C, CHR ''x'', hexChar ((of_char c :: nat) div 16),
            hexChar ((of_char c :: nat) mod 16)]
      else [c])"

definition quoteStr :: "string \<Rightarrow> string" where
  "quoteStr s = CHR 0x22 # concat (List.map quoteChar s) @ [CHR 0x22]"

lemma readDigits_snoc: "readDigits (s @ [c]) = readDigits s * 10 + ((of_char c :: nat) - 48)"
  by (simp add: readDigits_def)

lemma of_char_digitChar: "d < 10 \<Longrightarrow> (of_char (digitChar d) :: nat) = 48 + d"
  by (simp add: digitChar_def)

lemma readDigits_showNat [simp]: "readDigits (showNat n) = n"
proof (induction n rule: showNat.induct)
  case (1 n)
  show ?case
  proof (cases "n < 10")
    case True
    then show ?thesis
      by (subst showNat.simps) (simp add: readDigits_def of_char_digitChar)
  next
    case False
    with 1 show ?thesis
      by (subst showNat.simps) (simp add: readDigits_snoc of_char_digitChar)
  qed
qed

lemma showNat_digits: "c \<in> set (showNat n) \<Longrightarrow> isDigit c"
proof (induction n rule: showNat.induct)
  case (1 n)
  then show ?case
    by (subst (asm) (2) showNat.simps)
      (auto simp: isDigit_def of_char_digitChar split: if_splits)
qed

lemma showNat_inj: "showNat m = showNat n \<longleftrightarrow> m = n"
  by (metis readDigits_showNat)

lemma showNat_no_minus: "CHR ''-'' \<notin> set (showNat n)"
  using showNat_digits [of "CHR ''-''" n] by (auto simp: isDigit_def)

section \<open>64-bit signed arithmetic\<close>

text \<open>Go's \<open>int\<close> and \<open>int64\<close> on a 64-bit platform: results wrap around.\<close>

definition wrap64 :: "int \<Rightarrow> int" where
  "wrap64 n = (n + 2 ^ 63) mod 2 ^ 64 - 2 ^ 63"

definition isInt64 :: "int \<Rightarrow> bool" where
  "isInt64 n \<longleftrightarrow> - (2 ^ 63) \<le> n \<and> n < 2 ^ 63"

lemma wrap64_id: "isInt64 n \<Longrightarrow> wrap64 n = n"
  by (simp add: wrap64_def isInt64_def)

lemma wrap64_range: "isInt64 (wrap64 n)"
  by (simp add: wrap64_def isInt64_def)

section \<open>Error values\<close>

text \<open>
  A Go \<open>error\<close>: a sentinel of the source or of package \<open>context\<close>, a plain text error, or an
  error made by \<open>fmt.Errorf("...: \%w", err)\<close>, which keeps the wrapped error for
  \<open>errors.Is\<close>.
\<close>

datatype goerr =
    ErrNodeNotFound
  | ErrNodeOffline
  | ErrRouterTimeout
  | ErrRouterCanceled
  | CtxCanceled
  | CtxDeadlineExceeded
  | ErrStoreNotFound
  | ErrText string
  | ErrWrap string goerr

fun errMsg :: "goerr \<Rightarrow> string" where
  "errMsg ErrNodeNotFound = ''node not found''"
| "errMsg ErrNodeOffline = ''node offline''"
| "errMsg ErrRouterTimeout = ''timeout''"
| "errMsg ErrRouterCanceled = ''canceled''"
| "errMsg CtxCanceled = ''context canceled''"
| "errMsg CtxDeadlineExceeded = ''context deadline exceeded''"
| "errMsg ErrStoreNotFound = ''store: not found''"
| "errMsg (ErrText m) = m"
| "errMsg (ErrWrap m e) = m @ errMsg e"

fun errIs :: "goerr \<Rightarrow> goerr \<Rightarrow> bool" where
  "errIs (ErrWrap m e) t = (ErrWrap m e = t \<or> errIs e t)"
| "errIs e t = (e = t)"

section \<open>Maps\<close>

text \<open>
  A Go map is an association list with distinct keys; \<open>m[k] = v\<close> is \<open>AList.update\<close>,
  \<open>delete(m, k)\<close> is \<open>AList.delete\<close>, a lookup is \<open>map_of\<close>.
\<close>

type_synonym 'v gomap = "(string \<times> 'v) list"

abbreviation wfMap :: "'v gomap \<Rightarrow> bool" where
  "wfMap m \<equiv> distinct (List.map fst m)"

lemma map_of_update [simp, go_map]: "map_of (AList.update k v m) = (map_of m)(k \<mapsto> v)"
  by (simp add: update_conv')

lemma map_of_delete [simp, go_map]: "map_of (AList.delete k m) = (map_of m)(k := None)"
  by (simp add: delete_conv')

lemma wfMap_update [simp, go_map]: "wfMap (AList.update k v m) \<longleftrightarrow> wfMap m"
  by (induction m) (auto simp: dom_update)

lemma wfMap_delete [simp, go_map]: "wfMap m \<Longrightarrow> wfMap (AList.delete k m)"
  by (rule distinct_delete)

lemma wfMap_filter [simp, go_map]: "wfMap m \<Longrightarrow> wfMap (filter P m)"
  by (induction m) auto

lemma map_of_filter_some [go_map]:
  "wfMap m \<Longrightarrow> map_of (filter (\<lambda>(k, v). P k v) m) k =
     (case map_of m k of None \<Rightarrow> None | Some v \<Rightarrow> if P k v then Some v else None)"
proof (induction m)
  case Nil
  show ?case by simp
next
  case (Cons kv m)
  obtain k' v' where kv: "kv = (k', v')" by (cases kv)
  have "map_of m k' = None" using Cons.prems kv by (simp add: map_of_eq_None_iff)
  with Cons kv show ?case by (auto split: option.splits)
qed

lemma map_of_map_values [go_map]:
  "map_of (List.map (\<lambda>(k, v). (k, f k v)) m) k = map_option (f k) (map_of m k)"
  by (induction m) auto

lemma fst_comp_map_values [simp]: "fst \<circ> (\<lambda>(k, v). (k, f k v)) = fst"
  by auto

lemma wfMap_map_values [simp, go_map]:
  "wfMap (List.map (\<lambda>(k, v). (k, f k v)) m) \<longleftrightarrow> wfMap m"
  by simp

end
