(* ===== verification/TokenAuth.thy ===== *)
theory TokenAuth
  imports GoBase
begin

text \<open>
  Package \<open>internal/pkg/tokenauth\<close>: the token catalog that center and proxy build from
  their configuration.  Tokens of four domains (client, admin, agent, proxy) are stored under
  a fingerprint; HTTP requests authenticate against the client and admin tokens, tunnel
  registrations against the agent or the proxy tokens.  The digest \<open>sha256.Sum256\<close> is the
  parameter \<open>sha\<close> (any function on byte strings), so every lemma holds for the real digest.
\<close>

type_synonym domain = string

definition DomainClient :: domain where "DomainClient = ''client''"
definition DomainAdmin :: domain where "DomainAdmin = ''admin''"
definition DomainAgent :: domain where "DomainAgent = ''agent''"
definition DomainProxy :: domain where "DomainProxy = ''proxy''"

lemmas domain_defs = DomainClient_def DomainAdmin_def DomainAgent_def DomainProxy_def

record identity =
  idDomain :: domain
  subjectID :: string
  fingerprint :: string

definition noIdentity :: identity where
  "noIdentity = \<lparr>idDomain = [], subjectID = [], fingerprint = []\<rparr>"

record catalog =
  httpTokens :: "identity gomap"
  registrationTokens :: "identity gomap gomap"

definition hexEncode :: "string \<Rightarrow> string" where
  "hexEncode bs = concat (List.map (\<lambda>b. [hexChar ((of_char b :: nat) div 16),
                                      hexChar ((of_char b :: nat) mod 16)]) bs)"

definition tokenFingerprint :: "(string \<Rightarrow> string) \<Rightarrow> string \<Rightarrow> string" where
  "tokenFingerprint sha token = hexEncode (take 8 (sha token))"

text \<open>\<open>fmt.Sprintf("\%s_\%02d", domain, idx+1)\<close>\<close>

definition subjectFor :: "domain \<Rightarrow> nat \<Rightarrow> string" where
  "subjectFor d idx =
     d @ ''_'' @ (if idx + 1 < 10 then ''0'' @ showNat (idx + 1) else showNat (idx + 1))"

definition identityFor :: "(string \<Rightarrow> string) \<Rightarrow> domain \<Rightarrow> nat \<Rightarrow> string \<Rightarrow> identity" where
  "identityFor sha d idx token =
     \<lparr>idDomain = d, subjectID = subjectFor d idx, fingerprint = tokenFingerprint sha token\<rparr>"

fun addDomainTokens ::
  "(string \<Rightarrow> string) \<Rightarrow> nat \<Rightarrow> domain gomap \<Rightarrow> domain \<Rightarrow> string list \<Rightarrow> identity gomap \<Rightarrow>
   goerr + domain gomap \<times> identity gomap" where
  "addDomainTokens sha idx seen d [] dst = Inr (seen, dst)"
| "addDomainTokens sha idx seen d (t # ts) dst =
     (let token = trimSpace t in
      if token = [] then
        Inl (ErrText (d @ '' token at index '' @ showNat idx @ '' must not be empty''))
      else
        let fp = tokenFingerprint sha token in
        (case map_of seen fp of
           Some prev \<Rightarrow>
             Inl (ErrText (''token '' @ quoteStr token @ '' is duplicated across '' @ prev @
                           '' and '' @ d @ '' domains''))
         | None \<Rightarrow>
             addDomainTokens sha (Suc idx) (AList.update fp d seen) d ts
               (AList.update fp (identityFor sha d idx token) dst)))"

definition newCatalog ::
  "(string \<Rightarrow> string) \<Rightarrow> string list \<Rightarrow> string list \<Rightarrow> string list \<Rightarrow> string list \<Rightarrow>
   goerr + catalog" where
  "newCatalog sha clientTokens adminTokens agentTokens proxyTokens =
     (case addDomainTokens sha 0 [] DomainClient clientTokens [] of
        Inl e \<Rightarrow> Inl e
      | Inr (seen1, http1) \<Rightarrow>
     (case addDomainTokens sha 0 seen1 DomainAdmin adminTokens http1 of
        Inl e \<Rightarrow> Inl e
      | Inr (seen2, http2) \<Rightarrow>
     (case addDomainTokens sha 0 seen2 DomainAgent agentTokens [] of
        Inl e \<Rightarrow> Inl e
      | Inr (seen3, agents) \<Rightarrow>
     (case addDomainTokens sha 0 seen3 DomainProxy proxyTokens [] of
        Inl e \<Rightarrow> Inl e
      | Inr (seen4, proxies) \<Rightarrow>
          Inr \<lparr>httpTokens = http2,
               registrationTokens = [(DomainAgent, agents), (DomainProxy, proxies)]\<rparr>))))"

definition bearerToken :: "string \<Rightarrow> goerr + string" where
  "bearerToken hdr =
     (let header = trimSpace hdr in
      if header = [] then Inl (ErrText ''missing bearer token'')
      else if \<not> hasPrefix header ''Bearer '' then Inl (ErrText ''invalid bearer token'')
      else
        let token = trimSpace (trimPrefix header ''Bearer '') in
        if token = [] then Inl (ErrText ''invalid bearer token'') else Inr token)"

definition authenticateHTTP ::
  "(string \<Rightarrow> string) \<Rightarrow> catalog \<Rightarrow> string \<Rightarrow> domain list \<Rightarrow> goerr + identity" where
  "authenticateHTTP sha c header allowed =
     (case bearerToken header of
        Inl e \<Rightarrow> Inl e
      | Inr token \<Rightarrow>
          (case map_of (httpTokens c) (tokenFingerprint sha token) of
             None \<Rightarrow> Inl (ErrText ''unauthorized'')
           | Some ident \<Rightarrow>
               if allowed = [] then Inr ident
               else if idDomain ident \<in> set allowed then Inr ident
               else Inl (ErrText ''forbidden'')))"

definition authenticateRegistration ::
  "(string \<Rightarrow> string) \<Rightarrow> catalog \<Rightarrow> domain \<Rightarrow> string \<Rightarrow> goerr + identity" where
  "authenticateRegistration sha c d tok =
     (let token = trimSpace (trimPrefix tok ''Bearer '') in
      if token = [] then Inl (ErrText ''unauthorized'')
      else
        (case map_of (registrationTokens c) d of
           None \<Rightarrow> Inl (ErrText (''unsupported registration domain '' @ quoteStr d))
         | Some domainTokens \<Rightarrow>
             (case map_of domainTokens (tokenFingerprint sha token) of
                None \<Rightarrow> Inl (ErrText ''unauthorized'')
              | Some ident \<Rightarrow> Inr ident)))"

text \<open>
  The middleware \<open>RequireHTTP\<close> in front of any handler.  A context is what it holds under the key of
  this package.
\<close>

type_synonym authContext = "identity option"

definition withIdentity :: "authContext \<Rightarrow> identity \<Rightarrow> authContext" where
  "withIdentity ctx ident = Some ident"

definition identityFromContext :: "authContext \<Rightarrow> identity \<times> bool" where
  "identityFromContext ctx = (case ctx of Some i \<Rightarrow> (i, True) | None \<Rightarrow> (noIdentity, False))"

datatype 'r gateReply = HttpErrorText string nat | NextHandler 'r

definition catalogRequireHTTP ::
  "(string \<Rightarrow> string) \<Rightarrow> catalog \<Rightarrow> (authContext \<Rightarrow> 'r) \<Rightarrow> domain list \<Rightarrow> string \<Rightarrow> authContext \<Rightarrow> 'r gateReply" where
  "catalogRequireHTTP sha c next allowed header ctx =
     (case authenticateHTTP sha c header allowed of
        Inl e \<Rightarrow> (if errMsg e = ''forbidden'' then HttpErrorText ''Forbidden'' 403
                  else HttpErrorText ''Unauthorized'' 401)
      | Inr ident \<Rightarrow> NextHandler (next (withIdentity ctx ident)))"

lemma catalogRequireHTTP_next:
  "catalogRequireHTTP sha c next allowed header ctx = NextHandler r \<longleftrightarrow>
   (\<exists>i. authenticateHTTP sha c header allowed = Inr i \<and> identityFromContext (withIdentity ctx i) = (i, True) \<and>
      r = next (Some i))"
  by (auto simp: catalogRequireHTTP_def withIdentity_def identityFromContext_def split: sum.split)

section \<open>What the catalog holds\<close>

text \<open>The key under which a configured token is stored.\<close>

abbreviation fpOf :: "(string \<Rightarrow> string) \<Rightarrow> string \<Rightarrow> string" where
  "fpOf sha t \<equiv> tokenFingerprint sha (trimSpace t)"

abbreviation usable :: "(string \<Rightarrow> string) \<Rightarrow> string list \<Rightarrow> bool" where
  "usable sha ts \<equiv> (\<forall>t \<in> set ts. trimSpace t \<noteq> []) \<and> distinct (List.map (fpOf sha) ts)"

lemma addDomainTokens_ok_iff:
  "(\<exists>r. addDomainTokens sha idx seen d ts dst = Inr r) \<longleftrightarrow>
     usable sha ts \<and> (\<forall>t \<in> set ts. fpOf sha t \<notin> dom (map_of seen))"
proof (induction ts arbitrary: idx seen dst)
  case Nil
  show ?case by simp
next
  case (Cons t ts)
  show ?case
  proof (cases "trimSpace t = [] \<or> fpOf sha t \<in> dom (map_of seen)")
    case True
    then show ?thesis by (auto simp: Let_def)
  next
    case False
    then have "map_of seen (fpOf sha t) = None" by auto
    with False Cons.IH show ?thesis
      by (simp add: Let_def image_iff) (metis domIff option.distinct(1))
  qed
qed

lemma addDomainTokens_seen:
  "addDomainTokens sha idx seen d ts dst = Inr (seen', dst') \<Longrightarrow>
   dom (map_of seen') = dom (map_of seen) \<union> fpOf sha ` set ts"
proof (induction ts arbitrary: idx seen dst)
  case Nil
  then show ?case by simp
next
  case (Cons t ts)
  from Cons.prems have "addDomainTokens sha (Suc idx) (AList.update (fpOf sha t) d seen) d ts
      (AList.update (fpOf sha t) (identityFor sha d idx (trimSpace t)) dst) = Inr (seen', dst')"
    by (auto simp: Let_def split: if_splits option.splits)
  from Cons.IH [OF this] show ?case by auto
qed

lemma addDomainTokens_dst:
  "addDomainTokens sha idx seen d ts dst = Inr (seen', dst') \<Longrightarrow>
   map_of dst' fp = Some i \<longleftrightarrow>
     (\<exists>j < length ts. fp = fpOf sha (ts ! j) \<and> i = identityFor sha d (idx + j) (trimSpace (ts ! j)))
     \<or> fp \<notin> fpOf sha ` set ts \<and> map_of dst fp = Some i"
proof (induction ts arbitrary: idx seen dst)
  case Nil
  then show ?case by simp
next
  case (Cons t ts)
  let ?seen = "AList.update (fpOf sha t) d seen"
  let ?dst = "AList.update (fpOf sha t) (identityFor sha d idx (trimSpace t)) dst"
  from Cons.prems have rec: "addDomainTokens sha (Suc idx) ?seen d ts ?dst = Inr (seen', dst')"
    by (auto simp: Let_def split: if_splits option.splits)
  then have fresh: "fpOf sha t \<notin> fpOf sha ` set ts"
    using addDomainTokens_ok_iff [of sha "Suc idx" ?seen d ts ?dst] by auto
  show ?case
    unfolding Cons.IH [OF rec] using fresh
    by (auto simp: less_Suc_eq_0_disj nth_Cons' split: if_splits)
qed

lemma newCatalog_steps:
  assumes "newCatalog sha cl ad ag px = Inr c"
  obtains seen1 http1 seen2 http2 seen3 agents seen4 proxies where
    "addDomainTokens sha 0 [] DomainClient cl [] = Inr (seen1, http1)"
    "addDomainTokens sha 0 seen1 DomainAdmin ad http1 = Inr (seen2, http2)"
    "addDomainTokens sha 0 seen2 DomainAgent ag [] = Inr (seen3, agents)"
    "addDomainTokens sha 0 seen3 DomainProxy px [] = Inr (seen4, proxies)"
    "c = \<lparr>httpTokens = http2, registrationTokens = [(DomainAgent, agents), (DomainProxy, proxies)]\<rparr>"
  using assms by (auto simp: newCatalog_def split: sum.splits prod.splits)

lemma newCatalog_ok_iff_aux:
  "(\<exists>c. newCatalog sha cl ad ag px = Inr c) \<longleftrightarrow>
     (\<exists>s1 h1 s2 h2 s3 a s4 p. addDomainTokens sha 0 [] DomainClient cl [] = Inr (s1, h1) \<and>
        addDomainTokens sha 0 s1 DomainAdmin ad h1 = Inr (s2, h2) \<and>
        addDomainTokens sha 0 s2 DomainAgent ag [] = Inr (s3, a) \<and>
        addDomainTokens sha 0 s3 DomainProxy px [] = Inr (s4, p))"
  by (auto simp: newCatalog_def split: sum.splits prod.splits)

lemma distinct_map_append4:
  assumes "distinct (List.map f (a @ b @ c @ d))"
  shows "f ` set b \<inter> f ` set a = {}" "f ` set c \<inter> (f ` set a \<union> f ` set b) = {}"
    "f ` set d \<inter> (f ` set a \<union> f ` set b \<union> f ` set c) = {}"
  using assms by (simp_all add: Int_Un_distrib Int_Un_distrib2 Int_commute)

lemma newCatalog_accepts:
  "(\<exists>c. newCatalog sha cl ad ag px = Inr c) \<longleftrightarrow>
     (\<forall>t \<in> set (cl @ ad @ ag @ px). trimSpace t \<noteq> []) \<and>
     distinct (List.map (fpOf sha) (cl @ ad @ ag @ px))"
proof
  assume "\<exists>c. newCatalog sha cl ad ag px = Inr c"
  then obtain s1 h1 s2 h2 s3 a s4 p where
    st: "addDomainTokens sha 0 [] DomainClient cl [] = Inr (s1, h1)"
      "addDomainTokens sha 0 s1 DomainAdmin ad h1 = Inr (s2, h2)"
      "addDomainTokens sha 0 s2 DomainAgent ag [] = Inr (s3, a)"
      "addDomainTokens sha 0 s3 DomainProxy px [] = Inr (s4, p)"
    unfolding newCatalog_ok_iff_aux by blast
  have ok: "usable sha ts \<and> fpOf sha ` set ts \<inter> dom (map_of s) = {}"
    if "addDomainTokens sha i s d ts e = Inr r" for i s d ts e r
    using addDomainTokens_ok_iff [of sha i s d ts e] that by auto
  have dom: "dom (map_of s1) = fpOf sha ` set cl"
    "dom (map_of s2) = fpOf sha ` set cl \<union> fpOf sha ` set ad"
    "dom (map_of s3) = fpOf sha ` set cl \<union> fpOf sha ` set ad \<union> fpOf sha ` set ag"
    using st(1-3) [THEN addDomainTokens_seen] by simp_all
  note u = ok [OF st(1)] ok [OF st(2), unfolded dom] ok [OF st(3), unfolded dom]
    ok [OF st(4), unfolded dom]
  have "\<forall>t \<in> set (cl @ ad @ ag @ px). trimSpace t \<noteq> []" using u by auto
  moreover have "distinct (List.map (fpOf sha) (cl @ ad @ ag @ px))"
    using u by (simp add: Int_Un_distrib Int_Un_distrib2 Int_commute)
  ultimately show "(\<forall>t \<in> set (cl @ ad @ ag @ px). trimSpace t \<noteq> []) \<and>
     distinct (List.map (fpOf sha) (cl @ ad @ ag @ px))" by (rule conjI)
next
  assume good: "(\<forall>t \<in> set (cl @ ad @ ag @ px). trimSpace t \<noteq> []) \<and>
     distinct (List.map (fpOf sha) (cl @ ad @ ag @ px))"
  have step: "\<exists>s' e'. addDomainTokens sha i s d ts e = Inr (s', e') \<and>
      dom (map_of s') = dom (map_of s) \<union> fpOf sha ` set ts"
    if "usable sha ts" "fpOf sha ` set ts \<inter> dom (map_of s) = {}" for i s d ts e
    using addDomainTokens_ok_iff [of sha i s d ts e] that
      addDomainTokens_seen [of sha i s d ts e] by fastforce
  note dj = distinct_map_append4 [OF good [THEN conjunct2]]
  from good obtain s1 h1 where 1: "addDomainTokens sha 0 [] DomainClient cl [] = Inr (s1, h1)"
      "dom (map_of s1) = fpOf sha ` set cl"
    using step [of cl "[]" 0 DomainClient "[]"] by auto
  with good obtain s2 h2 where 2: "addDomainTokens sha 0 s1 DomainAdmin ad h1 = Inr (s2, h2)"
      "dom (map_of s2) = fpOf sha ` set cl \<union> fpOf sha ` set ad"
    using dj(1) step [of ad s1 0 DomainAdmin h1] by auto
  with good obtain s3 a where 3: "addDomainTokens sha 0 s2 DomainAgent ag [] = Inr (s3, a)"
      "dom (map_of s3) = fpOf sha ` set cl \<union> fpOf sha ` set ad \<union> fpOf sha ` set ag"
    using dj(2) step [of ag s2 0 DomainAgent "[]"] by auto
  with good obtain s4 p where "addDomainTokens sha 0 s3 DomainProxy px [] = Inr (s4, p)"
    using dj(3) step [of px s3 0 DomainProxy "[]"] by auto
  with 1 2 3 show "\<exists>c. newCatalog sha cl ad ag px = Inr c"
    unfolding newCatalog_ok_iff_aux by blast
qed

text \<open>What the two tables of an accepted catalog hold.\<close>

lemma newCatalog_http:
  assumes "newCatalog sha cl ad ag px = Inr c"
  shows "map_of (httpTokens c) fp = Some i \<longleftrightarrow>
    (\<exists>j < length cl. fp = fpOf sha (cl ! j) \<and> i = identityFor sha DomainClient j (trimSpace (cl ! j))) \<or>
    (\<exists>j < length ad. fp = fpOf sha (ad ! j) \<and> i = identityFor sha DomainAdmin j (trimSpace (ad ! j)))"
proof -
  obtain s1 h1 s2 h2 s3 a s4 p where
    st: "addDomainTokens sha 0 [] DomainClient cl [] = Inr (s1, h1)"
      "addDomainTokens sha 0 s1 DomainAdmin ad h1 = Inr (s2, h2)" and c: "httpTokens c = h2"
    using newCatalog_steps [OF assms] by (metis catalog.select_convs(1))
  have "distinct (List.map (fpOf sha) (cl @ ad @ ag @ px))"
    using assms newCatalog_accepts [of sha cl ad ag px] by auto
  note dj = distinct_map_append4(1) [OF this]
  have "fpOf sha (cl ! j) \<notin> fpOf sha ` set ad" if "j < length cl" for j
    using that dj by (metis disjoint_iff imageI nth_mem)
  then show ?thesis
    unfolding c addDomainTokens_dst [OF st(2)] addDomainTokens_dst [OF st(1)]
    by (simp only: list.size map_of.simps) auto
qed

lemma newCatalog_registration:
  assumes "newCatalog sha cl ad ag px = Inr c"
  shows "(\<exists>m. map_of (registrationTokens c) d = Some m \<and> map_of m fp = Some i) \<longleftrightarrow>
    d = DomainAgent \<and>
      (\<exists>j < length ag. fp = fpOf sha (ag ! j) \<and> i = identityFor sha DomainAgent j (trimSpace (ag ! j))) \<or>
    d = DomainProxy \<and>
      (\<exists>j < length px. fp = fpOf sha (px ! j) \<and> i = identityFor sha DomainProxy j (trimSpace (px ! j)))"
proof -
  obtain s2 s3 a s4 p where
    st: "addDomainTokens sha 0 s2 DomainAgent ag [] = Inr (s3, a)"
      "addDomainTokens sha 0 s3 DomainProxy px [] = Inr (s4, p)"
    and c: "registrationTokens c = [(DomainAgent, a), (DomainProxy, p)]"
    using newCatalog_steps [OF assms] by (metis catalog.select_convs(2))
  have "DomainAgent \<noteq> DomainProxy" by (simp add: domain_defs)
  then show ?thesis
    unfolding c using addDomainTokens_dst [OF st(1)] addDomainTokens_dst [OF st(2)] by auto
qed

lemma http_identity:
  assumes "newCatalog sha cl ad ag px = Inr c"
  shows "authenticateHTTP sha c h allowed = Inr i \<longleftrightarrow>
    (\<exists>token. bearerToken h = Inr token \<and> (allowed = [] \<or> idDomain i \<in> set allowed) \<and>
      ((\<exists>j < length cl. tokenFingerprint sha token = fpOf sha (cl ! j) \<and>
          i = identityFor sha DomainClient j (trimSpace (cl ! j))) \<or>
       (\<exists>j < length ad. tokenFingerprint sha token = fpOf sha (ad ! j) \<and>
          i = identityFor sha DomainAdmin j (trimSpace (ad ! j)))))"
  unfolding newCatalog_http [OF assms, symmetric]
  by (auto simp: authenticateHTTP_def split: sum.splits option.splits if_splits)

lemma exampleCatalog:
  "\<exists>c. newCatalog (\<lambda>s. s) [''c1''] [''a1''] [''g1''] [''p1''] = Inr c"
  unfolding newCatalog_accepts by code_simp

section \<open>Properties\<close>

text \<open>
  \<open>NewCatalog\<close> accepts a configuration exactly when every token is non-blank and
  no two tokens, of whatever domains, have the same fingerprint.
\<close>

theorem newCatalog_ok_iff:
  "(\<exists>c. newCatalog sha cl ad ag px = Inr c) \<longleftrightarrow>
     (\<forall>t \<in> set (cl @ ad @ ag @ px). trimSpace t \<noteq> []) \<and>
     distinct (List.map (fpOf sha) (cl @ ad @ ag @ px))"
  by (rule newCatalog_accepts)

theorem newCatalog_ok_iff_witness:
  "\<exists>c. newCatalog (\<lambda>s. s) [''c1''] ['' a1 ''] [''g1''] [''p1''] = Inr c"
  unfolding newCatalog_ok_iff by code_simp

text \<open>
  With an accepted configuration, an HTTP request is authenticated as identity
  \<open>i\<close> exactly when its header carries a bearer token whose fingerprint is that of a configured
  client or admin token, \<open>i\<close> is the identity of that token (its domain, its position, its
  fingerprint), and \<open>i\<close>'s domain is among the allowed ones.
\<close>

theorem authenticateHTTP_iff:
  assumes "newCatalog sha cl ad ag px = Inr c"
  shows "authenticateHTTP sha c h allowed = Inr i \<longleftrightarrow>
    (\<exists>token. bearerToken h = Inr token \<and> (allowed = [] \<or> idDomain i \<in> set allowed) \<and>
      ((\<exists>j < length cl. tokenFingerprint sha token = fpOf sha (cl ! j) \<and>
          i = identityFor sha DomainClient j (trimSpace (cl ! j))) \<or>
       (\<exists>j < length ad. tokenFingerprint sha token = fpOf sha (ad ! j) \<and>
          i = identityFor sha DomainAdmin j (trimSpace (ad ! j)))))"
  using assms by (rule http_identity)

theorem authenticateHTTP_iff_witness:
  "\<exists>c. newCatalog (\<lambda>s. s) [''c1''] [''a1''] [''g1''] [''p1''] = Inr c \<and>
     authenticateHTTP (\<lambda>s. s) c '' Bearer a1'' [DomainAdmin] =
       Inr (identityFor (\<lambda>s. s) DomainAdmin 0 ''a1'')"
proof -
  obtain c where c: "newCatalog (\<lambda>s. s) [''c1''] [''a1''] [''g1''] [''p1''] = Inr c"
    using exampleCatalog by blast
  have "bearerToken '' Bearer a1'' = Inr ''a1''" "trimSpace ''a1'' = ''a1''" by code_simp+
  then have "authenticateHTTP (\<lambda>s. s) c '' Bearer a1'' [DomainAdmin] =
       Inr (identityFor (\<lambda>s. s) DomainAdmin 0 ''a1'')"
    unfolding authenticateHTTP_iff [OF c] by (simp add: identityFor_def)
  with c show ?thesis by blast
qed

text \<open>
  Property C19: the four token domains are separate.  With an accepted configuration, a token
  that registers a tunnel as domain \<open>d\<close> is one of \<open>d\<close>'s own tokens with \<open>d\<close> agent or
  proxy, it does not register under another domain, and no HTTP request that carries a token
  of the same fingerprint is authenticated, whatever domains the endpoint allows.
\<close>

theorem registration_token_separate:
  assumes cat: "newCatalog sha cl ad ag px = Inr c"
    and reg: "authenticateRegistration sha c d tok = Inr i"
    and same: "tokenFingerprint sha token = tokenFingerprint sha (trimSpace (trimPrefix tok ''Bearer ''))"
    and hdr: "bearerToken h = Inr token"
  shows "(d = DomainAgent \<and> tokenFingerprint sha token \<in> fpOf sha ` set ag \<or>
          d = DomainProxy \<and> tokenFingerprint sha token \<in> fpOf sha ` set px) \<and>
         idDomain i = d \<and>
         (\<forall>d'. d' \<noteq> d \<longrightarrow> (\<exists>e. authenticateRegistration sha c d' tok = Inl e)) \<and>
         (\<exists>e. authenticateHTTP sha c h allowed = Inl e)"
proof -
  let ?fp = "tokenFingerprint sha token"
  have dist: "distinct (List.map (fpOf sha) (cl @ ad @ ag @ px))"
    using cat newCatalog_accepts [of sha cl ad ag px] by auto
  have table: "\<exists>m. map_of (registrationTokens c) d = Some m \<and> map_of m ?fp = Some i"
    if "authenticateRegistration sha c d tok = Inr i" for d i
    using that by (auto simp: authenticateRegistration_def Let_def same split: if_splits option.splits)
  have own: "(d = DomainAgent \<and> ?fp \<in> fpOf sha ` set ag \<or> d = DomainProxy \<and> ?fp \<in> fpOf sha ` set px)
      \<and> idDomain i = d" if "authenticateRegistration sha c d tok = Inr i" for d i
    using table [OF that] unfolding newCatalog_registration [OF cat]
    by (auto simp: identityFor_def)
  have "\<exists>e. authenticateRegistration sha c d' tok = Inl e" if "d' \<noteq> d" for d'
  proof (cases "authenticateRegistration sha c d' tok")
    case (Inr i')
    with own [OF reg] own [OF Inr] that dist show ?thesis by auto
  qed simp
  moreover have "\<exists>e. authenticateHTTP sha c h allowed = Inl e"
  proof (cases "authenticateHTTP sha c h allowed")
    case (Inr i')
    then have "?fp \<in> fpOf sha ` set cl \<union> fpOf sha ` set ad"
      unfolding http_identity [OF cat] using hdr by auto
    with own [OF reg] dist show ?thesis by auto
  qed simp
  ultimately show ?thesis using own [OF reg] by blast
qed

theorem registration_token_separate_witness:
  "\<exists>c i. newCatalog (\<lambda>s. s) [''c1''] [''a1''] [''g1''] [''p1''] = Inr c \<and>
     authenticateRegistration (\<lambda>s. s) c DomainAgent ''Bearer g1'' = Inr i \<and>
     idDomain i = DomainAgent \<and>
     (\<exists>e. authenticateHTTP (\<lambda>s. s) c ''Bearer g1'' [] = Inl e)"
proof -
  obtain c where c: "newCatalog (\<lambda>s. s) [''c1''] [''a1''] [''g1''] [''p1''] = Inr c"
    using exampleCatalog by blast
  let ?i = "identityFor (\<lambda>s. s) DomainAgent 0 ''g1''"
  have t: "trimSpace (trimPrefix ''Bearer g1'' ''Bearer '') = ''g1''"
    "bearerToken ''Bearer g1'' = Inr ''g1''" "trimSpace ''g1'' = ''g1''" by code_simp+
  have "\<exists>m. map_of (registrationTokens c) DomainAgent = Some m \<and>
      map_of m (tokenFingerprint (\<lambda>s. s) ''g1'') = Some ?i"
    unfolding newCatalog_registration [OF c] using t(3) by simp
  then have r: "authenticateRegistration (\<lambda>s. s) c DomainAgent ''Bearer g1'' = Inr ?i"
    by (auto simp: authenticateRegistration_def t)
  have same: "tokenFingerprint (\<lambda>s. s) ''g1'' =
      tokenFingerprint (\<lambda>s. s) (trimSpace (trimPrefix ''Bearer g1'' ''Bearer ''))"
    by (simp only: t(1))
  from registration_token_separate [OF c r same t(2)] c r show ?thesis by blast
qed

end
