(* ===== verification/GoJson.thy ===== *)
theory GoJson
  imports Complex_Main GoBase
begin

text \<open>
  Values of Go's type \<open>any\<close> that come from \<open>encoding/json\<close>.  A number is a \<open>float64\<close>;
  a finite \<open>float64\<close> is a rational, so numbers are \<open>rat\<close>.  An object is an association
  list with distinct keys.  A decoded value never holds a Go \<open>int\<close>, so the branches of the
  source for \<open>int\<close> and \<open>int64\<close> dynamic types have no counterpart.  A deep copy through
  \<open>cloneAny\<close> or \<open>cloneMap\<close> is the value itself (theory AdminClones shows why it may be).

  A Go string that holds JSON text is modelled by the value it parses to (\<open>JText\<close>), or, when
  \<open>json.Unmarshal\<close> rejects it, by its bytes (\<open>JRaw\<close>); \<open>json.Marshal\<close> of a value is
  \<open>JText\<close> of that value.
\<close>

datatype json =
    JNull
  | JBool bool
  | JNum rat
  | JStr string
  | JArr "json list"
  | JObj "(string \<times> json) list"

datatype jtext = JText json | JRaw string

type_synonym jobj = "(string \<times> json) list"

text \<open>Reading a missing key of a \<open>map[string]any\<close> gives \<open>nil\<close>.\<close>

definition jget :: "jobj \<Rightarrow> string \<Rightarrow> json" where
  "jget obj k = (case map_of obj k of None \<Rightarrow> JNull | Some v \<Rightarrow> v)"

definition jAsObj :: "json \<Rightarrow> jobj option" where
  "jAsObj v = (case v of JObj m \<Rightarrow> Some m | _ \<Rightarrow> None)"

text \<open>
  Conversion \<open>int64(x)\<close> of a \<open>float64\<close>: truncation towards zero.  Out of range the result
  is up to the implementation; amd64 gives the least \<open>int64\<close>.
\<close>

definition truncRat :: "rat \<Rightarrow> int" where
  "truncRat x = (if x < 0 then - \<lfloor>- x\<rfloor> else \<lfloor>x\<rfloor>)"

definition floatToInt64 :: "rat \<Rightarrow> int" where
  "floatToInt64 x = (let t = truncRat x in if isInt64 t then t else - (2 ^ 63))"

lemma truncRat_of_int [simp]: "truncRat (of_int n) = n"
  by (simp add: truncRat_def flip: of_int_minus)

lemma floatToInt64_range: "isInt64 (floatToInt64 x)"
  by (simp add: floatToInt64_def isInt64_def Let_def)

lemma floatToInt64_of_int: "isInt64 n \<Longrightarrow> floatToInt64 (of_int n) = n"
  by (simp add: floatToInt64_def)

lemma jget_Cons [simp]: "jget ((k', v) # m) k = (if k = k' then v else jget m k)"
  by (auto simp: jget_def)

lemma jget_Nil [simp]: "jget [] k = JNull"
  by (simp add: jget_def)

lemma jAsObj_simps [simp]:
  "jAsObj (JObj m) = Some m" "jAsObj JNull = None" "jAsObj (JStr s) = None"
  "jAsObj (JBool b) = None" "jAsObj (JNum x) = None" "jAsObj (JArr xs) = None"
  by (simp_all add: jAsObj_def)

section \<open>Decoding into Go types\<close>

text \<open>\<open>json.Unmarshal\<close> into a struct: a missing field or \<open>null\<close> leaves the zero value, a value of another
  type is an error.\<close>

definition unmarshalError :: "string \<Rightarrow> goerr" where
  "unmarshalError what = ErrText (''json: cannot unmarshal '' @ what)"

fun decodeStr :: "json \<Rightarrow> string option" where
  "decodeStr JNull = Some []"
| "decodeStr (JStr s) = Some s"
| "decodeStr _ = None"

fun decodeBool :: "json \<Rightarrow> bool option" where
  "decodeBool JNull = Some False"
| "decodeBool (JBool b) = Some b"
| "decodeBool _ = None"

fun decodeInt :: "json \<Rightarrow> int option" where
  "decodeInt JNull = Some 0"
| "decodeInt (JNum x) = (if x = of_int (floatToInt64 x) then Some (floatToInt64 x) else None)"
| "decodeInt _ = None"

fun decodeObject :: "jtext \<Rightarrow> jobj option" where
  "decodeObject (JText (JObj o1)) = Some o1"
| "decodeObject (JText JNull) = Some []"
| "decodeObject _ = None"

fun decodeStrs :: "json \<Rightarrow> string list option" where
  "decodeStrs JNull = Some []"
| "decodeStrs (JArr xs) = those (List.map decodeStr xs)"
| "decodeStrs _ = None"

lemma decodeInt_int [simp]: "isInt64 n \<Longrightarrow> decodeInt (JNum (of_int n)) = Some n"
  by (simp add: floatToInt64_of_int)

end
