(* ===== verification/AdminTypes.thy ===== *)
theory AdminTypes
  imports TokenAuth GoJson
begin

text \<open>
  The data of \<open>sysplane-center/admin/service.go\<close>: templates, invocations, audit events, the
  requests and filters of the API, and the state of the service.  Go's maps are association
  lists in the order in which an iteration visits them; \<open>time.Time\<close> is nanoseconds; pointers that
  may be nil are options.  The sync.Map \<open>cancelFns\<close> is the set of invocations that can be
  cancelled, together with the ones whose context has been cancelled.
\<close>

definition riskReadonly :: string where "riskReadonly = ''readonly''"
definition riskMutating :: string where "riskMutating = ''mutating''"
definition riskDangerous :: string where "riskDangerous = ''dangerous''"

lemmas risk_defs = riskReadonly_def riskMutating_def riskDangerous_def

definition actionTypeBuiltin :: string where "actionTypeBuiltin = ''builtin''"
definition actionTypeCommandTemplate :: string where
  "actionTypeCommandTemplate = ''command_template''"

lemmas actionType_defs = actionTypeBuiltin_def actionTypeCommandTemplate_def

definition statusPending :: string where "statusPending = ''pending''"
definition statusRunning :: string where "statusRunning = ''running''"
definition statusSucceeded :: string where "statusSucceeded = ''succeeded''"
definition statusFailed :: string where "statusFailed = ''failed''"
definition statusCanceled :: string where "statusCanceled = ''canceled''"
definition statusPartial :: string where "statusPartial = ''partial''"

lemmas invStatus_defs = statusPending_def statusRunning_def statusSucceeded_def statusFailed_def
  statusCanceled_def statusPartial_def

text \<open>The HTTP status codes the service names.\<close>

definition StatusBadRequest :: nat where "StatusBadRequest = 400"
definition StatusForbidden :: nat where "StatusForbidden = 403"
definition StatusNotFound :: nat where "StatusNotFound = 404"
definition StatusConflict :: nat where "StatusConflict = 409"
definition StatusUnprocessableEntity :: nat where "StatusUnprocessableEntity = 422"
definition StatusInternalServerError :: nat where "StatusInternalServerError = 500"
definition StatusServiceUnavailable :: nat where "StatusServiceUnavailable = 503"
definition StatusGatewayTimeout :: nat where "StatusGatewayTimeout = 504"

lemmas http_defs = StatusBadRequest_def StatusForbidden_def StatusNotFound_def StatusConflict_def
  StatusUnprocessableEntity_def StatusInternalServerError_def StatusServiceUnavailable_def
  StatusGatewayTimeout_def

record svcError =
  seStatus :: nat
  seCode :: string
  seMessage :: string
  seDetails :: jobj

definition svcErr :: "nat \<Rightarrow> string \<Rightarrow> string \<Rightarrow> svcError" where
  "svcErr st code msg = \<lparr>seStatus = st, seCode = code, seMessage = msg, seDetails = []\<rparr>"

record requestMeta =
  rmRequestId :: string
  rmSource :: string
  rmIdentity :: identity

record templateExec =
  teType :: string
  teCommand :: string
  teArgs :: "string list"

record commandTemplate =
  ctId :: string
  ctName :: string
  ctDescription :: string
  ctRiskLevel :: string
  ctTargetOS :: "string list"
  ctExecutor :: templateExec
  ctParamsSchema :: jobj
  ctDefaultTimeoutSec :: int
  ctMaxTimeoutSec :: int
  ctMaxOutputBytes :: int
  ctEnabled :: bool
  ctCreatedBy :: string
  ctCreatedAt :: int
  ctUpdatedAt :: int

record templateListFilter =
  tfLimit :: int
  tfCursor :: string
  tfName :: string
  tfEnabled :: "bool option"
  tfRiskLevel :: string
  tfTargetOS :: string

record createTemplateRequest =
  crName :: string
  crDescription :: string
  crRiskLevel :: string
  crTargetOS :: "string list"
  crExecutor :: templateExec
  crParamsSchema :: jobj
  crDefaultTimeoutSec :: int
  crMaxTimeoutSec :: int
  crMaxOutputBytes :: int

record updateTemplateRequest =
  upDescription :: "string option"
  upRiskLevel :: "string option"
  upTargetOS :: "string list option"
  upParamsSchema :: "jobj option"
  upDefaultTimeoutSec :: "int option"
  upMaxTimeoutSec :: "int option"
  upMaxOutputBytes :: "int option"
  upEnabled :: "bool option"

record invocation =
  ivId :: string
  ivAction :: string
  ivActionType :: string
  ivStatus :: string
  ivAsync :: bool
  ivNodeIds :: "string list"
  ivParams :: json
  ivSubjectId :: string
  ivSource :: string
  ivTimeoutSec :: int
  ivCreatedAt :: int
  ivStartedAt :: "int option"
  ivFinishedAt :: "int option"

record invocationError =
  ieCode :: string
  ieMessage :: string
  ieDetails :: jobj

record invocationResult =
  irNodeId :: string
  irHostname :: string
  irStatus :: string
  irStartedAt :: int
  irFinishedAt :: int
  irData :: json
  irError :: "invocationError option"

text \<open>\<open>params\<close> is any decoded JSON value.\<close>

record createInvocationRequest =
  cqAction :: string
  cqActionType :: string
  cqNodeIds :: "string list"
  cqParams :: json
  cqTimeoutSec :: int
  cqAsync :: bool

record invocationListFilter =
  lfLimit :: int
  lfCursor :: string
  lfStatus :: string
  lfAction :: string
  lfActionType :: string

record auditEvent =
  auId :: string
  auRequestId :: string
  auInvocationId :: string
  auSubjectId :: string
  auTokenType :: string
  auSource :: string
  auAction :: string
  auActionType :: string
  auTargetNodeIds :: "string list"
  auRiskLevel :: string
  auDecision :: string
  auDecisionReason :: string
  auCreatedAt :: int
  auFinishedAt :: "int option"

record auditFilter =
  afLimit :: int
  afCursor :: string
  afAction :: string
  afDecision :: string
  afNodeId :: string
  afSubjectId :: string

record 'a listPage =
  pgItems :: "'a list"
  pgNextCursor :: string

record invocationResponse =
  rsInvocation :: "invocation option"
  rsResults :: "invocationResult list"

record service =
  templates :: "commandTemplate gomap"
  templateNameIDs :: "string gomap"
  invocations :: "invocation gomap"
  results :: "invocationResult list gomap"
  audits :: "auditEvent gomap"
  auditByInvoke :: "string gomap"
  cancelFns :: "string list"
  canceledCtx :: "string list"

definition newService :: service where
  "newService = \<lparr>templates = [], templateNameIDs = [], invocations = [], results = [],
     audits = [], auditByInvoke = [], cancelFns = [], canceledCtx = []\<rparr>"

end
