(* ===== verification/Tunnel.thy ===== *)
theory Tunnel
  imports GoJson
begin

text \<open>
  The messages of the tunnel protocol (\<open>api/tunnel/tunnel.pb.go\<close>, from
  \<open>api/proto/tunnel.proto\<close>).  A message is its \<open>oneof\<close> payload; \<open>EmptyPayload\<close> is a message
  whose payload is not set.  A stream (an interface value compared by identity) is a number.
\<close>

datatype nodeType = NODE_TYPE_UNSPECIFIED | NODE_TYPE_AGENT | NODE_TYPE_PROXY | NODE_TYPE_OTHER int

record registerRequest =
  rrHostname :: string
  rrIp :: string
  rrOs :: string
  rrAgentVersion :: string
  rrNodeType :: nodeType
  rrProxyPath :: "string list"
  rrToken :: string

record toolRequest =
  trRequestId :: string
  trToolName :: string
  trArgsJson :: jtext
  trTargetHost :: string

record errorResponse =
  erRequestId :: string
  erCode :: string
  erMessage :: string

datatype tunnelMessage =
    RegisterRequest registerRequest
  | RegisterAck bool string
  | Heartbeat int
  | HeartbeatAck int
  | ToolRequest toolRequest
  | ToolResponse string jtext
  | ErrorResponse errorResponse
  | CancelRequest string
  | EmptyPayload

type_synonym streamId = nat

text \<open>The generated getters: \<open>None\<close> is Go's \<open>nil\<close>.\<close>

fun getRegisterRequest :: "tunnelMessage \<Rightarrow> registerRequest option" where
  "getRegisterRequest (RegisterRequest q) = Some q"
| "getRegisterRequest _ = None"

fun getRegisterAck :: "tunnelMessage \<Rightarrow> (bool \<times> string) option" where
  "getRegisterAck (RegisterAck ok m) = Some (ok, m)"
| "getRegisterAck _ = None"

fun getToolRequest :: "tunnelMessage \<Rightarrow> toolRequest option" where
  "getToolRequest (ToolRequest q) = Some q"
| "getToolRequest _ = None"

fun getCancelRequest :: "tunnelMessage \<Rightarrow> string option" where
  "getCancelRequest (CancelRequest i) = Some i"
| "getCancelRequest _ = None"

text \<open>\<open>fmt.Sprintf("%T", msg.Payload)\<close>.\<close>

fun payloadType :: "tunnelMessage \<Rightarrow> string" where
  "payloadType (RegisterRequest _) = ''*tunnel.TunnelMessage_RegisterRequest''"
| "payloadType (RegisterAck _ _) = ''*tunnel.TunnelMessage_RegisterAck''"
| "payloadType (Heartbeat _) = ''*tunnel.TunnelMessage_Heartbeat''"
| "payloadType (HeartbeatAck _) = ''*tunnel.TunnelMessage_HeartbeatAck''"
| "payloadType (ToolRequest _) = ''*tunnel.TunnelMessage_ToolRequest''"
| "payloadType (ToolResponse _ _) = ''*tunnel.TunnelMessage_ToolResponse''"
| "payloadType (ErrorResponse _) = ''*tunnel.TunnelMessage_ErrorResponse''"
| "payloadType (CancelRequest _) = ''*tunnel.TunnelMessage_CancelRequest''"
| "payloadType EmptyPayload = ''<nil>''"

end
