(* ===== verification/AgentRegistry.thy ===== *)
theory AgentRegistry
  imports Tunnel
begin

text \<open>
  The record that center and proxy keep for a connected node, and the interface both
  registries (\<open>sysplane-center/registry\<close>, \<open>sysplane-proxy/registry\<close>) offer to the tunnel
  services: a locale with the operations and the laws the services rely on.  The clients'
  lemmas are proved once here and reach each registry through its interpretation.
\<close>

datatype status = StatusOnline | StatusOffline

fun statusStr :: "status \<Rightarrow> string" where
  "statusStr StatusOnline = ''online''"
| "statusStr StatusOffline = ''offline''"

record agentRecord =
  hostname :: string
  ip :: string
  os :: string
  agentVersion :: string
  nodeTypeOf :: string
  proxyPath :: "string list"
  registeredAt :: int
  lastHeartbeat :: int
  status :: status
  routeStream :: streamId

type_synonym records = "agentRecord gomap"

text \<open>A record of a Linux agent on stream \<open>s\<close>, used in examples.\<close>

definition exRecord :: "string \<Rightarrow> streamId \<Rightarrow> agentRecord" where
  "exRecord h s = \<lparr>hostname = h, ip = ''10.0.0.1'', os = ''linux/amd64'', agentVersion = ''1'',
     nodeTypeOf = ''agent'', proxyPath = [], registeredAt = 0, lastHeartbeat = 0,
     status = StatusOnline, routeStream = s\<rparr>"

text \<open>The keys of a registry are the hostnames of its records.\<close>

definition recordsInv :: "records \<Rightarrow> bool" where
  "recordsInv m \<longleftrightarrow> wfMap m \<and> (\<forall>(h, rec) \<in> set m. hostname rec = h)"

lemma recordsInv_lookup: "recordsInv m \<Longrightarrow> map_of m h = Some rec \<Longrightarrow> hostname rec = h"
  by (auto simp: recordsInv_def dest: map_of_SomeD)

lemma recordsInvI:
  "wfMap m \<Longrightarrow> (\<And>h rec. map_of m h = Some rec \<Longrightarrow> hostname rec = h) \<Longrightarrow> recordsInv m"
  by (auto simp: recordsInv_def)

locale agent_registry =
  fixes invar :: "'r \<Rightarrow> bool"
    and lookup :: "'r \<Rightarrow> string \<Rightarrow> agentRecord option"
    and register :: "agentRecord \<Rightarrow> 'r \<Rightarrow> 'r"
    and unregister :: "string \<Rightarrow> 'r \<Rightarrow> 'r"
    and dropStream :: "streamId \<Rightarrow> 'r \<Rightarrow> 'r \<times> string list"
    and heartbeat :: "int \<Rightarrow> string \<Rightarrow> 'r \<Rightarrow> 'r"
    and sweep :: "int \<Rightarrow> int \<Rightarrow> 'r \<Rightarrow> 'r"
  assumes lookup_host: "invar r \<Longrightarrow> lookup r h = Some rec \<Longrightarrow> hostname rec = h"
    and lookup_register: "invar r \<Longrightarrow> lookup (register rec r) = (lookup r)(hostname rec \<mapsto> rec)"
    and lookup_unregister: "invar r \<Longrightarrow> lookup (unregister h r) = (lookup r)(h := None)"
    and lookup_dropStream: "invar r \<Longrightarrow> lookup (fst (dropStream s r)) h =
        (case lookup r h of None \<Rightarrow> None
         | Some rec \<Rightarrow> if routeStream rec = s then None else Some rec)"
    and dropped: "invar r \<Longrightarrow> set (snd (dropStream s r)) =
        {h. \<exists>rec. lookup r h = Some rec \<and> routeStream rec = s}"
    and lookup_heartbeat: "invar r \<Longrightarrow> lookup (heartbeat now h r) h' =
        (if h' = h then map_option (\<lambda>rec. rec\<lparr>lastHeartbeat := now, status := StatusOnline\<rparr>) (lookup r h)
         else lookup r h')"
    and lookup_sweep: "invar r \<Longrightarrow> lookup (sweep now timeout r) h =
        map_option (\<lambda>rec. if status rec = StatusOnline \<and> now - lastHeartbeat rec > timeout
                          then rec\<lparr>status := StatusOffline\<rparr> else rec) (lookup r h)"
    and invar_register: "invar r \<Longrightarrow> invar (register rec r)"
    and invar_unregister: "invar r \<Longrightarrow> invar (unregister h r)"
    and invar_dropStream: "invar r \<Longrightarrow> invar (fst (dropStream s r))"
    and invar_heartbeat: "invar r \<Longrightarrow> invar (heartbeat now h r)"
    and invar_sweep: "invar r \<Longrightarrow> invar (sweep now timeout r)"
begin

lemmas invars = invar_register invar_unregister invar_dropStream invar_heartbeat invar_sweep

lemmas lookups = lookup_register lookup_unregister lookup_dropStream lookup_heartbeat lookup_sweep

text \<open>
  A node that reconnects before its old stream is torn down stays registered: dropping the
  old stream leaves the newer record alone.
\<close>

lemma reconnect_survives:
  assumes "invar r" and "routeStream new \<noteq> old"
  shows "lookup (fst (dropStream old (register new r))) (hostname new) = Some new
    \<and> hostname new \<notin> set (snd (dropStream old (register new r)))"
  using assms by (simp add: lookups invars dropped)

text \<open>Dropping a stream removes every record that routes over it, and no other.\<close>

lemma dropStream_exact:
  assumes "invar r"
  shows "lookup (fst (dropStream s r)) h = Some rec \<longleftrightarrow> lookup r h = Some rec \<and> routeStream rec \<noteq> s"
  using assms by (auto simp: lookup_dropStream split: option.splits)

lemma dropStream_twice:
  assumes "invar r"
  shows "lookup (fst (dropStream s (fst (dropStream s r)))) = lookup (fst (dropStream s r))"
    and "snd (dropStream s (fst (dropStream s r))) = []"
proof -
  show "lookup (fst (dropStream s (fst (dropStream s r)))) = lookup (fst (dropStream s r))"
    using assms by (auto simp: fun_eq_iff lookup_dropStream invar_dropStream split: option.splits)
  have "set (snd (dropStream s (fst (dropStream s r)))) = {}"
    using assms by (auto simp: dropped invar_dropStream lookup_dropStream split: option.splits if_splits)
  then show "snd (dropStream s (fst (dropStream s r))) = []" by simp
qed

text \<open>A heartbeat keeps the node online at every sweep within the timeout.\<close>

lemma heartbeat_keeps_online:
  assumes "invar r" and "lookup r h = Some rec" and "now' - now \<le> timeout"
  shows "lookup (sweep now' timeout (heartbeat now h r)) h
    = Some (rec\<lparr>lastHeartbeat := now, status := StatusOnline\<rparr>)"
  using assms by (simp add: lookups invars)

end

end
