(* ===== verification/GoPath.thy ===== *)
theory GoPath
  imports GoBase
begin

text \<open>
  The part of \<open>path/filepath\<close> (Unix) the source relies on: \<open>filepath.IsAbs\<close> and
  \<open>filepath.Clean\<close>, with the facts the path guard and the command whitelist need: a
  cleaned path is a fixed point of \<open>Clean\<close>, and comparing cleaned absolute paths with a
  separator appended compares their component lists.
\<close>

definition isAbs :: "string \<Rightarrow> bool" where
  "isAbs p \<longleftrightarrow> hasPrefix p ''/''"

abbreviation slash :: char where "slash \<equiv> CHR ''/''"

text \<open>One component of the input, with the components kept so far in reverse order.\<close>

fun cleanStep :: "bool \<Rightarrow> string list \<Rightarrow> string \<Rightarrow> string list" where
  "cleanStep rooted acc c =
     (if c = [] \<or> c = ''.'' then acc
      else if c = ''..'' then
        (case acc of
           [] \<Rightarrow> if rooted then [] else [c]
         | x # xs \<Rightarrow> if x \<noteq> ''..'' then xs else c # acc)
      else c # acc)"

definition cleanComps :: "bool \<Rightarrow> string \<Rightarrow> string list" where
  "cleanComps rooted p = rev (foldl (cleanStep rooted) [] (splitOn slash p))"

definition clean :: "string \<Rightarrow> string" where
  "clean p =
     (if p = [] then ''.''
      else if isAbs p then slash # joinOn slash (cleanComps True p)
      else (case cleanComps False p of [] \<Rightarrow> ''.'' | cs \<Rightarrow> joinOn slash cs))"

text \<open>The components of a path: the non-empty parts between separators.\<close>

definition comps :: "string \<Rightarrow> string list" where
  "comps p = filter (\<lambda>c. c \<noteq> []) (splitOn slash p)"

section \<open>A cleaned path is clean\<close>

fun okAcc :: "bool \<Rightarrow> string list \<Rightarrow> bool" where
  "okAcc rooted [] = True"
| "okAcc rooted (c # acc) =
     (c \<noteq> [] \<and> c \<noteq> ''.'' \<and> slash \<notin> set c \<and> okAcc rooted acc \<and>
      (c = ''..'' \<longrightarrow> \<not> rooted \<and> (acc = [] \<or> hd acc = ''..'')))"

lemma okAcc_step: "okAcc r acc \<Longrightarrow> slash \<notin> set c \<Longrightarrow> okAcc r (cleanStep r acc c)"
  by (cases acc) auto

lemma okAcc_foldl:
  "okAcc r acc \<Longrightarrow> \<forall>c \<in> set cs. slash \<notin> set c \<Longrightarrow> okAcc r (foldl (cleanStep r) acc cs)"
proof (induction cs arbitrary: acc)
  case Nil
  then show ?case by simp
next
  case (Cons c cs)
  from Cons.prems have "okAcc r (cleanStep r acc c)" by (intro okAcc_step) auto
  with Cons.IH Cons.prems show ?case by simp
qed

lemma okAcc_cleanComps: "okAcc r (rev (cleanComps r p))"
  unfolding cleanComps_def rev_rev_ident
  by (rule okAcc_foldl) (auto dest: splitOn_parts)

lemma okAcc_fixed: "okAcc r acc \<Longrightarrow> foldl (cleanStep r) [] (rev acc) = acc"
proof (induction acc)
  case Nil
  show ?case by simp
next
  case (Cons c acc)
  then show ?case by (cases acc) auto
qed

lemma okAcc_no_slash: "okAcc r acc \<Longrightarrow> c \<in> set acc \<Longrightarrow> slash \<notin> set c \<and> c \<noteq> [] \<and> c \<noteq> ''.''"
  by (induction acc) auto

lemma okAcc_rooted: "okAcc True acc \<Longrightarrow> ''..'' \<notin> set acc"
  by (induction acc) auto

lemma cleanComps_parts:
  "c \<in> set (cleanComps r p) \<Longrightarrow> slash \<notin> set c \<and> c \<noteq> [] \<and> c \<noteq> ''.''"
  using okAcc_no_slash [OF okAcc_cleanComps] by fastforce

lemma cleanComps_fixed:
  assumes "cs = cleanComps r p" and "cs \<noteq> []"
  shows "cleanComps r (joinOn slash cs) = cs"
proof -
  have "splitOn slash (joinOn slash cs) = cs"
    using assms cleanComps_parts by (intro splitOn_joinOn) auto
  moreover have "foldl (cleanStep r) [] cs = rev cs"
    using okAcc_fixed [OF okAcc_cleanComps [of r p]] by (simp add: assms(1))
  ultimately show ?thesis by (simp add: cleanComps_def)
qed

lemma cleanComps_slash: "cleanComps r (slash # s) = cleanComps r s"
  by (simp add: cleanComps_def)

lemma cleanComps_Nil [simp]: "cleanComps r [] = []"
  by (simp add: cleanComps_def)

lemma isAbs_Cons [simp]: "isAbs (c # s) \<longleftrightarrow> c = slash" "\<not> isAbs []"
  by (auto simp: isAbs_def hasPrefix_def)

lemma isAbs_ex: "isAbs p \<Longrightarrow> \<exists>q. p = slash # q"
  by (cases p) auto

lemma isAbs_clean [simp]: "isAbs (clean p) \<longleftrightarrow> isAbs p"
proof (cases "isAbs p")
  case True
  then show ?thesis by (cases p) (auto simp: clean_def)
next
  case False
  show ?thesis
  proof (cases "p = [] \<or> cleanComps False p = []")
    case True
    with False show ?thesis by (auto simp: clean_def)
  next
    case nonempty: False
    then obtain c cs where cs: "cleanComps False p = c # cs" by (meson neq_Nil_conv)
    with cleanComps_parts [of c False p] obtain x xs where "c = x # xs" "x \<noteq> slash"
      by (cases c) auto
    with False nonempty cs show ?thesis by (cases cs) (auto simp: clean_def)
  qed
qed

lemma clean_not_Nil [simp]: "clean p \<noteq> []"
proof (cases "p = [] \<or> isAbs p")
  case True
  then show ?thesis by (auto simp: clean_def)
next
  case False
  show ?thesis
  proof (cases "cleanComps False p")
    case Nil
    with False show ?thesis by (simp add: clean_def)
  next
    case (Cons c cs)
    with cleanComps_parts [of c False p] have "c \<noteq> []" by simp
    with False Cons show ?thesis by (cases cs) (auto simp: clean_def)
  qed
qed

lemma clean_abs: "isAbs p \<Longrightarrow> clean p = slash # joinOn slash (cleanComps True p)"
  by (cases p) (auto simp: clean_def)

lemma clean_rel:
  "\<not> isAbs p \<Longrightarrow> p \<noteq> [] \<Longrightarrow> cleanComps False p \<noteq> [] \<Longrightarrow>
   clean p = joinOn slash (cleanComps False p)"
  by (auto simp: clean_def split: list.splits)

lemma clean_idem [simp]: "clean (clean p) = clean p"
proof (cases "isAbs p")
  case True
  let ?cs = "cleanComps True p"
  have c: "clean p = slash # joinOn slash ?cs"
    using True by (rule clean_abs)
  have "cleanComps True (clean p) = ?cs"
    by (cases "?cs = []") (auto simp: c cleanComps_slash cleanComps_fixed [OF refl])
  then show ?thesis
    using clean_abs [of "clean p"] c True by simp
next
  case False
  show ?thesis
  proof (cases "p = [] \<or> cleanComps False p = []")
    case True
    with False have "clean p = ''.''" by (auto simp: clean_def)
    then show ?thesis by (simp add: clean_def cleanComps_def)
  next
    case nonempty: False
    let ?cs = "cleanComps False p"
    have c: "clean p = joinOn slash ?cs"
      using False nonempty by (simp add: clean_rel)
    have "cleanComps False (clean p) = ?cs"
      using nonempty by (simp add: c cleanComps_fixed [OF refl])
    moreover have "clean (clean p) = joinOn slash (cleanComps False (clean p))"
      if "cleanComps False (clean p) \<noteq> []"
      using clean_rel [of "clean p"] that False by simp
    ultimately show ?thesis using nonempty c by simp
  qed
qed

section \<open>Components of a cleaned absolute path\<close>

lemma comps_joinOn:
  "\<forall>c \<in> set cs. slash \<notin> set c \<and> c \<noteq> [] \<Longrightarrow> comps (slash # joinOn slash cs) = cs"
  by (cases "cs = []") (auto simp: comps_def splitOn_joinOn filter_id_conv)

lemma comps_clean: "isAbs p \<Longrightarrow> comps (clean p) = cleanComps True p"
  using comps_joinOn [of "cleanComps True p"] cleanComps_parts
  by (auto simp: clean_def)

lemma clean_comps:
  "isAbs p \<Longrightarrow> clean p = slash # joinOn slash (comps (clean p))"
  by (auto simp: comps_clean) (auto simp: clean_def)

lemma clean_no_dots: "isAbs p \<Longrightarrow> ''..'' \<notin> set (comps (clean p)) \<and> ''.'' \<notin> set (comps (clean p))"
  using okAcc_rooted [OF okAcc_cleanComps [of True p]] cleanComps_parts [of "''.''" True p]
  by (auto simp: comps_clean)

lemma splitOn_clean:
  assumes "isAbs p" and "clean p = p" and "p \<noteq> ''/''"
  shows "splitOn slash p = [] # comps p"
proof -
  have p: "p = slash # joinOn slash (comps p)" using clean_comps [OF assms(1)] assms(2) by simp
  have parts: "\<forall>c \<in> set (comps p). slash \<notin> set c"
    by (auto simp: comps_def dest: splitOn_parts)
  have "comps p \<noteq> []" using p assms(3) by auto
  then have "splitOn slash (joinOn slash (comps p)) = comps p"
    using parts by (intro splitOn_joinOn) auto
  then show ?thesis using p by (metis splitOn.simps(2))
qed

text \<open>The directory form of a path: with exactly one trailing separator.\<close>

definition dirForm :: "string \<Rightarrow> string" where
  "dirForm c = (if hasSuffix c ''/'' then c else c @ ''/'')"

lemma clean_suffix_slash:
  assumes "isAbs p" and "clean p = p" and "p \<noteq> ''/''"
  shows "\<not> hasSuffix p ''/''"
proof
  assume "hasSuffix p ''/''"
  then obtain q where "p = q @ [slash]" by (auto simp: hasSuffix_iff suffix_def)
  moreover have "splitOn slash (q @ [slash]) = splitOn slash q @ [[]]" for q
    by (induction q) (auto split: list.splits)
  ultimately have "last (splitOn slash p) = []" by simp
  moreover have "comps p \<noteq> []"
    using clean_comps [OF assms(1)] assms(2,3) by (metis joinOn.simps(1))
  moreover have "last (comps p) \<noteq> []"
    using \<open>comps p \<noteq> []\<close> last_in_set [of "comps p"] by (auto simp: comps_def)
  ultimately show False using splitOn_clean [OF assms] by simp
qed

theorem dirForm_prefix:
  assumes d: "isAbs d" "clean d = d" and r: "isAbs r" "clean r = r"
  shows "hasPrefix (dirForm r) (dirForm d) \<longleftrightarrow> prefix (comps d) (comps r)"
proof (cases "d = ''/''")
  case True
  from r obtain q where "r = slash # q" using isAbs_ex by blast
  then have "hasPrefix (dirForm r) ''/''" by (auto simp: dirForm_def hasPrefix_def)
  with True show ?thesis by (simp add: dirForm_def hasSuffix_def hasPrefix_def comps_def)
next
  case False
  then have nd: "\<not> hasSuffix d ''/''" and sd: "splitOn slash d = [] # comps d"
    using clean_suffix_slash splitOn_clean d by auto
  have cd: "comps d \<noteq> []" using clean_comps [OF d(1)] d(2) False by (metis joinOn.simps(1))
  have *: "prefix (d @ [slash]) (r @ [slash]) \<longleftrightarrow> prefix ([] # comps d) (splitOn slash r)"
    using prefix_sep_splitOn [of d slash r] sd by simp
  show ?thesis
  proof (cases "r = ''/''")
    case True
    obtain d' where "d = slash # d'" "d' \<noteq> []" using False d isAbs_ex by blast
    then have "\<not> prefix (d @ [slash]) [slash]" by simp
    with True cd nd show ?thesis
      by (simp add: dirForm_def hasPrefix_iff hasSuffix_def comps_def [of "''/''"])
  next
    case r': False
    then have "\<not> hasSuffix r ''/''" "splitOn slash r = [] # comps r"
      using clean_suffix_slash splitOn_clean r by auto
    with * nd show ?thesis by (simp add: dirForm_def hasPrefix_iff)
  qed
qed

end
