(* ===== verification/AdminHelpers.thy ===== *)
theory AdminHelpers
  imports AdminTypes AgentRegistry GoPath
begin

text \<open>
  The pure helpers of \<open>sysplane-center/admin/service.go\<close>: normalisation, conversion of dynamic
  JSON values, pagination, deduplication, the summary of an invocation and the classification
  of errors.
\<close>

section \<open>Normalisation\<close>

text \<open>\<open>reqId\<close> is what \<open>stream.NewRequestID\<close> returns if it is called.\<close>

definition normalizeMeta :: "string \<Rightarrow> requestMeta \<Rightarrow> requestMeta" where
  "normalizeMeta reqId meta =
     (let m = (if rmRequestId meta = [] then meta\<lparr>rmRequestId := reqId\<rparr> else meta)
      in if rmSource m = [] then m\<lparr>rmSource := ''api''\<rparr> else m)"

definition normalizeAction :: "string \<Rightarrow> string" where
  "normalizeAction action = replaceChar (CHR '':'') (CHR ''.'') (trimSpace action)"

definition normalizeTimeout :: "int \<Rightarrow> int \<Rightarrow> int \<Rightarrow> int" where
  "normalizeTimeout requested defaultSec maxSec =
     (let r1 = (if requested \<le> 0 then defaultSec else requested);
          r2 = (if maxSec > 0 \<and> r1 > maxSec then maxSec else r1)
      in if r2 \<le> 0 then 10 else r2)"

definition normalizeLimit :: "int \<Rightarrow> int" where
  "normalizeLimit limit = (if limit \<le> 0 then 50 else if limit > 200 then 200 else limit)"

section \<open>Dynamic values\<close>

definition asString :: "json \<Rightarrow> string" where
  "asString v = (case v of JStr s \<Rightarrow> s | _ \<Rightarrow> [])"

definition asBool :: "json \<Rightarrow> bool" where
  "asBool v = (case v of JBool b \<Rightarrow> b | _ \<Rightarrow> False)"

definition asInt :: "json \<Rightarrow> int" where
  "asInt v = (case v of JNum x \<Rightarrow> floatToInt64 x | _ \<Rightarrow> 0)"

definition asInt64 :: "json \<Rightarrow> int" where
  "asInt64 v = (case v of JNum x \<Rightarrow> floatToInt64 x | _ \<Rightarrow> 0)"

definition isInteger :: "json \<Rightarrow> bool" where
  "isInteger v = (case v of JNum x \<Rightarrow> x = of_int (floatToInt64 x) | _ \<Rightarrow> False)"

text \<open>A lookup in a nil map gives nil, so \<open>sys\<close> may be the empty map.\<close>

definition guessArch :: "jobj \<Rightarrow> jobj \<Rightarrow> json" where
  "guessArch sys payload =
     (if jget sys ''arch'' \<noteq> JNull then jget sys ''arch''
      else case jAsObj (jget payload ''cpu'') of Some cpu \<Rightarrow> jget cpu ''arch'' | None \<Rightarrow> JNull)"

fun firstNonNil :: "json list \<Rightarrow> json" where
  "firstNonNil [] = JNull"
| "firstNonNil (v # vs) = (if v \<noteq> JNull then v else firstNonNil vs)"

definition valueOr :: "json \<Rightarrow> json \<Rightarrow> json" where
  "valueOr v fallback = (if v = JNull \<or> v = JStr [] then fallback else v)"

text \<open>\<open>json.Unmarshal\<close> of a result; text that is not JSON is kept as a string.\<close>

fun decodeResult :: "jtext \<Rightarrow> json" where
  "decodeResult (JText v) = v"
| "decodeResult (JRaw s) = JStr s"

text \<open>A value that is neither nil nor an object marshals to text that is no object.\<close>

fun toMap :: "json \<Rightarrow> jobj option" where
  "toMap JNull = Some []"
| "toMap (JObj m) = Some m"
| "toMap _ = None"

definition marshalToolArgs :: "string \<Rightarrow> jobj \<Rightarrow> string \<times> jtext" where
  "marshalToolArgs tool payload = (tool, JText (JObj payload))"

section \<open>Lists\<close>

fun dedupeFrom :: "string list \<Rightarrow> string list \<Rightarrow> string list" where
  "dedupeFrom seen [] = []"
| "dedupeFrom seen (v # vs) =
     (let w = trimSpace v in
      if w = [] then dedupeFrom seen vs
      else if w \<in> set seen then dedupeFrom seen vs
      else w # dedupeFrom (w # seen) vs)"

definition dedupe :: "string list \<Rightarrow> string list" where
  "dedupe vs = dedupeFrom [] vs"

text \<open>The position after the first item whose id is the cursor, or the length.\<close>

fun cursorStart :: "('a \<Rightarrow> string) \<Rightarrow> string \<Rightarrow> 'a list \<Rightarrow> nat" where
  "cursorStart idFn cursor [] = 0"
| "cursorStart idFn cursor (x # xs) =
     (if idFn x = cursor then 1 else Suc (cursorStart idFn cursor xs))"

definition paginate :: "'a list \<Rightarrow> string \<Rightarrow> nat \<Rightarrow> ('a \<Rightarrow> string) \<Rightarrow> 'a listPage" where
  "paginate items cursor limit idFn =
     (let start = (if cursor \<noteq> [] then cursorStart idFn cursor items else 0);
          end = min (start + limit) (length items);
          next = (if end < length items then idFn (items ! (end - 1)) else [])
      in \<lparr>pgItems = take (end - start) (drop start items), pgNextCursor = next\<rparr>)"

text \<open>\<open>sort.Slice\<close> by creation time, newest first.\<close>

definition newestFirst :: "('a \<Rightarrow> int) \<Rightarrow> 'a list \<Rightarrow> 'a list" where
  "newestFirst created xs = sort_key (\<lambda>x. - created x) xs"

section \<open>Nodes\<close>

definition matchesTargetOS :: "string list \<Rightarrow> string \<Rightarrow> bool" where
  "matchesTargetOS targets osName \<longleftrightarrow> targets = [] \<or> osName = [] \<or> osName \<in> set targets"

definition nodeOS :: "agentRecord option \<Rightarrow> string" where
  "nodeOS rec = (case rec of None \<Rightarrow> [] | Some r \<Rightarrow>
     if os r = [] then [] else hd (splitOn (CHR ''/'') (os r)))"

section \<open>Statuses and errors\<close>

definition summarizeInvocationStatus :: "string list \<Rightarrow> goerr option \<Rightarrow> string" where
  "summarizeInvocationStatus sts ctxErr =
     (if (case ctxErr of Some e \<Rightarrow> errIs e CtxCanceled | None \<Rightarrow> False) then statusCanceled
      else
        (let success = length (filter (\<lambda>s. s = statusSucceeded) sts);
             canceled = length (filter (\<lambda>s. s = statusCanceled) sts)
         in if canceled = length sts \<and> length sts > 0 then statusCanceled
            else if success = length sts \<and> length sts > 0 then statusSucceeded
            else if success = 0 then statusFailed
            else statusPartial))"

definition statusFromErrorCode :: "string \<Rightarrow> string" where
  "statusFromErrorCode code = (if code = ''CANCELED'' then statusCanceled else statusFailed)"

definition classifyInvokeError :: "string \<Rightarrow> goerr \<Rightarrow> invocationError" where
  "classifyInvokeError nodeId err =
     (let mk = \<lambda>code msg. \<lparr>ieCode = code, ieMessage = msg, ieDetails = [(''node_id'', JStr nodeId)]\<rparr>;
          msg = errMsg err
      in if errIs err ErrNodeNotFound then mk ''NODE_NOT_FOUND'' ''target node was not found''
         else if errIs err ErrNodeOffline then mk ''NODE_OFFLINE'' ''target node is offline''
         else if errIs err ErrRouterCanceled \<or> errIs err CtxCanceled
           then mk ''CANCELED'' ''invocation was canceled''
         else if errIs err ErrRouterTimeout \<or> errIs err CtxDeadlineExceeded
           then mk ''TIMEOUT'' ''upstream execution timed out''
         else if containsStr msg ''HOST_NOT_FOUND'' \<or> containsStr msg ''agent not found''
           then mk ''NODE_NOT_FOUND'' ''target node was not found''
         else if containsStr (toLower msg) ''denied'' \<or> containsStr msg ''exceeds limit''
           then mk ''POLICY_DENIED'' msg
         else mk ''INTERNAL_ERROR'' msg)"

definition execErrHTTPStatus :: "string \<Rightarrow> nat" where
  "execErrHTTPStatus code =
     (if code = ''NODE_NOT_FOUND'' then StatusNotFound
      else if code = ''NODE_OFFLINE'' then StatusServiceUnavailable
      else if code = ''TIMEOUT'' then StatusGatewayTimeout
      else if code = ''CANCELED'' then StatusConflict
      else if code = ''POLICY_DENIED'' \<or> code = ''FORBIDDEN'' then StatusForbidden
      else StatusInternalServerError)"

section \<open>Lemmas\<close>

lemma cursorStart_le: "cursorStart idFn c xs \<le> length xs"
  by (induction xs) auto

lemma cursorStart_nth:
  assumes "distinct (List.map idFn xs)" and "k < length xs"
  shows "cursorStart idFn (idFn (xs ! k)) xs = Suc k"
  using assms
proof (induction xs arbitrary: k)
  case (Cons x xs)
  then show ?case by (cases k) (auto simp: image_iff dest: nth_mem)
qed simp

lemma cursorStart_unknown: "c \<notin> idFn ` set xs \<Longrightarrow> cursorStart idFn c xs = length xs"
  by (induction xs) auto

text \<open>Following the cursors: the pages a client gets that starts without a cursor.\<close>

fun fetchPages :: "nat \<Rightarrow> string \<Rightarrow> 'a list \<Rightarrow> nat \<Rightarrow> ('a \<Rightarrow> string) \<Rightarrow> 'a listPage list" where
  "fetchPages 0 cursor items limit idFn = []"
| "fetchPages (Suc n) cursor items limit idFn =
     (let p = paginate items cursor limit idFn
      in p # (if pgNextCursor p = [] then [] else fetchPages n (pgNextCursor p) items limit idFn))"

definition pageStart :: "('a \<Rightarrow> string) \<Rightarrow> string \<Rightarrow> 'a list \<Rightarrow> nat" where
  "pageStart idFn cursor items = (if cursor \<noteq> [] then cursorStart idFn cursor items else 0)"

lemma pageStart_le: "pageStart idFn cursor items \<le> length items"
  by (simp add: pageStart_def cursorStart_le)

lemma paginate_items:
  "pgItems (paginate items cursor limit idFn) = take limit (drop (pageStart idFn cursor items) items)"
  using pageStart_le [of idFn cursor items]
  by (cases "pageStart idFn cursor items + limit \<le> length items")
    (simp_all add: paginate_def Let_def flip: pageStart_def)

lemma paginate_next:
  "pgNextCursor (paginate items cursor limit idFn) =
    (let e = min (pageStart idFn cursor items + limit) (length items)
     in if e < length items then idFn (items ! (e - 1)) else [])"
  by (simp add: paginate_def Let_def flip: pageStart_def)

lemma fetchPages_drop:
  assumes "distinct (List.map idFn items)" and "[] \<notin> idFn ` set items" and "0 < limit"
  shows "length items - pageStart idFn cursor items < n \<Longrightarrow>
    concat (List.map pgItems (fetchPages n cursor items limit idFn)) = drop (pageStart idFn cursor items) items"
proof (induction n arbitrary: cursor)
  case (Suc n)
  let ?s = "pageStart idFn cursor items"
  let ?p = "paginate items cursor limit idFn"
  show ?case
  proof (cases "?s + limit < length items")
    case True
    let ?c = "idFn (items ! (?s + limit - 1))"
    have c: "pgNextCursor ?p = ?c" using True by (simp add: paginate_next Let_def)
    have ne: "?c \<noteq> []"
      using True assms(2) by (metis image_eqI nth_mem less_imp_diff_less)
    have st: "pageStart idFn ?c items = ?s + limit"
      using ne assms(3) True cursorStart_nth [OF assms(1), of "?s + limit - 1"]
      by (simp add: pageStart_def)
    have "concat (List.map pgItems (fetchPages n ?c items limit idFn)) = drop (?s + limit) items"
      using Suc.IH [of ?c] Suc.prems st True assms(3) by simp
    moreover have "take limit (drop ?s items) @ drop (?s + limit) items = drop ?s items"
      by (metis add.commute append_take_drop_id drop_drop)
    moreover have "concat (List.map pgItems (fetchPages (Suc n) cursor items limit idFn)) =
        pgItems ?p @ concat (List.map pgItems (fetchPages n ?c items limit idFn))"
      using c ne by (simp only: fetchPages.simps Let_def if_False list.map concat.simps)
    ultimately show ?thesis by (simp only: paginate_items)
  next
    case False
    then have "pgNextCursor ?p = []" by (simp add: paginate_next Let_def)
    with False show ?thesis by (simp add: Let_def paginate_items)
  qed
qed simp

lemma pages_bounded:
  "\<forall>p \<in> set (fetchPages n cursor items limit idFn). length (pgItems p) \<le> limit"
  by (induction n arbitrary: cursor) (auto simp: Let_def paginate_items)

lemma dedupeFrom_spec:
  "distinct (dedupeFrom seen vs) \<and> set (dedupeFrom seen vs) \<inter> set seen = {} \<and>
   set (dedupeFrom seen vs) = trimSpace ` set vs - {[]} - set seen \<and>
   subseq (dedupeFrom seen vs) (List.map trimSpace vs)"
proof (induction seen vs rule: dedupeFrom.induct)
  case (2 seen v vs)
  show ?case
  proof (cases "trimSpace v = [] \<or> trimSpace v \<in> set seen")
    case True
    with 2(1,2) show ?thesis by (auto simp: Let_def)
  next
    case False
    with 2(3) show ?thesis by (auto simp: Let_def)
  qed
qed simp

lemma length_filter_eq_all: "length (filter P xs) = length xs \<longleftrightarrow> (\<forall>x \<in> set xs. P x)"
  by (metis filter_True length_filter_less less_irrefl)

section \<open>Properties\<close>

text \<open>
  Pagination loses and repeats nothing.  A client that starts without a cursor and
  follows \<open>next_cursor\<close> until it is empty gets every item exactly once, in order, in pages of at
  most \<open>limit\<close> items; as many requests as there are items, plus one, are enough.
\<close>

theorem paginate_enumerates:
  assumes "distinct (List.map idFn items)" and "[] \<notin> idFn ` set items" and "0 < limit"
  shows "concat (List.map pgItems (fetchPages (Suc (length items)) [] items limit idFn)) = items \<and>
    (\<forall>p \<in> set (fetchPages (Suc (length items)) [] items limit idFn). length (pgItems p) \<le> limit)"
  using fetchPages_drop [OF assms, of "[]" "Suc (length items)"] pages_bounded
  by (simp add: pageStart_def del: fetchPages.simps)

theorem paginate_enumerates_witness:
  "concat (List.map pgItems (fetchPages 4 [] [''a'', ''b'', ''c''] 2 id)) = [''a'', ''b'', ''c''] \<and>
   List.map pgNextCursor (fetchPages 4 [] [''a'', ''b'', ''c''] 2 id) = [''b'', []]"
proof -
  have "concat (List.map pgItems (fetchPages (Suc (length [''a'', ''b'', ''c''])) [] [''a'', ''b'', ''c''] 2 id))
      = [''a'', ''b'', ''c'']"
    by (rule paginate_enumerates [THEN conjunct1]) simp_all
  moreover have "Suc (length [''a'', ''b'', ''c'']) = 4" by simp
  moreover have "List.map pgNextCursor (fetchPages 4 [] [''a'', ''b'', ''c''] 2 id) = [''b'', []]"
    by (simp add: numeral_eq_Suc paginate_def)
  ultimately show ?thesis by metis
qed

text \<open>
  The effective timeout of an invocation is positive, does not exceed a positive
  maximum as soon as a timeout is requested or configured, and is the requested one exactly when
  that is positive and within the maximum.
\<close>

theorem normalizeTimeout_bounds:
  "normalizeTimeout requested defaultSec maxSec > 0 \<and>
   \<not> (maxSec > 0 \<and> (requested > 0 \<or> defaultSec > 0) \<and>
      normalizeTimeout requested defaultSec maxSec > maxSec) \<and>
   (normalizeTimeout requested defaultSec maxSec = requested) =
     (requested > 0 \<and> (maxSec \<le> 0 \<or> requested \<le> maxSec))"
  by (auto simp: normalizeTimeout_def Let_def)

text \<open>
  The targets of an invocation are the requested node ids, trimmed, without blanks
  and repetitions, in the order of their first occurrence.
\<close>

theorem dedupe_spec:
  "distinct (dedupe vs) \<and> set (dedupe vs) = trimSpace ` set vs - {[]} \<and>
   subseq (dedupe vs) (List.map trimSpace vs)"
  using dedupeFrom_spec [of "[]" vs] by (simp add: dedupe_def)

lemma status_table:
  fixes S C P F r :: string
  assumes "S \<noteq> C" "S \<noteq> P" "S \<noteq> F" "C \<noteq> P" "C \<noteq> F" "P \<noteq> F"
    and r: "r = (if c \<or> X = {C} then C else if X = {S} then S else if S \<notin> X then F else P)"
  shows "(r = S) = (\<not> c \<and> X = {S}) \<and> (r = C) = (c \<or> X = {C}) \<and>
    (r = P) = (\<not> c \<and> S \<in> X \<and> X \<noteq> {S}) \<and> r \<in> {S, C, P, F}"
proof -
  consider (canceled) "c" | (all) "\<not> c" "X = {C}" | (ok) "\<not> c" "X = {S}" | (none) "\<not> c" "X \<noteq> {C}" "S \<notin> X"
    | (some) "\<not> c" "X \<noteq> {C}" "X \<noteq> {S}" "S \<in> X" by blast
  then show ?thesis
  proof cases
    case canceled
    then have "r = C" using r by simp
    with canceled assms(1-6) assms(1-6) [THEN not_sym] show ?thesis by simp
  next
    case all
    then have "r = C" using r by simp
    with all assms(1-6) assms(1-6) [THEN not_sym] show ?thesis by simp
  next
    case ok
    then have "r = S" using r assms(1) by simp
    with ok assms(1-6) assms(1-6) [THEN not_sym] show ?thesis by simp
  next
    case none
    then have "r = F" using r by auto
    with none assms(1-6) assms(1-6) [THEN not_sym] show ?thesis by auto
  next
    case some
    then have "r = P" using r by simp
    with some assms(1-6) assms(1-6) [THEN not_sym] show ?thesis by simp
  qed
qed

text \<open>
  The status of a finished invocation.  It is \<open>succeeded\<close> exactly when the run was
  not cancelled, there was a target and every target succeeded; \<open>canceled\<close> exactly when the run
  was cancelled or every one of its targets was; \<open>partial\<close> exactly when, without cancellation,
  some but not all targets succeeded; and \<open>failed\<close> otherwise.
\<close>

theorem summarize_status_spec:
  "(summarizeInvocationStatus sts e = statusSucceeded) =
     (\<not> (e \<noteq> None \<and> errIs (the e) CtxCanceled) \<and> set sts = {statusSucceeded}) \<and>
   (summarizeInvocationStatus sts e = statusCanceled) =
     (e \<noteq> None \<and> errIs (the e) CtxCanceled \<or> set sts = {statusCanceled}) \<and>
   (summarizeInvocationStatus sts e = statusPartial) =
     (\<not> (e \<noteq> None \<and> errIs (the e) CtxCanceled) \<and>
      statusSucceeded \<in> set sts \<and> set sts \<noteq> {statusSucceeded}) \<and>
   summarizeInvocationStatus sts e \<in> {statusSucceeded, statusCanceled, statusPartial, statusFailed}"
proof -
  let ?c = "e \<noteq> None \<and> errIs (the e) CtxCanceled"
  have all: "(length (filter (\<lambda>s. s = x) sts) = length sts \<and> length sts > 0) \<longleftrightarrow> set sts = {x}" for x
    unfolding length_filter_eq_all by (cases sts) auto
  have none: "(length (filter (\<lambda>s. s = x) sts) = 0) \<longleftrightarrow> x \<notin> set sts" for x
    by (auto simp: filter_empty_conv)
  have eq: "summarizeInvocationStatus sts e =
     (if ?c \<or> set sts = {statusCanceled} then statusCanceled
      else if set sts = {statusSucceeded} then statusSucceeded
      else if statusSucceeded \<notin> set sts then statusFailed else statusPartial)"
    unfolding summarizeInvocationStatus_def Let_def all none by (cases e) auto
  have ne: "statusSucceeded \<noteq> statusCanceled" "statusSucceeded \<noteq> statusPartial"
    "statusSucceeded \<noteq> statusFailed" "statusCanceled \<noteq> statusPartial"
    "statusCanceled \<noteq> statusFailed" "statusPartial \<noteq> statusFailed"
    by (simp_all add: invStatus_defs)
  show ?thesis
    by (rule status_table [OF ne eq])
qed

end
