(* ===== verification/AdminBuiltins.thy ===== *)
theory AdminBuiltins
  imports AdminHelpers
begin

text \<open>
  The built-in actions of \<open>admin/service.go\<close>: their risk, the tool call that each is sent as and
  the shape given to the answer; and the rule which token may run which risk.
\<close>

record builtinSpec =
  bsRiskLevel :: string
  bsMarshal :: "jobj \<Rightarrow> string \<times> jtext"
  bsTransform :: "json \<Rightarrow> invocationError + json"

text \<open>\<open>if !ok { return data, nil }\<close>, and otherwise an object made of the answer's.\<close>

definition onObject :: "(jobj \<Rightarrow> jobj) \<Rightarrow> json \<Rightarrow> invocationError + json" where
  "onObject f data = (case jAsObj data of None \<Rightarrow> Inr data | Some obj \<Rightarrow> Inr (JObj (f obj)))"

definition jInt :: "int \<Rightarrow> json" where
  "jInt n = JNum (of_int n)"

definition builtinSpecFor :: "string \<Rightarrow> svcError + builtinSpec" where
  "builtinSpecFor action =
     (let a = normalizeAction action in
      if a = ''fs.list'' then Inr \<lparr>bsRiskLevel = riskReadonly,
        bsMarshal = (\<lambda>params. marshalToolArgs ''list_directory''
          [(''path'', JStr (asString (jget params ''path''))),
           (''show_hidden'', JBool (asBool (jget params ''show_hidden''))),
           (''limit'', jInt (asInt (jget params ''limit'')))]),
        bsTransform = onObject (\<lambda>obj. [(''entries'', jget obj ''items'')])\<rparr>
      else if a = ''fs.read'' then Inr \<lparr>bsRiskLevel = riskReadonly,
        bsMarshal = (\<lambda>params. marshalToolArgs ''read_file''
          [(''path'', JStr (asString (jget params ''path''))),
           (''offset'', jInt (asInt64 (jget params ''offset''))),
           (''length'', jInt (asInt64 (jget params ''length'')))]),
        bsTransform = onObject (\<lambda>obj.
          [(''content'', jget obj ''content''),
           (''encoding'', valueOr (jget obj ''encoding'') (JStr ''utf-8'')),
           (''truncated'', jget obj ''truncated'')])\<rparr>
      else if a = ''fs.stat'' then Inr \<lparr>bsRiskLevel = riskReadonly,
        bsMarshal = (\<lambda>params. marshalToolArgs ''stat_file''
          [(''path'', JStr (asString (jget params ''path'')))]),
        bsTransform = onObject (\<lambda>obj.
          [(''name'', jget obj ''name''), (''type'', jget obj ''type''), (''size'', jget obj ''size''),
           (''mode'', firstNonNil [jget obj ''mode'', jget obj ''permissions'']),
           (''modified_at'', jget obj ''modified_at'')])\<rparr>
      else if a = ''fs.write'' then Inr \<lparr>bsRiskLevel = riskMutating,
        bsMarshal = (\<lambda>params. marshalToolArgs ''write_file''
          [(''path'', JStr (asString (jget params ''path''))),
           (''content'', JStr (asString (jget params ''content''))),
           (''overwrite'', JBool (asBool (jget params ''overwrite'')))]),
        bsTransform = Inr\<rparr>
      else if a = ''sys.hardware'' then Inr \<lparr>bsRiskLevel = riskReadonly,
        bsMarshal = (\<lambda>_. (''get_hardware_info'', JText (JObj []))),
        bsTransform = Inr\<rparr>
      else if a = ''sys.info'' then Inr \<lparr>bsRiskLevel = riskReadonly,
        bsMarshal = (\<lambda>_. (''get_hardware_info'', JText (JObj []))),
        bsTransform = onObject (\<lambda>obj.
          let sys = (case jAsObj (jget obj ''system'') of Some m \<Rightarrow> m | None \<Rightarrow> []) in
          [(''hostname'', jget sys ''hostname''), (''os'', jget sys ''os''),
           (''arch'', guessArch sys obj), (''kernel'', jget sys ''kernel_version''),
           (''uptime_sec'', jget sys ''uptime_seconds'')])\<rparr>
      else if a = ''config.get'' then Inr \<lparr>bsRiskLevel = riskReadonly,
        bsMarshal = (\<lambda>_. (''get_agent_config'', JText (JObj []))),
        bsTransform = Inr\<rparr>
      else if a = ''config.set'' then Inr \<lparr>bsRiskLevel = riskMutating,
        bsMarshal = (\<lambda>params. (''set_agent_config'', JText (JObj params))),
        bsTransform = Inr\<rparr>
      else Inl (svcErr StatusBadRequest ''INVALID_ARGUMENT'' (''unsupported action '' @ quoteStr action)))"

definition allowRisk :: "domain \<Rightarrow> string \<Rightarrow> svcError option" where
  "allowRisk d risk =
     (if d = DomainAdmin then None
      else if risk \<noteq> riskReadonly
        then Some (svcErr StatusForbidden ''FORBIDDEN'' ''admin token is required for high-risk actions'')
      else None)"

lemma allowRisk_None: "allowRisk d risk = None \<longleftrightarrow> d = DomainAdmin \<or> risk = riskReadonly"
  by (simp add: allowRisk_def)

text \<open>The tools that only read, with the sensitive ones left out.\<close>

definition readonlyTools :: "string list" where
  "readonlyTools = [''list_directory'', ''read_file'', ''stat_file'', ''get_hardware_info'', ''get_agent_config'']"

lemma builtin_readonly_tool:
  assumes "builtinSpecFor action = Inr spec" and "bsRiskLevel spec = riskReadonly"
  shows "fst (bsMarshal spec params) \<in> set readonlyTools"
  using assms
  by (auto simp: builtinSpecFor_def Let_def marshalToolArgs_def readonlyTools_def risk_defs
      split: if_splits)

lemma builtin_transform_ok:
  "builtinSpecFor action = Inr spec \<Longrightarrow> \<exists>v. bsTransform spec data = Inr v"
  by (auto simp: builtinSpecFor_def Let_def onObject_def split: if_splits option.splits)

end
