(* ===== verification/AdminTemplates.thy ===== *)
theory AdminTemplates
  imports AdminBuiltins
begin

text \<open>
  Command templates of \<open>admin/service.go\<close>: the checks of a template's parameter schema and of the
  parameters of a call, and the operations that create, read, change and list templates, with
  the audit events they record.
\<close>

section \<open>Schemas and parameters\<close>

definition validateRisk :: "string \<Rightarrow> svcError option" where
  "validateRisk risk =
     (if risk \<in> {riskReadonly, riskMutating, riskDangerous} then None
      else Some (svcErr StatusBadRequest ''INVALID_ARGUMENT''
             ''risk_level must be readonly, mutating, or dangerous''))"

definition schemaProps :: "jobj \<Rightarrow> jobj" where
  "schemaProps schema = (case jAsObj (jget schema ''properties'') of Some m \<Rightarrow> m | None \<Rightarrow> [])"

definition schemaTypes :: "json list" where
  "schemaTypes = [JStr ''string'', JStr ''boolean'', JStr ''integer'', JStr ''number'']"

text \<open>The loop over \<open>properties\<close>.\<close>

fun validateProps :: "jobj \<Rightarrow> svcError option" where
  "validateProps [] = None"
| "validateProps ((name, raw) # ps) =
     (case jAsObj raw of
        None \<Rightarrow> Some (svcErr StatusBadRequest ''INVALID_ARGUMENT''
                  (''params_schema.properties.'' @ name @ '' must be an object''))
      | Some prop \<Rightarrow>
          if jget prop ''type'' \<in> set schemaTypes then validateProps ps
          else Some (svcErr StatusBadRequest ''INVALID_ARGUMENT''
                 (''unsupported schema type for '' @ name)))"

definition validateSchema :: "jobj \<Rightarrow> svcError option" where
  "validateSchema schema =
     (if schema = [] then Some (svcErr StatusBadRequest ''INVALID_ARGUMENT'' ''params_schema is required'')
      else if jget schema ''type'' \<noteq> JStr ''object''
        then Some (svcErr StatusBadRequest ''INVALID_ARGUMENT'' ''params_schema.type must be object'')
      else validateProps (schemaProps schema))"

definition requiredNames :: "jobj \<Rightarrow> string list" where
  "requiredNames schema =
     (case jget schema ''required'' of
        JArr vs \<Rightarrow> remdups (List.map_filter (\<lambda>v. case v of JStr s \<Rightarrow> Some s | _ \<Rightarrow> None) vs)
      | _ \<Rightarrow> [])"

definition additionalAllowed :: "jobj \<Rightarrow> bool" where
  "additionalAllowed schema =
     (case jget schema ''additionalProperties'' of JBool b \<Rightarrow> b | _ \<Rightarrow> True)"

text \<open>The outcome of the check; the type assertion on a property panics when it is no object.\<close>

datatype paramCheck = ParamsOk | ParamsBad svcError | ParamsPanic

definition badParam :: "string \<Rightarrow> string \<Rightarrow> paramCheck" where
  "badParam key what = ParamsBad (svcErr StatusUnprocessableEntity ''INVALID_ARGUMENT''
     (''param '' @ quoteStr key @ what))"

definition checkParam :: "json \<Rightarrow> string \<Rightarrow> json \<Rightarrow> paramCheck" where
  "checkParam type key val =
     (if type = JStr ''string'' then (case val of JStr _ \<Rightarrow> ParamsOk | _ \<Rightarrow> badParam key '' must be a string'')
      else if type = JStr ''boolean'' then (case val of JBool _ \<Rightarrow> ParamsOk | _ \<Rightarrow> badParam key '' must be a boolean'')
      else if type = JStr ''integer'' then (if isInteger val then ParamsOk else badParam key '' must be an integer'')
      else if type = JStr ''number'' then
        (case val of JNum _ \<Rightarrow> ParamsOk
         | _ \<Rightarrow> if isInteger val then ParamsOk else badParam key '' must be a number'')
      else ParamsOk)"

fun checkParams :: "jobj \<Rightarrow> bool \<Rightarrow> jobj \<Rightarrow> paramCheck" where
  "checkParams props additional [] = ParamsOk"
| "checkParams props additional ((key, val) # ps) =
     (case map_of props key of
        None \<Rightarrow>
          if additional then checkParams props additional ps
          else ParamsBad (svcErr StatusUnprocessableEntity ''INVALID_ARGUMENT''
                 (''unexpected param '' @ quoteStr key))
      | Some propRaw \<Rightarrow>
          (case jAsObj propRaw of
             None \<Rightarrow> ParamsPanic
           | Some prop \<Rightarrow>
               (case checkParam (jget prop ''type'') key val of
                  ParamsOk \<Rightarrow> checkParams props additional ps
                | bad \<Rightarrow> bad)))"

definition validateParams :: "jobj \<Rightarrow> jobj \<Rightarrow> paramCheck" where
  "validateParams schema params =
     (case validateSchema schema of
        Some e \<Rightarrow> ParamsBad e
      | None \<Rightarrow>
          (case List.find (\<lambda>name. map_of params name = None) (requiredNames schema) of
             Some name \<Rightarrow> ParamsBad (svcErr StatusUnprocessableEntity ''INVALID_ARGUMENT''
                            (''missing required param '' @ quoteStr name))
           | None \<Rightarrow> checkParams (schemaProps schema) (additionalAllowed schema) params))"

section \<open>Operations on templates\<close>

definition timeoutsOk :: "int \<Rightarrow> int \<Rightarrow> bool" where
  "timeoutsOk d m \<longleftrightarrow> \<not> (d \<le> 0 \<or> m \<le> 0 \<or> d > m)"

definition timeoutError :: svcError where
  "timeoutError = svcErr StatusUnprocessableEntity ''INVALID_ARGUMENT''
     ''default_timeout_sec must be > 0 and <= max_timeout_sec''"

definition buildTemplate ::
  "string \<Rightarrow> int \<Rightarrow> requestMeta \<Rightarrow> createTemplateRequest \<Rightarrow> svcError + commandTemplate" where
  "buildTemplate newId now meta req =
     (if trimSpace (crName req) = []
        then Inl (svcErr StatusBadRequest ''INVALID_ARGUMENT'' ''name is required'')
      else (case validateRisk (crRiskLevel req) of
        Some e \<Rightarrow> Inl e
      | None \<Rightarrow>
      if teType (crExecutor req) \<noteq> ''process''
        then Inl (svcErr StatusBadRequest ''INVALID_ARGUMENT'' ''executor.type must be process'')
      else if \<not> isAbs (teCommand (crExecutor req))
        then Inl (svcErr StatusBadRequest ''INVALID_ARGUMENT'' ''executor.command must be an absolute path'')
      else (case validateSchema (crParamsSchema req) of
        Some e \<Rightarrow> Inl e
      | None \<Rightarrow>
      if \<not> timeoutsOk (crDefaultTimeoutSec req) (crMaxTimeoutSec req) then Inl timeoutError
      else Inr \<lparr>ctId = newId, ctName = crName req, ctDescription = crDescription req,
             ctRiskLevel = crRiskLevel req, ctTargetOS = crTargetOS req, ctExecutor = crExecutor req,
             ctParamsSchema = crParamsSchema req, ctDefaultTimeoutSec = crDefaultTimeoutSec req,
             ctMaxTimeoutSec = crMaxTimeoutSec req,
             ctMaxOutputBytes =
               (if crMaxOutputBytes req \<le> 0 then 256 * 1024 else crMaxOutputBytes req),
             ctEnabled = True, ctCreatedBy = subjectID (rmIdentity meta),
             ctCreatedAt = now, ctUpdatedAt = now\<rparr>)))"

text \<open>The audit event of a change to a template.\<close>

definition templateAudit ::
  "string \<Rightarrow> int \<Rightarrow> requestMeta \<Rightarrow> commandTemplate \<Rightarrow> string \<Rightarrow> auditEvent" where
  "templateAudit evtId now meta tpl decision =
     \<lparr>auId = evtId, auRequestId = rmRequestId meta, auInvocationId = [],
      auSubjectId = subjectID (rmIdentity meta), auTokenType = idDomain (rmIdentity meta),
      auSource = rmSource meta, auAction = ctName tpl, auActionType = actionTypeCommandTemplate,
      auTargetNodeIds = [], auRiskLevel = ctRiskLevel tpl, auDecision = decision,
      auDecisionReason = [], auCreatedAt = now, auFinishedAt = None\<rparr>"

definition adminRequired :: svcError where
  "adminRequired = svcErr StatusForbidden ''FORBIDDEN'' ''admin token is required''"

definition templateNotFound :: svcError where
  "templateNotFound = svcErr StatusNotFound ''COMMAND_TEMPLATE_NOT_FOUND'' ''command template not found''"

text \<open>The identifiers and times that one call of the service draws.\<close>

record freshIds =
  fiRequest :: string
  fiObject :: string
  fiEvent :: string
  fiNow :: int

definition createTemplate ::
  "freshIds \<Rightarrow> requestMeta \<Rightarrow> createTemplateRequest \<Rightarrow> service \<Rightarrow> (svcError + commandTemplate) \<times> service" where
  "createTemplate f meta0 req s =
     (let meta = normalizeMeta (fiRequest f) meta0 in
      if idDomain (rmIdentity meta) \<noteq> DomainAdmin then (Inl adminRequired, s)
      else (case buildTemplate (fiObject f) (fiNow f) meta req of
        Inl e \<Rightarrow> (Inl e, s)
      | Inr tpl \<Rightarrow>
          if map_of (templateNameIDs s) (ctName tpl) \<noteq> None
          then (Inl (svcErr StatusConflict ''CONFLICT'' ''template name already exists''), s)
          else (Inr tpl,
            s\<lparr>templates := AList.update (ctId tpl) tpl (templates s),
              templateNameIDs := AList.update (ctName tpl) (ctId tpl) (templateNameIDs s),
              audits := AList.update (fiEvent f)
                (templateAudit (fiEvent f) (fiNow f) meta tpl ''created'') (audits s)\<rparr>)))"

definition getTemplate :: "string \<Rightarrow> service \<Rightarrow> svcError + commandTemplate" where
  "getTemplate i s =
     (case map_of (templates s) i of None \<Rightarrow> Inl templateNotFound | Some tpl \<Rightarrow> Inr tpl)"

text \<open>
  The assignments of \<open>UpdateTemplate\<close>, in the order of the code, on the stored template: the
  result is the template as it is left in the map, and the error that stopped the function.
\<close>

definition orElse :: "'a option \<Rightarrow> 'a \<Rightarrow> 'a" where
  "orElse v0 x = (case v0 of None \<Rightarrow> x | Some v \<Rightarrow> v)"

definition applyPatch :: "updateTemplateRequest \<Rightarrow> commandTemplate \<Rightarrow> commandTemplate \<times> svcError option" where
  "applyPatch patch t0 =
     (let t1 = t0\<lparr>ctDescription := orElse (upDescription patch) (ctDescription t0)\<rparr> in
      case (case upRiskLevel patch of None \<Rightarrow> None | Some r \<Rightarrow> validateRisk r) of
        Some e \<Rightarrow> (t1, Some e)
      | None \<Rightarrow>
      let t2 = t1\<lparr>ctRiskLevel := orElse (upRiskLevel patch) (ctRiskLevel t1),
                  ctTargetOS := orElse (upTargetOS patch) (ctTargetOS t1)\<rparr> in
      case (case upParamsSchema patch of None \<Rightarrow> None | Some sch \<Rightarrow> validateSchema sch) of
        Some e \<Rightarrow> (t2, Some e)
      | None \<Rightarrow>
      let t3 = t2\<lparr>ctParamsSchema := orElse (upParamsSchema patch) (ctParamsSchema t2),
                  ctDefaultTimeoutSec := orElse (upDefaultTimeoutSec patch) (ctDefaultTimeoutSec t2),
                  ctMaxTimeoutSec := orElse (upMaxTimeoutSec patch) (ctMaxTimeoutSec t2),
                  ctMaxOutputBytes := orElse (upMaxOutputBytes patch) (ctMaxOutputBytes t2),
                  ctEnabled := orElse (upEnabled patch) (ctEnabled t2)\<rparr> in
      if \<not> timeoutsOk (ctDefaultTimeoutSec t3) (ctMaxTimeoutSec t3) then (t3, Some timeoutError)
      else (t3, None))"

definition updateTemplate ::
  "freshIds \<Rightarrow> requestMeta \<Rightarrow> string \<Rightarrow> updateTemplateRequest \<Rightarrow> service \<Rightarrow>
   (svcError + commandTemplate) \<times> service" where
  "updateTemplate f meta0 i patch s =
     (let meta = normalizeMeta (fiRequest f) meta0 in
      if idDomain (rmIdentity meta) \<noteq> DomainAdmin then (Inl adminRequired, s)
      else (case map_of (templates s) i of
        None \<Rightarrow> (Inl templateNotFound, s)
      | Some tpl \<Rightarrow>
          (case applyPatch patch tpl of
             (tpl', Some e) \<Rightarrow> (Inl e, s\<lparr>templates := AList.update i tpl' (templates s)\<rparr>)
           | (tpl', None) \<Rightarrow>
               (let t = tpl'\<lparr>ctUpdatedAt := fiNow f\<rparr>
                in (Inr t, s\<lparr>templates := AList.update i t (templates s),
                     audits := AList.update (fiEvent f)
                       (templateAudit (fiEvent f) (fiNow f) meta t ''updated'') (audits s)\<rparr>)))))"

definition listTemplates :: "templateListFilter \<Rightarrow> service \<Rightarrow> commandTemplate listPage" where
  "listTemplates fl s =
     (let items = filter (\<lambda>t.
            \<not> (tfName fl \<noteq> [] \<and> \<not> containsStr (ctName t) (tfName fl)) \<and>
            \<not> (tfEnabled fl \<noteq> None \<and> Some (ctEnabled t) \<noteq> tfEnabled fl) \<and>
            \<not> (tfRiskLevel fl \<noteq> [] \<and> ctRiskLevel t \<noteq> tfRiskLevel fl) \<and>
            \<not> (tfTargetOS fl \<noteq> [] \<and> tfTargetOS fl \<notin> set (ctTargetOS t)))
          (List.map snd (templates s))
      in paginate (newestFirst ctCreatedAt items) (tfCursor fl) (nat (normalizeLimit (tfLimit fl))) ctId)"

definition resolveTemplate :: "string \<Rightarrow> service \<Rightarrow> svcError + commandTemplate" where
  "resolveTemplate idOrName s =
     (case map_of (templates s) idOrName of
        Some tpl \<Rightarrow> Inr tpl
      | None \<Rightarrow>
          (case map_of (templateNameIDs s) idOrName of
             None \<Rightarrow> Inl templateNotFound
           | Some i \<Rightarrow>
               (case map_of (templates s) i of
                  None \<Rightarrow> Inl templateNotFound
                | Some tpl \<Rightarrow> Inr tpl)))"

section \<open>Lemmas\<close>

lemma isInteger_iff: "isInteger v \<longleftrightarrow> (\<exists>n. v = JNum (of_int n) \<and> isInt64 n)"
proof
  assume "isInteger v"
  then obtain x where "v = JNum x" "x = of_int (floatToInt64 x)"
    by (cases v) (simp_all add: isInteger_def)
  then show "\<exists>n. v = JNum (of_int n) \<and> isInt64 n" using floatToInt64_range by metis
qed (auto simp: isInteger_def floatToInt64_of_int)

text \<open>What the schema's type words mean for decoded values.\<close>

definition hasType :: "json \<Rightarrow> json \<Rightarrow> bool" where
  "hasType type v \<longleftrightarrow>
     (type = JStr ''string'' \<and> (\<exists>s. v = JStr s)) \<or>
     (type = JStr ''boolean'' \<and> (\<exists>b. v = JBool b)) \<or>
     (type = JStr ''integer'' \<and> (\<exists>n. v = JNum (of_int n) \<and> isInt64 n)) \<or>
     (type = JStr ''number'' \<and> (\<exists>x. v = JNum x))"

lemma checkParam_ok:
  assumes "type \<in> set schemaTypes"
  shows "checkParam type key val = ParamsOk \<longleftrightarrow> hasType type val"
  using assms
  by (cases val) (auto simp: checkParam_def hasType_def badParam_def schemaTypes_def isInteger_iff)

lemma checkParam_no_panic [simp]: "checkParam type key val \<noteq> ParamsPanic"
  by (simp add: checkParam_def badParam_def split: json.split)

lemma validateProps_ok:
  "validateProps ps = None \<longleftrightarrow>
   (\<forall>(name, raw) \<in> set ps. \<exists>prop. raw = JObj prop \<and> jget prop ''type'' \<in> set schemaTypes)"
proof (induction ps rule: validateProps.induct)
  case (2 name raw ps)
  then show ?case by (cases raw) auto
qed simp

lemma validateProps_lookup:
  assumes "validateProps ps = None" and "map_of ps k = Some raw"
  shows "\<exists>prop. raw = JObj prop \<and> jget prop ''type'' \<in> set schemaTypes"
  using assms map_of_SomeD [OF assms(2)] unfolding validateProps_ok by blast

lemma validateSchema_props: "validateSchema schema = None \<Longrightarrow> validateProps (schemaProps schema) = None"
  by (simp add: validateSchema_def split: if_splits)

text \<open>A parameter conforms to the schema.\<close>

definition paramConforms :: "jobj \<Rightarrow> string \<Rightarrow> json \<Rightarrow> bool" where
  "paramConforms schema key val =
     (case map_of (schemaProps schema) key of
        None \<Rightarrow> additionalAllowed schema
      | Some raw \<Rightarrow> (case jAsObj raw of None \<Rightarrow> False | Some prop \<Rightarrow> hasType (jget prop ''type'') val))"

lemma checkParams_spec:
  assumes "validateProps (schemaProps schema) = None"
  shows "checkParams (schemaProps schema) (additionalAllowed schema) ps \<noteq> ParamsPanic \<and>
    (checkParams (schemaProps schema) (additionalAllowed schema) ps = ParamsOk) =
      (\<forall>(k, v) \<in> set ps. paramConforms schema k v)"
proof (induction ps)
  case (Cons p ps)
  obtain k v where p: "p = (k, v)" by fastforce
  show ?case
  proof (cases "map_of (schemaProps schema) k")
    case None
    with Cons show ?thesis by (cases "additionalAllowed schema") (simp_all add: p paramConforms_def)
  next
    case (Some raw)
    from validateProps_lookup [OF assms Some] obtain q
      where r: "raw = JObj q" "jget q ''type'' \<in> set schemaTypes" by blast
    have "checkParam (jget q ''type'') k v = ParamsOk \<longleftrightarrow> paramConforms schema k v"
      using r Some by (simp add: checkParam_ok paramConforms_def)
    with Cons Some r show ?thesis
      using checkParam_no_panic [of "jget q ''type''" k v]
      by (cases "checkParam (jget q ''type'') k v") (simp_all add: p)
  qed
qed simp

section \<open>The state of the templates\<close>

definition templateOk :: "commandTemplate \<Rightarrow> bool" where
  "templateOk t \<longleftrightarrow> trimSpace (ctName t) \<noteq> [] \<and> validateRisk (ctRiskLevel t) = None \<and>
     teType (ctExecutor t) = ''process'' \<and> isAbs (teCommand (ctExecutor t)) \<and>
     validateSchema (ctParamsSchema t) = None \<and>
     timeoutsOk (ctDefaultTimeoutSec t) (ctMaxTimeoutSec t)"

text \<open>Templates are keyed by their id, and the name index is exactly the inverse of the names.\<close>

definition templatesInv :: "service \<Rightarrow> bool" where
  "templatesInv s \<longleftrightarrow>
     (\<forall>i t. map_of (templates s) i = Some t \<longrightarrow> ctId t = i \<and> map_of (templateNameIDs s) (ctName t) = Some i) \<and>
     (\<forall>n i. map_of (templateNameIDs s) n = Some i \<longrightarrow>
        (\<exists>t. map_of (templates s) i = Some t \<and> ctName t = n))"

lemma templatesInv_new: "templatesInv newService"
  by (simp add: templatesInv_def newService_def)

lemma buildTemplate_ok:
  assumes "buildTemplate i now meta req = Inr t"
  shows "templateOk t \<and> ctId t = i \<and> ctName t = crName req \<and> ctRiskLevel t = crRiskLevel req \<and>
    ctMaxOutputBytes t > 0 \<and> ctEnabled t"
  using assms
  by (auto simp: buildTemplate_def templateOk_def split: if_splits option.splits)

lemma createTemplate_cases:
  obtains (error) e where "createTemplate f meta req s = (Inl e, s)"
  | (ok) tpl m where "idDomain (rmIdentity meta) = DomainAdmin" and "templateOk tpl"
      and "ctId tpl = fiObject f" and "ctName tpl = crName req"
      and "map_of (templateNameIDs s) (ctName tpl) = None"
      and "createTemplate f meta req s = (Inr tpl,
        s\<lparr>templates := AList.update (ctId tpl) tpl (templates s),
          templateNameIDs := AList.update (ctName tpl) (ctId tpl) (templateNameIDs s),
          audits := AList.update (fiEvent f) (templateAudit (fiEvent f) (fiNow f) m tpl ''created'') (audits s)\<rparr>)"
proof -
  let ?m = "normalizeMeta (fiRequest f) meta"
  have id: "rmIdentity ?m = rmIdentity meta" by (simp add: normalizeMeta_def Let_def)
  show thesis
  proof (cases "buildTemplate (fiObject f) (fiNow f) ?m req")
    case (Inl e)
    then show thesis by (cases "idDomain (rmIdentity meta) = DomainAdmin")
        (auto intro!: error simp: createTemplate_def Let_def id)
  next
    case (Inr tpl)
    show thesis
    proof (cases "idDomain (rmIdentity meta) = DomainAdmin \<and> map_of (templateNameIDs s) (ctName tpl) = None")
      case True
      with Inr buildTemplate_ok [OF Inr] show thesis
        by (intro ok [of tpl ?m]) (simp_all add: createTemplate_def Let_def id)
    next
      case False
      with Inr show thesis
        by (cases "idDomain (rmIdentity meta) = DomainAdmin")
          (auto intro!: error simp: createTemplate_def Let_def id)
    qed
  qed
qed

lemma templatesInv_create:
  assumes inv: "templatesInv s" and fresh: "map_of (templates s) (fiObject f) = None"
  shows "templatesInv (snd (createTemplate f meta req s))"
proof (cases rule: createTemplate_cases [of f meta req s])
  case (error e)
  with inv show ?thesis by simp
next
  case (ok tpl m)
  have "ctName t \<noteq> ctName tpl" if "map_of (templates s) i = Some t" for i t
    using inv that ok(5) unfolding templatesInv_def by force
  moreover have "i \<noteq> ctId tpl" if "map_of (templateNameIDs s) n = Some i" for n i
    using inv that fresh ok(3) unfolding templatesInv_def by force
  ultimately show ?thesis
    using inv unfolding ok(6) snd_conv templatesInv_def by auto
qed

lemma applyPatch_keeps:
  "ctId (fst (applyPatch p t)) = ctId t \<and> ctName (fst (applyPatch p t)) = ctName t \<and>
   ctExecutor (fst (applyPatch p t)) = ctExecutor t"
  by (simp add: applyPatch_def Let_def split: option.split)

lemma applyPatch_ok:
  assumes "templateOk t" and "snd (applyPatch p t) = None"
  shows "templateOk (fst (applyPatch p t))"
  using assms by (auto simp: applyPatch_def Let_def templateOk_def orElse_def split: option.splits if_splits)

lemma updateTemplate_templates:
  "templates (snd (updateTemplate f meta i p s)) = templates s \<or>
   (\<exists>t t'. map_of (templates s) i = Some t \<and> ctId t' = ctId t \<and> ctName t' = ctName t \<and>
      templates (snd (updateTemplate f meta i p s)) = AList.update i t' (templates s))"
proof (cases "map_of (templates s) i")
  case (Some t)
  obtain t' err where a: "applyPatch p t = (t', err)" by fastforce
  with applyPatch_keeps [of p t] have k: "ctId t' = ctId t" "ctName t' = ctName t" by simp_all
  have "templates (snd (updateTemplate f meta i p s)) = templates s \<or>
      templates (snd (updateTemplate f meta i p s)) = AList.update i t' (templates s) \<or>
      templates (snd (updateTemplate f meta i p s)) = AList.update i (t'\<lparr>ctUpdatedAt := fiNow f\<rparr>) (templates s)"
    using Some a by (simp add: updateTemplate_def Let_def split: option.split)
  with Some k show ?thesis by force
qed (simp add: updateTemplate_def Let_def)

lemma updateTemplate_names [simp]:
  "templateNameIDs (snd (updateTemplate f meta i p s)) = templateNameIDs s"
  by (simp add: updateTemplate_def Let_def case_prod_beta split: option.split)

lemma templatesInv_update:
  assumes inv: "templatesInv s"
  shows "templatesInv (snd (updateTemplate f meta i p s))"
  using updateTemplate_templates [of f meta i p s]
proof
  assume "templates (snd (updateTemplate f meta i p s)) = templates s"
  with inv show ?thesis by (simp add: templatesInv_def)
next
  assume "\<exists>t t'. map_of (templates s) i = Some t \<and> ctId t' = ctId t \<and> ctName t' = ctName t \<and>
      templates (snd (updateTemplate f meta i p s)) = AList.update i t' (templates s)"
  then obtain t t' where t: "map_of (templates s) i = Some t" "ctId t' = ctId t" "ctName t' = ctName t"
    and u: "templates (snd (updateTemplate f meta i p s)) = AList.update i t' (templates s)" by blast
  from inv t have "ctId t' = i" "map_of (templateNameIDs s) (ctName t') = Some i"
    unfolding templatesInv_def by force+
  with inv t show ?thesis
    unfolding templatesInv_def u updateTemplate_names
    by (auto simp: update_conv') (metis option.inject)
qed

section \<open>Properties\<close>

text \<open>
  Property C26: the check of a call's parameters never panics, and accepts exactly when the schema is
  a valid one, every required parameter is present and every given parameter conforms: it has the
  type that the schema declares for it, or it is undeclared and undeclared ones are allowed.  The
  order in which the maps are visited does not matter for acceptance.
\<close>

theorem validateParams_spec:
  "validateParams schema params \<noteq> ParamsPanic \<and>
   (validateParams schema params = ParamsOk) =
     (validateSchema schema = None \<and>
      (\<forall>n \<in> set (requiredNames schema). map_of params n \<noteq> None) \<and>
      (\<forall>(k, v) \<in> set params. paramConforms schema k v))"
proof (cases "validateSchema schema")
  case None
  note spec = checkParams_spec [OF validateSchema_props [OF None], of params]
  show ?thesis
  proof (cases "List.find (\<lambda>name. map_of params name = None) (requiredNames schema)")
    case None2: None
    then have "\<forall>n \<in> set (requiredNames schema). map_of params n \<noteq> None"
      by (auto simp: find_None_iff)
    with None None2 spec show ?thesis by (simp add: validateParams_def)
  next
    case (Some n)
    then have "n \<in> set (requiredNames schema) \<and> map_of params n = None"
      by (auto simp: find_Some_iff)
    with None Some show ?thesis by (auto simp: validateParams_def)
  qed
qed (simp add: validateParams_def)

definition exSchema :: jobj where
  "exSchema = [(''type'', JStr ''object''), (''additionalProperties'', JBool False),
     (''properties'', JObj [(''n'', JObj [(''type'', JStr ''integer'')])]),
     (''required'', JArr [JStr ''n''])]"

theorem validateParams_spec_witness:
  "validateParams exSchema [(''n'', JNum (of_int 3))] = ParamsOk \<and>
   validateParams exSchema [] \<noteq> ParamsOk \<and> validateParams exSchema [(''n'', JNull)] \<noteq> ParamsOk"
proof -
  have s: "validateSchema exSchema = None" "requiredNames exSchema = [''n'']"
    by (simp_all add: exSchema_def validateSchema_def schemaProps_def schemaTypes_def requiredNames_def
        List.map_filter_def)
  have c: "paramConforms exSchema ''n'' v \<longleftrightarrow> (\<exists>n. v = JNum (of_int n) \<and> isInt64 n)" for v
    by (simp add: exSchema_def paramConforms_def schemaProps_def hasType_def)
  have i: "isInt64 3" by (simp add: isInt64_def)
  show ?thesis
    unfolding validateParams_spec [THEN conjunct2]
    using s i c [of "JNum (of_int 3)"] c [of JNull] by auto
qed

text \<open>
  Only an admin can create a template, and a template that is created is well formed
  and can be found by its id and by its name, unless its name happens to be the id of another
  template; a creation that is refused changes nothing, and one that succeeds changes no other
  template.
\<close>

theorem createTemplate_spec:
  assumes inv: "templatesInv s" and fresh: "map_of (templates s) (fiObject f) = None"
    and run: "createTemplate f meta req s = (r, s')"
  shows "(case r of
      Inl _ \<Rightarrow> s' = s
    | Inr t \<Rightarrow> idDomain (rmIdentity meta) = DomainAdmin \<and> templateOk t \<and> ctEnabled t = True \<and>
        getTemplate (fiObject f) s' = Inr t \<and>
        map_of (templateNameIDs s) (crName req) = None \<and>
        resolveTemplate (crName req) s' =
          (case map_of (templates s) (crName req) of Some other \<Rightarrow> Inr other | None \<Rightarrow> Inr t) \<and>
        map_of (templates s') = (map_of (templates s))(fiObject f \<mapsto> t)) \<and>
    templatesInv s'"
proof (cases rule: createTemplate_cases [of f meta req s])
  case (error e)
  with run have "r = Inl e" "s' = s" by simp_all
  with inv show ?thesis by simp
next
  case (ok tpl m)
  have inv': "templatesInv s'" using templatesInv_create [OF inv fresh, of meta req] run by simp
  have r: "r = Inr tpl" using ok(6) run by simp
  have t: "map_of (templates s') = (map_of (templates s))(fiObject f \<mapsto> tpl)"
    "map_of (templateNameIDs s') = (map_of (templateNameIDs s))(crName req \<mapsto> fiObject f)"
    using ok(3,4,6) run by (auto simp: update_conv')
  have "ctEnabled tpl" using ok(6) by (auto simp: createTemplate_def Let_def
        dest!: buildTemplate_ok split: if_splits sum.splits)
  moreover have "resolveTemplate (crName req) s' =
      (case map_of (templates s) (crName req) of Some other \<Rightarrow> Inr other | None \<Rightarrow> Inr tpl)"
    by (cases "crName req = fiObject f") (simp_all add: resolveTemplate_def t fresh split: option.split)
  ultimately show ?thesis
    using ok(1-5) inv' by (simp add: r t getTemplate_def)
qed

definition exMeta :: "domain \<Rightarrow> requestMeta" where
  "exMeta d = \<lparr>rmRequestId = ''r'', rmSource = ''api'',
     rmIdentity = \<lparr>idDomain = d, subjectID = ''s'', fingerprint = ''f''\<rparr>\<rparr>"

definition exCreate :: "string \<Rightarrow> createTemplateRequest" where
  "exCreate risk = \<lparr>crName = ''t'', crDescription = [], crRiskLevel = risk, crTargetOS = [],
     crExecutor = \<lparr>teType = ''process'', teCommand = ''/bin/ls'', teArgs = []\<rparr>,
     crParamsSchema = exSchema, crDefaultTimeoutSec = 5, crMaxTimeoutSec = 9, crMaxOutputBytes = 0\<rparr>"

definition exFresh :: freshIds where
  "exFresh = \<lparr>fiRequest = ''q'', fiObject = ''t1'', fiEvent = ''e1'', fiNow = 7\<rparr>"

lemma exCreate_ok: "\<exists>t. fst (createTemplate exFresh (exMeta DomainAdmin) (exCreate riskDangerous) newService) = Inr t"
  by (simp add: createTemplate_def Let_def exMeta_def exCreate_def exFresh_def normalizeMeta_def
      buildTemplate_def exSchema_def validateSchema_def validateRisk_def schemaProps_def schemaTypes_def
      isAbs_def timeoutsOk_def newService_def) code_simp

theorem createTemplate_spec_witness:
  "templatesInv newService \<and>
   (\<exists>t s'. createTemplate exFresh (exMeta DomainAdmin) (exCreate riskDangerous) newService = (Inr t, s') \<and>
      templateOk t \<and> resolveTemplate ''t'' s' = Inr t)"
proof -
  obtain t s' where c:
    "createTemplate exFresh (exMeta DomainAdmin) (exCreate riskDangerous) newService = (Inr t, s')"
    using exCreate_ok by (metis prod.collapse)
  have "map_of (templates newService) (fiObject exFresh) = None" "crName (exCreate riskDangerous) = ''t''"
    "map_of (templates newService) ''t'' = None"
    by (simp_all add: newService_def exCreate_def)
  with createTemplate_spec [OF templatesInv_new _ c] c templatesInv_new show ?thesis by auto
qed

text \<open>
  A successful update keeps a template well formed, and its id, name and executor.
\<close>

theorem updateTemplate_ok:
  assumes run: "updateTemplate f meta i patch s = (Inr t', s')"
    and old: "map_of (templates s) i = Some t" "templateOk t"
  shows "idDomain (rmIdentity meta) = DomainAdmin \<and> templateOk t' \<and> getTemplate i s' = Inr t' \<and>
    ctId t' = ctId t \<and> ctName t' = ctName t \<and> ctExecutor t' = ctExecutor t"
proof -
  obtain u err where a: "applyPatch patch t = (u, err)" by fastforce
  have adm: "idDomain (rmIdentity meta) = DomainAdmin"
    using run by (auto simp: updateTemplate_def Let_def normalizeMeta_def split: if_splits)
  then have adm': "idDomain (rmIdentity (normalizeMeta (fiRequest f) meta)) = DomainAdmin"
    by (simp add: normalizeMeta_def Let_def)
  with run old(1) a have e: "err = None" "t' = u\<lparr>ctUpdatedAt := fiNow f\<rparr>"
    "templates s' = AList.update i t' (templates s)"
    by (cases err; force simp: updateTemplate_def Let_def)+
  have "templateOk t'" using applyPatch_ok [OF old(2), of patch] a e by (simp add: templateOk_def)
  with applyPatch_keeps [of patch t] a e adm show ?thesis by (simp add: getTemplate_def)
qed

definition patchNone :: updateTemplateRequest where
  "patchNone = \<lparr>upDescription = None, upRiskLevel = None, upTargetOS = None, upParamsSchema = None,
     upDefaultTimeoutSec = None, upMaxTimeoutSec = None, upMaxOutputBytes = None, upEnabled = None\<rparr>"

definition exTemplate :: "string \<Rightarrow> commandTemplate" where
  "exTemplate risk = \<lparr>ctId = ''t1'', ctName = ''t'', ctDescription = [], ctRiskLevel = risk,
     ctTargetOS = [], ctExecutor = \<lparr>teType = ''process'', teCommand = ''/bin/ls'', teArgs = []\<rparr>,
     ctParamsSchema = exSchema, ctDefaultTimeoutSec = 5, ctMaxTimeoutSec = 9, ctMaxOutputBytes = 1,
     ctEnabled = True, ctCreatedBy = ''s'', ctCreatedAt = 0, ctUpdatedAt = 0\<rparr>"

definition exService :: "string \<Rightarrow> service" where
  "exService risk = newService\<lparr>templates := [(''t1'', exTemplate risk)],
     templateNameIDs := [(''t'', ''t1'')]\<rparr>"

lemma exTemplate_ok: "templateOk (exTemplate riskDangerous)"
proof -
  have "trimSpace ''t'' \<noteq> []" by code_simp
  then show ?thesis
    by (simp add: templateOk_def exTemplate_def validateRisk_def exSchema_def validateSchema_def
        schemaProps_def schemaTypes_def isAbs_def timeoutsOk_def hasPrefix_def)
qed

theorem updateTemplate_ok_witness:
  "\<exists>t' s'. updateTemplate exFresh (exMeta DomainAdmin) ''t1'' (patchNone\<lparr>upMaxTimeoutSec := Some 60\<rparr>)
      (exService riskDangerous) = (Inr t', s') \<and> templateOk t' \<and> ctName t' = ''t''"
proof -
  have "\<exists>t' s'. updateTemplate exFresh (exMeta DomainAdmin) ''t1'' (patchNone\<lparr>upMaxTimeoutSec := Some 60\<rparr>)
      (exService riskDangerous) = (Inr t', s')"
    by (simp add: updateTemplate_def Let_def exMeta_def exFresh_def normalizeMeta_def exService_def
        applyPatch_def patchNone_def exTemplate_def orElse_def timeoutsOk_def)
  then obtain t' s' where r: "updateTemplate exFresh (exMeta DomainAdmin) ''t1''
      (patchNone\<lparr>upMaxTimeoutSec := Some 60\<rparr>) (exService riskDangerous) = (Inr t', s')" by blast
  have o: "map_of (templates (exService riskDangerous)) ''t1'' = Some (exTemplate riskDangerous)"
    "ctName (exTemplate riskDangerous) = ''t''"
    by (simp_all add: exService_def exTemplate_def)
  from updateTemplate_ok [OF r o(1) exTemplate_ok] r o(2) show ?thesis by auto
qed

text \<open>
  Property C28: an update that is refused can still take effect.  When an admin lowers the risk of
  a template and gives a default timeout above the maximum in the same request, the request is
  answered with an error, no audit event is recorded, and the stored template has the new risk
  and a default timeout above its maximum.
\<close>

theorem rejected_update_applied:
  assumes "idDomain (rmIdentity meta) = DomainAdmin"
    and "map_of (templates s) i = Some t" and "ctMaxTimeoutSec t < d"
  shows "\<exists>s'. updateTemplate f meta i
        (patchNone\<lparr>upRiskLevel := Some riskReadonly, upDefaultTimeoutSec := Some d\<rparr>) s
        = (Inl timeoutError, s') \<and>
      map_of (templates s') i = Some (t\<lparr>ctRiskLevel := riskReadonly, ctDefaultTimeoutSec := d\<rparr>) \<and>
      audits s' = audits s"
  using assms
  by (simp add: updateTemplate_def Let_def normalizeMeta_def applyPatch_def patchNone_def orElse_def
      timeoutsOk_def validateRisk_def)

theorem rejected_update_applied_witness:
  "\<exists>s'. updateTemplate exFresh (exMeta DomainAdmin) ''t1''
        (patchNone\<lparr>upRiskLevel := Some riskReadonly, upDefaultTimeoutSec := Some 10\<rparr>)
        (exService riskDangerous) = (Inl timeoutError, s') \<and>
      map_option ctRiskLevel (map_of (templates s') ''t1'') = Some riskReadonly"
proof -
  have a: "idDomain (rmIdentity (exMeta DomainAdmin)) = DomainAdmin" by (simp add: exMeta_def)
  have o: "map_of (templates (exService riskDangerous)) ''t1'' = Some (exTemplate riskDangerous)"
    by (simp add: exService_def)
  have m: "ctMaxTimeoutSec (exTemplate riskDangerous) < 10" by (simp add: exTemplate_def)
  from rejected_update_applied [OF a o m, of exFresh] show ?thesis by force
qed

end
