(* ===== verification/Registry.thy ===== *)
theory Registry
  imports AgentRegistry
begin

text \<open>
  Package \<open>sysplane-center/registry\<close>: the in-memory registry of center, and the gauge
  \<open>metrics.AgentsOnline\<close> that \<open>Register\<close> and \<open>checkOffline\<close> set.  \<open>now\<close> is the
  value of \<open>time.Now()\<close> in nanoseconds.
\<close>

record registry =
  records :: records
  agentsOnline :: nat

definition regNew :: registry where
  "regNew = \<lparr>records = [], agentsOnline = 0\<rparr>"

fun countOnline :: "records \<Rightarrow> nat" where
  "countOnline [] = 0"
| "countOnline ((h, rec) # m) =
     (if status rec = StatusOnline then Suc (countOnline m) else countOnline m)"

definition regRegister :: "agentRecord \<Rightarrow> registry \<Rightarrow> registry" where
  "regRegister rec r =
     (let m = AList.update (hostname rec) rec (records r)
      in r\<lparr>records := m, agentsOnline := countOnline m\<rparr>)"

definition regUnregister :: "string \<Rightarrow> registry \<Rightarrow> registry" where
  "regUnregister h r = r\<lparr>records := AList.delete h (records r)\<rparr>"

definition regUnregisterByStream :: "streamId \<Rightarrow> registry \<Rightarrow> registry \<times> string list" where
  "regUnregisterByStream s r =
     (r\<lparr>records := filter (\<lambda>(h, rec). routeStream rec \<noteq> s) (records r)\<rparr>,
      List.map fst (filter (\<lambda>(h, rec). routeStream rec = s) (records r)))"

definition regLookup :: "registry \<Rightarrow> string \<Rightarrow> agentRecord option" where
  "regLookup r h = map_of (records r) h"

definition regAll :: "registry \<Rightarrow> agentRecord list" where
  "regAll r = List.map snd (records r)"

definition regOnlineCount :: "registry \<Rightarrow> nat" where
  "regOnlineCount r = countOnline (records r)"

definition regUpdateHeartbeat :: "int \<Rightarrow> string \<Rightarrow> registry \<Rightarrow> registry" where
  "regUpdateHeartbeat now h r =
     (case map_of (records r) h of
        None \<Rightarrow> r
      | Some rec \<Rightarrow>
          r\<lparr>records := AList.update h (rec\<lparr>lastHeartbeat := now, status := StatusOnline\<rparr>) (records r)\<rparr>)"

definition staleOnline :: "int \<Rightarrow> int \<Rightarrow> agentRecord \<Rightarrow> bool" where
  "staleOnline now timeout rec \<longleftrightarrow>
     status rec = StatusOnline \<and> now - lastHeartbeat rec > timeout"

definition markOffline :: "int \<Rightarrow> int \<Rightarrow> agentRecord \<Rightarrow> agentRecord" where
  "markOffline now timeout rec =
     (if staleOnline now timeout rec then rec\<lparr>status := StatusOffline\<rparr> else rec)"

text \<open>
  One pass of the offline checker: the new registry and the callback calls it makes, in
  order.  A callback of the list may be nil (\<open>None\<close>), which is skipped.
\<close>

definition regCheckOffline ::
  "int \<Rightarrow> int \<Rightarrow> 'cb option list \<Rightarrow> registry \<Rightarrow> registry \<times> (string \<times> 'cb) list" where
  "regCheckOffline now timeout onOffline r =
     (let justOffline = List.map (\<lambda>(h, rec). hostname rec)
                          (filter (\<lambda>(h, rec). staleOnline now timeout rec) (records r));
          m = List.map (\<lambda>(h, rec). (h, markOffline now timeout rec)) (records r)
      in (r\<lparr>records := m, agentsOnline := countOnline m\<rparr>,
          concat (List.map (\<lambda>h. List.map (\<lambda>fn. (h, fn)) (List.map_filter id onOffline)) justOffline)))"

text \<open>
  The background checker: a pass at each tick (every 15 seconds) until the context ends (\<open>None\<close>).  The
  result has the calls of all passes with their times.
\<close>

definition checkerPeriod :: int where
  "checkerPeriod = 15 * 1000000000"

fun startOfflineChecker ::
  "int \<Rightarrow> 'cb option list \<Rightarrow> int option list \<Rightarrow> registry \<Rightarrow> registry \<times> (int \<times> string \<times> 'cb) list" where
  "startOfflineChecker timeout onOffline [] r = (r, [])"
| "startOfflineChecker timeout onOffline (None # ts) r = (r, [])"
| "startOfflineChecker timeout onOffline (Some now # ts) r =
     (let (r1, calls) = regCheckOffline now timeout onOffline r;
          (r2, more) = startOfflineChecker timeout onOffline ts r1
      in (r2, List.map (Pair now) calls @ more))"

section \<open>The registry implements the interface\<close>

definition regInv :: "registry \<Rightarrow> bool" where
  "regInv r \<longleftrightarrow> recordsInv (records r)"

lemma regInv_wf: "regInv r \<Longrightarrow> wfMap (records r)"
  by (simp add: regInv_def recordsInv_def)

lemma regInv_new [simp]: "regInv regNew"
  by (simp add: regInv_def recordsInv_def regNew_def)

lemma lookup_checkOffline:
  "regLookup (fst (regCheckOffline now timeout cbs r)) h
     = map_option (markOffline now timeout) (regLookup r h)"
  by (simp add: regCheckOffline_def regLookup_def Let_def map_of_map_values)

lemma regInv_checkOffline: "regInv r \<Longrightarrow> regInv (fst (regCheckOffline now timeout cbs r))"
  by (auto simp: regInv_def recordsInv_def regCheckOffline_def Let_def markOffline_def)

lemma regInv_update:
  assumes "regInv r" and "hostname rec = h"
  shows "recordsInv (AList.update h rec (records r))"
  using assms by (intro recordsInvI) (auto simp: regInv_def recordsInv_lookup regInv_wf
      recordsInv_def[of "records r", THEN iffD1, THEN conjunct1] split: if_splits)

interpretation cr: agent_registry regInv regLookup regRegister regUnregister
  regUnregisterByStream regUpdateHeartbeat
  "\<lambda>now timeout r. fst (regCheckOffline now timeout ([] :: unit option list) r)"
proof (unfold_locales, goal_cases)
  case (1 r h rec)
  then show ?case by (simp add: regInv_def regLookup_def recordsInv_lookup)
next
  case (2 r rec)
  show ?case by (simp add: regLookup_def regRegister_def fun_eq_iff Let_def)
next
  case (3 r h)
  show ?case by (simp add: regLookup_def regUnregister_def fun_eq_iff)
next
  case (4 r s h)
  then have "map_of (filter (\<lambda>(h, rec). routeStream rec \<noteq> s) (records r)) h =
      (case map_of (records r) h of None \<Rightarrow> None
       | Some rec \<Rightarrow> if routeStream rec \<noteq> s then Some rec else None)"
    using map_of_filter_some [of "records r" "\<lambda>_ rec. routeStream rec \<noteq> s" h] regInv_wf by blast
  then show ?case
    by (auto simp: regLookup_def regUnregisterByStream_def split: option.splits)
next
  case (5 r s)
  then show ?case
    by (auto simp: regLookup_def regUnregisterByStream_def regInv_wf image_iff)
next
  case (6 r now h h')
  show ?case by (auto simp: regLookup_def regUpdateHeartbeat_def split: option.splits)
next
  case (7 r now timeout h)
  show ?case
    by (cases "regLookup r h") (simp_all add: lookup_checkOffline markOffline_def staleOnline_def)
next
  case (8 r rec)
  then show ?case using regInv_update [of r rec "hostname rec"]
    by (simp add: regInv_def regRegister_def Let_def)
next
  case (9 r h)
  then show ?case
    by (intro regInv_def [THEN iffD2] recordsInvI)
      (auto simp: regUnregister_def regInv_wf regInv_def recordsInv_lookup split: if_splits)
next
  case (10 r s)
  then show ?case by (auto simp: regInv_def recordsInv_def regUnregisterByStream_def)
next
  case (11 r now h)
  then show ?case
    using regInv_update [of r _ h] recordsInv_lookup [of "records r" h]
    by (auto simp: regUpdateHeartbeat_def regInv_def split: option.splits)
next
  case (12 r now timeout)
  then show ?case by (rule regInv_checkOffline)
qed

section \<open>Properties\<close>

text \<open>The calls of a checker pass: every non-nil callback, for every node that just went stale.\<close>

lemma checkOffline_calls:
  assumes "regInv r"
  shows "set (snd (regCheckOffline now timeout cbs r)) =
    {(h, fn). \<exists>rec. regLookup r h = Some rec \<and> staleOnline now timeout rec \<and> Some fn \<in> set cbs}"
proof -
  have host: "hostname rec = h" if "(h, rec) \<in> set (records r)" for h rec
    using that assms by (auto simp: regInv_def recordsInv_def)
  have fns: "set (List.map_filter id cbs) = {fn. Some fn \<in> set cbs}"
    by (force simp: List.map_filter_def)
  show ?thesis
    unfolding regCheckOffline_def Let_def regLookup_def snd_conv
      map_of_eq_Some_iff [OF regInv_wf [OF assms]]
    by (auto simp: fns) (use host in force)+
qed

lemma markOffline_not_stale: "\<not> staleOnline now timeout (markOffline now timeout rec)"
  by (simp add: markOffline_def staleOnline_def)

lemma checkOffline_again:
  assumes "regInv r"
  shows "snd (regCheckOffline now timeout cbs' (fst (regCheckOffline now timeout cbs r))) = []"
proof -
  let ?r = "fst (regCheckOffline now timeout cbs r)"
  have "set (snd (regCheckOffline now timeout cbs' ?r)) = {}"
    using checkOffline_calls [OF regInv_checkOffline [OF assms, of now timeout cbs], of now timeout cbs']
    by (auto simp: lookup_checkOffline markOffline_not_stale)
  then show ?thesis by simp
qed

text \<open>
  When a node has reconnected over a new stream before the handler of its old
  stream ends, the tear-down of the old stream (\<open>UnregisterByStream\<close>) neither removes the new
  registration nor reports the node as removed.
\<close>

theorem teardown_keeps_reconnected:
  assumes "regInv r" and "routeStream new \<noteq> old"
  shows "regLookup (fst (regUnregisterByStream old (regRegister new r))) (hostname new) = Some new
    \<and> hostname new \<notin> set (snd (regUnregisterByStream old (regRegister new r)))"
  using assms by (rule cr.reconnect_survives)

theorem teardown_keeps_reconnected_witness:
  "regInv (regRegister (exRecord ''a'' 1) regNew) \<and> routeStream (exRecord ''a'' 2) \<noteq> 1 \<and>
   regLookup (fst (regUnregisterByStream 1
     (regRegister (exRecord ''a'' 2) (regRegister (exRecord ''a'' 1) regNew)))) ''a''
     = Some (exRecord ''a'' 2)"
proof -
  have i: "regInv (regRegister (exRecord ''a'' 1) regNew)" by (intro cr.invar_register regInv_new)
  have s: "routeStream (exRecord ''a'' 2) \<noteq> 1" by (simp add: exRecord_def)
  have "hostname (exRecord ''a'' 2) = ''a''" by (simp add: exRecord_def)
  with teardown_keeps_reconnected [OF i s] i s show ?thesis by simp
qed

text \<open>
  One pass of the offline checker marks a node offline exactly when it was online
  and its last heartbeat is older than the timeout, changes no other field, leaves the gauge
  equal to the number of online nodes, calls every non-nil callback for exactly the nodes it
  has just marked, and a second pass at the same time calls nothing.
\<close>

theorem checkOffline_correct:
  assumes "regInv r" and "regCheckOffline now timeout cbs r = (r', calls)"
  shows "regLookup r' h = map_option (markOffline now timeout) (regLookup r h)
    \<and> agentsOnline r' = regOnlineCount r'
    \<and> set calls = {(h, fn). \<exists>rec. regLookup r h = Some rec \<and> staleOnline now timeout rec \<and> Some fn \<in> set cbs}
    \<and> snd (regCheckOffline now timeout cbs r') = []"
proof -
  from assms(2) have r': "r' = fst (regCheckOffline now timeout cbs r)"
    and c: "calls = snd (regCheckOffline now timeout cbs r)" by simp_all
  have "agentsOnline r' = regOnlineCount r'"
    by (simp add: r' regCheckOffline_def regOnlineCount_def Let_def)
  then show ?thesis
    using lookup_checkOffline [of now timeout cbs r h] checkOffline_calls [OF assms(1), of now timeout cbs]
      checkOffline_again [OF assms(1), of now timeout cbs cbs] unfolding r' c by blast
qed

theorem checkOffline_correct_witness:
  "regCheckOffline 100 90 [None, Some ()] (regRegister (exRecord ''a'' 1) regNew)
     = (\<lparr>records = [(''a'', (exRecord ''a'' 1)\<lparr>status := StatusOffline\<rparr>)], agentsOnline = 0\<rparr>,
        [(''a'', ())]) \<and>
   snd (regCheckOffline 100 90 [None, Some ()]
     \<lparr>records = [(''a'', (exRecord ''a'' 1)\<lparr>status := StatusOffline\<rparr>)], agentsOnline = 0\<rparr>) = []"
proof -
  have e: "regCheckOffline 100 90 [None, Some ()] (regRegister (exRecord ''a'' 1) regNew)
     = (\<lparr>records = [(''a'', (exRecord ''a'' 1)\<lparr>status := StatusOffline\<rparr>)], agentsOnline = 0\<rparr>,
        [(''a'', ())])"
    by (simp add: regCheckOffline_def regRegister_def regNew_def exRecord_def staleOnline_def
        markOffline_def Let_def List.map_filter_def)
  have "regInv (regRegister (exRecord ''a'' 1) regNew)" by (intro cr.invar_register regInv_new)
  from checkOffline_correct [OF this e] e show ?thesis by blast
qed

lemma countOnline_filter:
  "countOnline (filter P m) \<le> countOnline m"
  "(h, rec) \<in> set m \<Longrightarrow> \<not> P (h, rec) \<Longrightarrow> status rec = StatusOnline \<Longrightarrow>
   countOnline (filter P m) < countOnline m"
proof -
  show le: "countOnline (filter P m) \<le> countOnline m" for m by (induction m) auto
  show "(h, rec) \<in> set m \<Longrightarrow> \<not> P (h, rec) \<Longrightarrow> status rec = StatusOnline \<Longrightarrow>
     countOnline (filter P m) < countOnline m"
    by (induction m) (auto simp: less_Suc_eq_le le)
qed

text \<open>
  The gauge counts the online nodes after a registration, but a stream tear-down
  does not update it: when the torn-down stream carried an online node, the gauge is larger
  than the number of online nodes until the next pass of the checker.
\<close>

theorem gauge_stale_after_disconnect:
  assumes "regLookup (regRegister rec r) h = Some rec'"
    and "status rec' = StatusOnline" and "routeStream rec' = s"
  shows "agentsOnline (regRegister rec r) = regOnlineCount (regRegister rec r)
    \<and> regOnlineCount (fst (regUnregisterByStream s (regRegister rec r)))
        < agentsOnline (fst (regUnregisterByStream s (regRegister rec r)))"
proof -
  have a: "agentsOnline (regRegister rec r) = countOnline (records (regRegister rec r))"
    by (simp add: regRegister_def Let_def)
  have "(h, rec') \<in> set (records (regRegister rec r))"
    using assms(1) by (simp add: regLookup_def map_of_SomeD)
  then have "countOnline (filter (\<lambda>(h, rec). routeStream rec \<noteq> s) (records (regRegister rec r)))
      < countOnline (records (regRegister rec r))"
    using assms(2,3) by (intro countOnline_filter(2) [where h = h and rec = rec']) auto
  with a show ?thesis by (simp add: regUnregisterByStream_def regOnlineCount_def)
qed

theorem gauge_stale_after_disconnect_witness:
  "regOnlineCount (fst (regUnregisterByStream 1 (regRegister (exRecord ''a'' 1) regNew))) = 0 \<and>
   regOnlineCount (fst (regUnregisterByStream 1 (regRegister (exRecord ''a'' 1) regNew)))
     < agentsOnline (fst (regUnregisterByStream 1 (regRegister (exRecord ''a'' 1) regNew)))"
proof -
  have "regLookup (regRegister (exRecord ''a'' 1) regNew) ''a'' = Some (exRecord ''a'' 1)"
    "status (exRecord ''a'' 1) = StatusOnline" "routeStream (exRecord ''a'' 1) = 1"
    by (simp_all add: exRecord_def regLookup_def regRegister_def regNew_def Let_def)
  from gauge_stale_after_disconnect [OF this] show ?thesis
    by (simp add: exRecord_def regUnregisterByStream_def regRegister_def regNew_def Let_def
        regOnlineCount_def)
qed

lemma checker_tick:
  assumes "regInv r" "regLookup r h = Some rec"
    "startOfflineChecker timeout cbs (Some now # ts) r = (r', calls)"
  obtains r1 calls1 where "startOfflineChecker timeout cbs ts r1 = (r', calls1)" "regInv r1"
    "regLookup r1 h = Some (markOffline now timeout rec)"
    "{(t, fn). (t, h, fn) \<in> set calls} = {(t, fn). (t, h, fn) \<in> set calls1} \<union>
       (if staleOnline now timeout rec then {(now, fn) |fn. Some fn \<in> set cbs} else {})"
proof -
  obtain r1 c where c: "regCheckOffline now timeout cbs r = (r1, c)" by fastforce
  from assms(3) c obtain calls1 where s: "startOfflineChecker timeout cbs ts r1 = (r', calls1)"
    "calls = List.map (Pair now) c @ calls1" by (auto split: prod.splits)
  note ch = checkOffline_calls [OF assms(1), of now timeout cbs]
  have r1: "r1 = fst (regCheckOffline now timeout cbs r)" using c by simp
  have "regInv r1" unfolding r1 by (rule regInv_checkOffline [OF assms(1)])
  moreover have "regLookup r1 h = Some (markOffline now timeout rec)" unfolding r1 by (simp add: lookup_checkOffline assms(2))
  moreover have "{(t, fn). (t, h, fn) \<in> set calls} = {(t, fn). (t, h, fn) \<in> set calls1} \<union>
      (if staleOnline now timeout rec then {(now, fn) |fn. Some fn \<in> set cbs} else {})"
    using ch assms(2) c s(2) by auto
  ultimately show thesis using that s(1) by blast
qed

lemma checker_offline:
  "regInv r \<Longrightarrow> regLookup r h = Some rec \<Longrightarrow> status rec = StatusOffline \<Longrightarrow>
   startOfflineChecker timeout cbs (List.map Some ts) r = (r', calls) \<Longrightarrow>
   regLookup r' h = Some rec \<and> {(t, fn). (t, h, fn) \<in> set calls} = {}"
proof (induction ts arbitrary: r calls)
  case (Cons now ts)
  have n: "\<not> staleOnline now timeout rec" using Cons.prems(3) by (simp add: staleOnline_def)
  then have "markOffline now timeout rec = rec" by (simp add: markOffline_def)
  note same = this
  have run: "startOfflineChecker timeout cbs (Some now # List.map Some ts) r = (r', calls)" using Cons.prems(4) by simp
  obtain r1 calls1 where s: "startOfflineChecker timeout cbs (List.map Some ts) r1 = (r', calls1)" "regInv r1"
      "regLookup r1 h = Some (markOffline now timeout rec)"
      "{(t, fn). (t, h, fn) \<in> set calls} = {(t, fn). (t, h, fn) \<in> set calls1} \<union>
       (if staleOnline now timeout rec then {(now, fn) |fn. Some fn \<in> set cbs} else {})"
    by (rule checker_tick [OF Cons.prems(1,2) run])
  from Cons.IH [OF s(2) s(3) [unfolded same] Cons.prems(3) s(1)] s(4) n show ?case by simp
qed simp

lemma checker_silent:
  "regInv r \<Longrightarrow> regLookup r h = Some rec \<Longrightarrow> status rec = StatusOnline \<Longrightarrow>
   dropWhile (\<lambda>t. t \<le> lastHeartbeat rec + timeout) ts = now # rest \<Longrightarrow>
   startOfflineChecker timeout cbs (List.map Some ts) r = (r', calls) \<Longrightarrow>
   regLookup r' h = Some (rec\<lparr>status := StatusOffline\<rparr>) \<and>
   {(t, fn). (t, h, fn) \<in> set calls} = {(now, fn) |fn. Some fn \<in> set cbs}"
proof (induction ts arbitrary: r calls)
  case (Cons t ts)
  have "startOfflineChecker timeout cbs (Some t # List.map Some ts) r = (r', calls)" using Cons.prems(5) by simp
  note run = this
  obtain r1 calls1 where
    s: "startOfflineChecker timeout cbs (List.map Some ts) r1 = (r', calls1)" "regInv r1"
      "regLookup r1 h = Some (markOffline t timeout rec)"
      "{(t, fn). (t, h, fn) \<in> set calls} = {(t, fn). (t, h, fn) \<in> set calls1} \<union>
       (if staleOnline t timeout rec then {(t, fn) |fn. Some fn \<in> set cbs} else {})"
    by (rule checker_tick [OF Cons.prems(1,2) run])
  show ?case
  proof (cases "t \<le> lastHeartbeat rec + timeout")
    case True
    then have n: "\<not> staleOnline t timeout rec" by (simp add: staleOnline_def)
    then have l: "regLookup r1 h = Some rec" using s(3) by (simp add: markOffline_def)
    from Cons.IH [OF s(2) l Cons.prems(3) _ s(1)] Cons.prems(4) True s(4) n show ?thesis by simp
  next
    case False
    then have y: "staleOnline t timeout rec" "now = t" using Cons.prems(3,4) by (auto simp: staleOnline_def)
    then have l: "regLookup r1 h = Some (rec\<lparr>status := StatusOffline\<rparr>)" using s(3) by (simp add: markOffline_def)
    from checker_offline [OF s(2) l _ s(1)] s(4) y show ?thesis by simp
  qed
qed simp

text \<open>
  Property C18: a silent node is found out in time.  With the checker running every 15 seconds, a node
  from which nothing is heard any more is marked offline after its timeout and at most 15 seconds
  later, every callback is called for it at that time, and never again as long as it stays silent.
\<close>

theorem silent_node_detected:
  assumes inv: "regInv r" and online: "regLookup r h = Some rec" "status rec = StatusOnline"
    and ticks: "ts = List.map (\<lambda>k. t0 + checkerPeriod * int k) [0..<n]" "0 < n"
      "t0 \<le> lastHeartbeat rec + timeout + checkerPeriod" "lastHeartbeat rec + timeout < t0 + checkerPeriod * int (n - 1)"
    and run: "startOfflineChecker timeout cbs (List.map Some ts) r = (r', calls)"
  shows "regLookup r' h = Some (rec\<lparr>status := StatusOffline\<rparr>) \<and>
    (\<exists>now. lastHeartbeat rec + timeout < now \<and> now \<le> lastHeartbeat rec + timeout + checkerPeriod \<and>
       {(t, fn). (t, h, fn) \<in> set calls} = {(now, fn) |fn. Some fn \<in> set cbs})"
proof -
  let ?D = "lastHeartbeat rec + timeout"
  let ?k = "length (takeWhile (\<lambda>t. t \<le> ?D) ts)"
  have at: "ts ! i = t0 + checkerPeriod * int i" if "i < n" for i using that by (simp add: ticks(1))
  have len: "length ts = n" by (simp add: ticks(1))
  have k: "?k < n"
  proof (rule ccontr)
    assume "\<not> ?k < n"
    then have "takeWhile (\<lambda>t. t \<le> ?D) ts = ts" using length_takeWhile_le [of "\<lambda>t. t \<le> ?D" ts] len
      by (metis le_antisym not_less take_all takeWhile_eq_take)
    then have "ts ! (n - 1) \<le> ?D" using ticks(2) len by (metis diff_less nth_mem set_takeWhileD zero_less_one)
    with at [of "n - 1"] ticks(2,4) show False by simp
  qed
  let ?now = "t0 + checkerPeriod * int ?k"
  have "dropWhile (\<lambda>t. t \<le> ?D) ts = ts ! ?k # drop (Suc ?k) ts"
    using k len by (simp add: dropWhile_eq_drop Cons_nth_drop_Suc)
  then have d: "dropWhile (\<lambda>t. t \<le> ?D) ts = ?now # drop (Suc ?k) ts" using at [OF k] by simp
  have gt: "?D < ?now" using hd_dropWhile [of "\<lambda>t. t \<le> ?D" ts] d by simp
  have le: "?now \<le> ?D + checkerPeriod"
  proof (cases "?k")
    case 0
    then show ?thesis using ticks(3) by simp
  next
    case (Suc j)
    then have "takeWhile (\<lambda>t. t \<le> ?D) ts ! j = ts ! j" "j < ?k" by (simp_all add: takeWhile_nth)
    then have "ts ! j \<le> ?D" by (metis nth_mem set_takeWhileD)
    with at [of j] k Suc show ?thesis by (simp add: algebra_simps)
  qed
  from checker_silent [OF inv online d run] gt le show ?thesis by blast
qed

theorem silent_node_detected_witness:
  "\<exists>r' calls. startOfflineChecker (90 * 1000000000) [Some ()] (List.map Some (List.map (\<lambda>k. 0 + checkerPeriod * int k) [0..<8]))
     (regRegister (exRecord ''a'' 1) regNew) = (r', calls) \<and>
   regLookup r' ''a'' = Some ((exRecord ''a'' 1)\<lparr>status := StatusOffline\<rparr>)"
proof -
  have i: "regInv (regRegister (exRecord ''a'' 1) regNew)" by (intro cr.invar_register regInv_new)
  have l: "regLookup (regRegister (exRecord ''a'' 1) regNew) ''a'' = Some (exRecord ''a'' 1)"
    "status (exRecord ''a'' 1) = StatusOnline"
    by (simp_all add: exRecord_def regLookup_def regRegister_def regNew_def Let_def)
  obtain r' calls where run: "startOfflineChecker (90 * 1000000000) [Some ()]
      (List.map Some (List.map (\<lambda>k. 0 + checkerPeriod * int k) [0..<8]))
      (regRegister (exRecord ''a'' 1) regNew) = (r', calls)" by fastforce
  have b: "0 \<le> lastHeartbeat (exRecord ''a'' 1) + 90 * 1000000000 + checkerPeriod"
    "lastHeartbeat (exRecord ''a'' 1) + 90 * 1000000000 < 0 + checkerPeriod * int (8 - 1)"
    by (simp_all add: exRecord_def checkerPeriod_def)
  from silent_node_detected [OF i l refl _ b run] run show ?thesis by simp
qed

end
