(* ===== verification/Router.thy ===== *)
theory Router
  imports AgentRegistry
begin

text \<open>
  Package \<open>sysplane-center/router\<close>: correlation of tool requests with responses.  Many
  goroutines run \<open>Send\<close> at once and share the map \<open>pending\<close> from request ids to slots
  (channels of capacity one).  A state holds that map, the content of every slot, the calls of
  \<open>Send\<close> with their progress, what went out on the streams and the metric labels.  The atomic
  actions of the calls and of \<open>Deliver\<close> are the events of \<open>routerStep\<close>; an interleaving is a
  list of events.  \<open>routerSend\<close> is one whole call against an environment that answers.
\<close>

section \<open>Pieces of Send\<close>

definition routerTimeout :: "int \<Rightarrow> int" where
  "routerTimeout timeoutSec = (if timeoutSec \<le> 0 then 5 else timeoutSec)"

definition toolRequestMsg :: "agentRecord \<Rightarrow> string \<Rightarrow> string \<Rightarrow> jtext \<Rightarrow> tunnelMessage" where
  "toolRequestMsg rec reqId tool args =
     ToolRequest \<lparr>trRequestId = reqId, trToolName = tool, trArgsJson = args,
                  trTargetHost = hostname rec\<rparr>"

definition sendFailed :: "agentRecord \<Rightarrow> goerr \<Rightarrow> string \<times> (goerr + jtext)" where
  "sendFailed rec e =
     (''error'', Inl (ErrWrap (''router: send to agent '' @ hostname rec @ '': '') e))"

text \<open>The branch \<open><-ctx.Done()\<close>; \<open>e\<close> is \<open>ctx.Err()\<close>.\<close>

definition ctxResult :: "agentRecord \<Rightarrow> string \<Rightarrow> goerr \<Rightarrow> string \<times> (goerr + jtext)" where
  "ctxResult rec reqId e =
     (if errIs e CtxCanceled
      then (''canceled'', Inl (ErrWrap (''router: canceled waiting for response from '' @
              hostname rec @ '' (request '' @ reqId @ ''): '') ErrRouterCanceled))
      else (''timeout'', Inl (ErrWrap (''router: timeout waiting for response from '' @
              hostname rec @ '' (request '' @ reqId @ ''): '') ErrRouterTimeout)))"

text \<open>The branch \<open>msg := <-slot.ch\<close>.\<close>

fun msgResult :: "tunnelMessage \<Rightarrow> string \<times> (goerr + jtext)" where
  "msgResult (ToolResponse _ r) = (''success'', Inr r)"
| "msgResult (ErrorResponse e) =
     (''error'', Inl (ErrText (''agent error ['' @ erCode e @ '']: '' @ erMessage e)))"
| "msgResult m = (''error'', Inl (ErrText (''router: unexpected response type '' @ payloadType m)))"

section \<open>Interleaved calls\<close>

datatype sendPhase = Registered | Waiting | Returned "goerr + jtext"

record sendCall =
  scReqId :: string
  scRec :: agentRecord
  scTool :: string
  scArgs :: jtext
  scSlot :: nat
  scPhase :: sendPhase

record routerSys =
  pending :: "string \<Rightarrow> nat option"
  chans :: "nat \<Rightarrow> tunnelMessage option"
  calls :: "nat \<Rightarrow> sendCall option"
  nextSlot :: nat
  wire :: "(streamId \<times> tunnelMessage) list"
  toolRequests :: "(string \<times> string) list"

definition routerInit :: routerSys where
  "routerInit = \<lparr>pending = (\<lambda>_. None), chans = (\<lambda>_. None), calls = (\<lambda>_. None),
     nextSlot = 0, wire = [], toolRequests = []\<rparr>"

datatype routerEvent =
    BeginSend nat string agentRecord string jtext
  | Transmit nat "goerr option"
  | CtxDone nat goerr
  | Receive nat
  | Deliver string tunnelMessage

text \<open>Return from \<open>Send\<close>: the deferred calls delete the pending entry and count the request.\<close>

definition finishSend :: "nat \<Rightarrow> sendCall \<Rightarrow> string \<times> (goerr + jtext) \<Rightarrow> routerSys \<Rightarrow> routerSys" where
  "finishSend c k res s =
     s\<lparr>pending := (pending s)(scReqId k := None),
       calls := (calls s)(c \<mapsto> k\<lparr>scPhase := Returned (snd res)\<rparr>),
       toolRequests := toolRequests s @ [(scTool k, fst res)]\<rparr>"

definition beginSend :: "nat \<Rightarrow> string \<Rightarrow> agentRecord \<Rightarrow> string \<Rightarrow> jtext \<Rightarrow> routerSys \<Rightarrow> routerSys" where
  "beginSend c req rec tool args s =
     s\<lparr>pending := (pending s)(req \<mapsto> nextSlot s),
       calls := (calls s)(c \<mapsto> \<lparr>scReqId = req, scRec = rec, scTool = tool, scArgs = args,
                               scSlot = nextSlot s, scPhase = Registered\<rparr>),
       nextSlot := Suc (nextSlot s)\<rparr>"

definition deliver :: "string \<Rightarrow> tunnelMessage \<Rightarrow> routerSys \<Rightarrow> routerSys" where
  "deliver req m s =
     (case pending s req of
        None \<Rightarrow> s
      | Some sl \<Rightarrow>
          (case chans s sl of
             None \<Rightarrow> s\<lparr>chans := (chans s)(sl \<mapsto> m)\<rparr>
           | Some _ \<Rightarrow> s))"

text \<open>\<open>DeliverFromMessage\<close>: only tool and error responses are delivered.\<close>

fun deliverFromMessage :: "tunnelMessage \<Rightarrow> routerSys \<Rightarrow> routerSys" where
  "deliverFromMessage (ToolResponse req r) s = deliver req (ToolResponse req r) s"
| "deliverFromMessage (ErrorResponse e) s = deliver (erRequestId e) (ErrorResponse e) s"
| "deliverFromMessage _ s = s"

text \<open>One event; \<open>None\<close> when the event cannot happen in the state.\<close>

fun routerStep :: "routerSys \<Rightarrow> routerEvent \<Rightarrow> routerSys option" where
  "routerStep s (BeginSend c req rec tool args) =
     (if calls s c = None then Some (beginSend c req rec tool args s) else None)"
| "routerStep s (Transmit c err) =
     (case calls s c of
        None \<Rightarrow> None
      | Some k \<Rightarrow>
          if scPhase k \<noteq> Registered then None
          else
            (case err of
               Some e \<Rightarrow> Some (finishSend c k (sendFailed (scRec k) e) s)
             | None \<Rightarrow>
                 Some (s\<lparr>calls := (calls s)(c \<mapsto> k\<lparr>scPhase := Waiting\<rparr>),
                         wire := wire s @ [(routeStream (scRec k),
                           toolRequestMsg (scRec k) (scReqId k) (scTool k) (scArgs k))]\<rparr>)))"
| "routerStep s (CtxDone c e) =
     (case calls s c of
        None \<Rightarrow> None
      | Some k \<Rightarrow>
          if scPhase k \<noteq> Waiting then None
          else Some (finishSend c k (ctxResult (scRec k) (scReqId k) e)
                 (s\<lparr>wire := wire s @ [(routeStream (scRec k), CancelRequest (scReqId k))]\<rparr>)))"
| "routerStep s (Receive c) =
     (case calls s c of
        None \<Rightarrow> None
      | Some k \<Rightarrow>
          if scPhase k \<noteq> Waiting then None
          else
            (case chans s (scSlot k) of
               None \<Rightarrow> None
             | Some m \<Rightarrow>
                 Some (finishSend c k (msgResult m) (s\<lparr>chans := (chans s)(scSlot k := None)\<rparr>))))"
| "routerStep s (Deliver req m) = Some (deliver req m s)"

fun runRouter :: "routerSys \<Rightarrow> routerEvent list \<Rightarrow> routerSys option" where
  "runRouter s [] = Some s"
| "runRouter s (e # es) = (case routerStep s e of None \<Rightarrow> None | Some s' \<Rightarrow> runRouter s' es)"

section \<open>One call against an answering environment\<close>

datatype await = Answer tunnelMessage | CtxEnds goerr

text \<open>
  \<open>Send\<close> run to its end when the first stream send gives \<open>sendErr\<close> and the \<open>select\<close> takes the
  branch \<open>aw\<close>: the messages sent on the node's stream, the metric label and the result.
\<close>

definition routerSend ::
  "agentRecord \<Rightarrow> string \<Rightarrow> string \<Rightarrow> jtext \<Rightarrow> goerr option \<Rightarrow> await \<Rightarrow>
   tunnelMessage list \<times> string \<times> (goerr + jtext)" where
  "routerSend rec reqId tool args sendErr aw =
     (case sendErr of
        Some e \<Rightarrow> ([], sendFailed rec e)
      | None \<Rightarrow>
          (case aw of
             CtxEnds e \<Rightarrow>
               ([toolRequestMsg rec reqId tool args, CancelRequest reqId], ctxResult rec reqId e)
           | Answer m \<Rightarrow> ([toolRequestMsg rec reqId tool args], msgResult m)))"

record multiResult =
  mrHostname :: string
  mrResult :: "goerr + jtext"

definition multiReqId :: "string \<Rightarrow> agentRecord \<Rightarrow> string" where
  "multiReqId base rec = base @ ''_'' @ hostname rec"

text \<open>\<open>SendMulti\<close>; \<open>env\<close> answers each call by its request id and record.\<close>

definition sendMulti ::
  "agentRecord list \<Rightarrow> string \<Rightarrow> string \<Rightarrow> jtext \<Rightarrow>
   (string \<Rightarrow> agentRecord \<Rightarrow> goerr option \<times> await) \<Rightarrow> multiResult list" where
  "sendMulti recs base tool args env =
     List.map (\<lambda>rec. let req = multiReqId base rec; (se, aw) = env req rec
                 in \<lparr>mrHostname = hostname rec,
                     mrResult = snd (snd (routerSend rec req tool args se aw))\<rparr>) recs"

section \<open>Invariants\<close>

definition inFlight :: "sendCall \<Rightarrow> bool" where
  "inFlight k \<longleftrightarrow> (\<forall>r. scPhase k \<noteq> Returned r)"

lemma inFlight_simps [simp]:
  "scPhase k = Registered \<Longrightarrow> inFlight k" "scPhase k = Waiting \<Longrightarrow> inFlight k"
  "\<not> inFlight (k\<lparr>scPhase := Returned r\<rparr>)" "inFlight (k\<lparr>scPhase := Waiting\<rparr>)"
  by (auto simp: inFlight_def)

text \<open>Every pending entry belongs to a call in flight.\<close>

definition pendInv :: "routerSys \<Rightarrow> bool" where
  "pendInv s \<longleftrightarrow> (\<forall>req sl. pending s req = Some sl \<longrightarrow>
     (\<exists>c k. calls s c = Some k \<and> scReqId k = req \<and> scSlot k = sl \<and> inFlight k))"

text \<open>Slots are allocated once each.\<close>

definition slotInv :: "routerSys \<Rightarrow> bool" where
  "slotInv s \<longleftrightarrow>
     (\<forall>c k. calls s c = Some k \<longrightarrow> scSlot k < nextSlot s) \<and>
     (\<forall>c k c' k'. calls s c = Some k \<longrightarrow> calls s c' = Some k' \<longrightarrow> scSlot k = scSlot k' \<longrightarrow> c = c') \<and>
     (\<forall>sl m. chans s sl = Some m \<longrightarrow> sl < nextSlot s)"

text \<open>
  Where answers come from: what a slot holds was delivered under the request id of the call that
  owns the slot, and so was every answer a call returned.
\<close>

definition provInv :: "routerEvent set \<Rightarrow> routerSys \<Rightarrow> bool" where
  "provInv D s \<longleftrightarrow>
     (\<forall>c k m. calls s c = Some k \<longrightarrow> chans s (scSlot k) = Some m \<longrightarrow> Deliver (scReqId k) m \<in> D) \<and>
     (\<forall>c k r. calls s c = Some k \<longrightarrow> scPhase k = Returned (Inr r) \<longrightarrow>
        (\<exists>i. Deliver (scReqId k) (ToolResponse i r) \<in> D))"

text \<open>Every call in flight owns the entry of its request id: true as long as ids are not reused.\<close>

definition ownInv :: "string set \<Rightarrow> routerSys \<Rightarrow> bool" where
  "ownInv U s \<longleftrightarrow>
     (\<forall>c k. calls s c = Some k \<longrightarrow> scReqId k \<in> U) \<and>
     (\<forall>c k c' k'. calls s c = Some k \<longrightarrow> calls s c' = Some k' \<longrightarrow> scReqId k = scReqId k' \<longrightarrow> c = c') \<and>
     (\<forall>c k. calls s c = Some k \<longrightarrow> inFlight k \<longrightarrow> pending s (scReqId k) = Some (scSlot k))"

lemmas routerInvDefs = pendInv_def slotInv_def provInv_def ownInv_def

lemma routerInv_init:
  "pendInv routerInit" "slotInv routerInit" "provInv D routerInit" "ownInv U routerInit"
  by (simp_all add: routerInvDefs routerInit_def)

text \<open>The wire and the metric are not part of any invariant.\<close>

lemma inv_wire [simp]:
  "pendInv (s\<lparr>wire := w\<rparr>) = pendInv s" "slotInv (s\<lparr>wire := w\<rparr>) = slotInv s"
  "provInv D (s\<lparr>wire := w\<rparr>) = provInv D s" "ownInv U (s\<lparr>wire := w\<rparr>) = ownInv U s"
  by (simp_all add: routerInvDefs)

lemma inv_empty:
  "pendInv s \<Longrightarrow> pendInv (s\<lparr>chans := (chans s)(sl := None)\<rparr>)"
  "slotInv s \<Longrightarrow> slotInv (s\<lparr>chans := (chans s)(sl := None)\<rparr>)"
  "provInv D s \<Longrightarrow> provInv D (s\<lparr>chans := (chans s)(sl := None)\<rparr>)"
  "ownInv U s \<Longrightarrow> ownInv U (s\<lparr>chans := (chans s)(sl := None)\<rparr>)"
  by (simp_all add: routerInvDefs)

subsection \<open>Starting a call\<close>

lemma pendInv_begin:
  assumes "pendInv s" and "calls s c = None"
  shows "pendInv (beginSend c req rec tool args s)"
  unfolding pendInv_def
proof (intro allI impI)
  fix r sl assume "pending (beginSend c req rec tool args s) r = Some sl"
  then show "\<exists>c' k. calls (beginSend c req rec tool args s) c' = Some k \<and> scReqId k = r \<and>
      scSlot k = sl \<and> inFlight k"
  proof (cases "r = req")
    case True
    with \<open>pending _ r = _\<close> show ?thesis by (auto simp: beginSend_def)
  next
    case False
    with \<open>pending _ r = _\<close> have "pending s r = Some sl" by (simp add: beginSend_def)
    with assms(1) obtain c' k where
      k: "calls s c' = Some k" "scReqId k = r" "scSlot k = sl" "inFlight k"
      unfolding pendInv_def by blast
    with assms(2) have "c' \<noteq> c" by auto
    with k show ?thesis by (auto simp: beginSend_def)
  qed
qed

lemma slotInv_begin:
  assumes "slotInv s" shows "slotInv (beginSend c req rec tool args s)"
  using assms unfolding slotInv_def beginSend_def
  by (simp add: less_Suc_eq) (metis less_irrefl)

lemma provInv_begin:
  assumes "slotInv s" and "provInv D s"
  shows "provInv D (beginSend c req rec tool args s)"
proof -
  have "chans s (nextSlot s) = None"
    using assms(1) unfolding slotInv_def by (cases "chans s (nextSlot s)") auto
  with assms(2) show ?thesis unfolding provInv_def beginSend_def by simp
qed

lemma ownInv_begin:
  assumes own: "ownInv U s" and fresh: "req \<notin> U"
  shows "ownInv (insert req U) (beginSend c req rec tool args s)"
proof -
  have "scReqId k \<noteq> req" if "calls s c' = Some k" for c' k
    using own fresh that unfolding ownInv_def by blast
  note this [THEN not_sym]
  with own \<open>\<And>k c'. calls s c' = Some k \<Longrightarrow> scReqId k \<noteq> req\<close>
  show ?thesis unfolding ownInv_def beginSend_def by simp
qed

subsection \<open>A call that moves on\<close>

lemma pendInv_waiting:
  assumes "pendInv s" and "calls s c = Some k"
  shows "pendInv (s\<lparr>calls := (calls s)(c \<mapsto> k\<lparr>scPhase := Waiting\<rparr>)\<rparr>)"
  unfolding pendInv_def
proof (intro allI impI)
  fix r sl assume "pending (s\<lparr>calls := (calls s)(c \<mapsto> k\<lparr>scPhase := Waiting\<rparr>)\<rparr>) r = Some sl"
  then have "pending s r = Some sl" by simp
  with assms(1) obtain c' k' where
    k': "calls s c' = Some k'" "scReqId k' = r" "scSlot k' = sl" "inFlight k'"
    unfolding pendInv_def by blast
  show "\<exists>c' k'. calls (s\<lparr>calls := (calls s)(c \<mapsto> k\<lparr>scPhase := Waiting\<rparr>)\<rparr>) c' = Some k' \<and>
      scReqId k' = r \<and> scSlot k' = sl \<and> inFlight k'"
    using k' assms(2) by (intro exI [of _ c'] exI [of _ "if c' = c then k\<lparr>scPhase := Waiting\<rparr> else k'"]) auto
qed

lemma slotInv_waiting:
  assumes "slotInv s" and "calls s c = Some k"
  shows "slotInv (s\<lparr>calls := (calls s)(c \<mapsto> k\<lparr>scPhase := Waiting\<rparr>)\<rparr>)"
  using assms unfolding slotInv_def by simp metis

lemma provInv_waiting:
  assumes "provInv D s" and "calls s c = Some k"
  shows "provInv D (s\<lparr>calls := (calls s)(c \<mapsto> k\<lparr>scPhase := Waiting\<rparr>)\<rparr>)"
  using assms unfolding provInv_def by simp

lemma ownInv_waiting:
  assumes "ownInv U s" and "calls s c = Some k" and "inFlight k"
  shows "ownInv U (s\<lparr>calls := (calls s)(c \<mapsto> k\<lparr>scPhase := Waiting\<rparr>)\<rparr>)"
  using assms unfolding ownInv_def by simp metis

subsection \<open>A call that returns\<close>

lemma pendInv_finish:
  assumes "pendInv s" and "calls s c = Some k"
  shows "pendInv (finishSend c k res s)"
  unfolding pendInv_def
proof (intro allI impI)
  fix r sl assume r: "pending (finishSend c k res s) r = Some sl"
  then have "pending s r = Some sl" and ne: "r \<noteq> scReqId k"
    by (auto simp: finishSend_def split: if_splits)
  with assms(1) obtain c' k' where
    k': "calls s c' = Some k'" "scReqId k' = r" "scSlot k' = sl" "inFlight k'"
    unfolding pendInv_def by blast
  with assms(2) ne have "c' \<noteq> c" by auto
  with k' show "\<exists>c' k'. calls (finishSend c k res s) c' = Some k' \<and>
      scReqId k' = r \<and> scSlot k' = sl \<and> inFlight k'"
    by (intro exI [of _ c'] exI [of _ k']) (simp add: finishSend_def)
qed

lemma slotInv_finish:
  assumes "slotInv s" and "calls s c = Some k"
  shows "slotInv (finishSend c k res s)"
  using assms unfolding slotInv_def finishSend_def by simp metis

lemma provInv_finish:
  assumes "provInv D s" and "calls s c = Some k"
    and "\<And>r. snd res = Inr r \<Longrightarrow> \<exists>i. Deliver (scReqId k) (ToolResponse i r) \<in> D"
  shows "provInv D (finishSend c k res s)"
  using assms unfolding provInv_def finishSend_def by simp

lemma ownInv_finish:
  assumes own: "ownInv U s" and k: "calls s c = Some k"
  shows "ownInv U (finishSend c k res s)"
proof -
  have ne: "scReqId k' \<noteq> scReqId k" if "calls s c' = Some k'" "c' \<noteq> c" for c' k'
    using own k that unfolding ownInv_def by blast
  have kU: "scReqId k \<in> U" using own k unfolding ownInv_def by blast
  show ?thesis
    unfolding ownInv_def
  proof (intro conjI allI impI)
    fix c' k' assume "calls (finishSend c k res s) c' = Some k'"
    then show "scReqId k' \<in> U"
      using own kU unfolding ownInv_def by (auto simp: finishSend_def split: if_splits)
  next
    fix c1 k1 c2 k2
    assume "calls (finishSend c k res s) c1 = Some k1" "calls (finishSend c k res s) c2 = Some k2"
      "scReqId k1 = scReqId k2"
    then show "c1 = c2"
      using own ne ne [THEN not_sym] unfolding ownInv_def
      by (cases "c1 = c"; cases "c2 = c") (auto simp: finishSend_def)
  next
    fix c' k' assume *: "calls (finishSend c k res s) c' = Some k'" "inFlight k'"
    then have "c' \<noteq> c" by (auto simp: finishSend_def)
    with * have "calls s c' = Some k'" by (simp add: finishSend_def)
    with *(2) ne [OF _ \<open>c' \<noteq> c\<close>] own
    show "pending (finishSend c k res s) (scReqId k') = Some (scSlot k')"
      unfolding ownInv_def by (simp add: finishSend_def)
  qed
qed

subsection \<open>Delivery\<close>

lemma deliver_fields [simp]:
  "calls (deliver req m s) = calls s" "pending (deliver req m s) = pending s"
  "nextSlot (deliver req m s) = nextSlot s"
  by (auto simp: deliver_def split: option.splits)

lemma deliver_chans:
  "chans (deliver req m s) sl =
     (if pending s req = Some sl \<and> chans s sl = None then Some m else chans s sl)"
  by (auto simp: deliver_def split: option.splits)

lemma inv_deliver:
  "pendInv s \<Longrightarrow> pendInv (deliver req m s)" "ownInv U s \<Longrightarrow> ownInv U (deliver req m s)"
  by (simp_all add: pendInv_def ownInv_def)

lemma slotInv_deliver:
  assumes "pendInv s" and "slotInv s" shows "slotInv (deliver req m s)"
proof -
  have "sl < nextSlot s" if "pending s req = Some sl" for sl
    using assms that unfolding pendInv_def slotInv_def by blast
  with assms(2) show ?thesis unfolding slotInv_def by (auto simp: deliver_chans split: if_splits)
qed

lemma provInv_deliver:
  assumes pend: "pendInv s" and slot: "slotInv s" and prov: "provInv D s"
    and D: "Deliver req m \<in> D"
  shows "provInv D (deliver req m s)"
proof -
  have own: "scReqId k = req" if k: "calls s c = Some k" "pending s req = Some (scSlot k)" for c k
  proof -
    from pend k(2) obtain c' k' where "calls s c' = Some k'" "scReqId k' = req" "scSlot k' = scSlot k"
      unfolding pendInv_def by blast
    moreover from this k(1) slot have "c' = c" unfolding slotInv_def by blast
    ultimately show ?thesis using k(1) by simp
  qed
  show ?thesis
    using prov D own unfolding provInv_def by (auto simp: deliver_chans split: if_splits)
qed

subsection \<open>Runs\<close>

lemma no_answer [simp]:
  "snd (sendFailed rec e) \<noteq> Inr r" "snd (ctxResult rec reqId e) \<noteq> Inr r"
  by (simp_all add: sendFailed_def ctxResult_def)

lemma provInv_finish_error:
  assumes "provInv D s" and "calls s c = Some k" and "\<And>r. snd res \<noteq> Inr r"
  shows "provInv D (finishSend c k res s)"
  by (rule provInv_finish [OF assms(1,2)]) (simp add: assms(3))

lemma routerStep_inv:
  assumes inv: "pendInv s" "slotInv s" "provInv D s" and st: "routerStep s e = Some s'" and D: "e \<in> D"
  shows "pendInv s' \<and> slotInv s' \<and> provInv D s'"
proof (cases e)
  case (BeginSend c req rec tool args)
  with st have "calls s c = None" "s' = beginSend c req rec tool args s" by (auto split: if_splits)
  with inv show ?thesis by (simp add: pendInv_begin slotInv_begin provInv_begin)
next
  case (Transmit c err)
  with st obtain k where k: "calls s c = Some k" by (auto split: option.splits)
  show ?thesis
  proof (cases err)
    case None
    with Transmit st k have "s' = s\<lparr>calls := (calls s)(c \<mapsto> k\<lparr>scPhase := Waiting\<rparr>)\<rparr>
        \<lparr>wire := wire s @ [(routeStream (scRec k),
           toolRequestMsg (scRec k) (scReqId k) (scTool k) (scArgs k))]\<rparr>"
      by (auto split: if_splits)
    with inv k show ?thesis by (simp only: inv_wire pendInv_waiting slotInv_waiting provInv_waiting)
  next
    case (Some x)
    with Transmit st k have "s' = finishSend c k (sendFailed (scRec k) x) s"
      by (auto split: if_splits)
    with inv k show ?thesis
      by (simp add: pendInv_finish slotInv_finish provInv_finish_error)
  qed
next
  case (CtxDone c x)
  with st obtain k where k: "calls s c = Some k" "s' = finishSend c k (ctxResult (scRec k) (scReqId k) x)
      (s\<lparr>wire := wire s @ [(routeStream (scRec k), CancelRequest (scReqId k))]\<rparr>)"
    by (auto split: option.splits if_splits)
  with inv show ?thesis
    by (simp add: pendInv_finish slotInv_finish provInv_finish_error)
next
  case (Receive c)
  with st obtain k m where k: "calls s c = Some k" "chans s (scSlot k) = Some m"
    "s' = finishSend c k (msgResult m) (s\<lparr>chans := (chans s)(scSlot k := None)\<rparr>)"
    by (auto split: option.splits if_splits)
  moreover have "\<exists>i. Deliver (scReqId k) (ToolResponse i r) \<in> D" if "snd (msgResult m) = Inr r" for r
  proof -
    from that obtain i where "m = ToolResponse i r" by (cases m) auto
    moreover have "Deliver (scReqId k) m \<in> D" using inv(3) k unfolding provInv_def by blast
    ultimately show ?thesis by blast
  qed
  ultimately show ?thesis
    using inv by (simp add: pendInv_finish slotInv_finish provInv_finish inv_empty)
next
  case (Deliver req m)
  with st D inv show ?thesis by (auto simp: inv_deliver slotInv_deliver provInv_deliver)
qed

lemma runRouter_inv:
  "runRouter s es = Some s' \<Longrightarrow> pendInv s \<Longrightarrow> slotInv s \<Longrightarrow> provInv D s \<Longrightarrow> set es \<subseteq> D \<Longrightarrow>
   pendInv s' \<and> slotInv s' \<and> provInv D s'"
proof (induction es arbitrary: s)
  case (Cons e es)
  then obtain s1 where s1: "routerStep s e = Some s1" "runRouter s1 es = Some s'"
    by (auto split: option.splits)
  with Cons.prems have "pendInv s1 \<and> slotInv s1 \<and> provInv D s1" by (intro routerStep_inv) auto
  with Cons.IH [OF s1(2)] Cons.prems show ?case by auto
qed simp

fun beginIds :: "routerEvent list \<Rightarrow> string list" where
  "beginIds [] = []"
| "beginIds (BeginSend _ req _ _ _ # es) = req # beginIds es"
| "beginIds (_ # es) = beginIds es"

lemma routerStep_own:
  assumes own: "ownInv U s" and st: "routerStep s e = Some s'" and fr: "set (beginIds [e]) \<inter> U = {}"
  shows "ownInv (set (beginIds [e]) \<union> U) s'"
proof (cases e)
  case (BeginSend c req rec tool args)
  with st fr have "req \<notin> U" "s' = beginSend c req rec tool args s" by (auto split: if_splits)
  with own BeginSend show ?thesis by (simp add: ownInv_begin)
next
  case (Transmit c err)
  with st obtain k where k: "calls s c = Some k" "scPhase k = Registered"
    by (auto split: option.splits if_splits)
  show ?thesis
  proof (cases err)
    case None
    with Transmit st k have "s' = s\<lparr>calls := (calls s)(c \<mapsto> k\<lparr>scPhase := Waiting\<rparr>)\<rparr>
        \<lparr>wire := wire s @ [(routeStream (scRec k),
           toolRequestMsg (scRec k) (scReqId k) (scTool k) (scArgs k))]\<rparr>"
      by auto
    with own k show ?thesis
      by (simp only: inv_wire Transmit beginIds.simps list.set Un_empty_left)
        (simp add: ownInv_waiting)
  next
    case (Some x)
    with Transmit st k have "s' = finishSend c k (sendFailed (scRec k) x) s" by auto
    with own k Transmit show ?thesis by (simp add: ownInv_finish)
  qed
next
  case (CtxDone c x)
  with st own show ?thesis by (auto simp: ownInv_finish split: option.splits if_splits)
next
  case (Receive c)
  with st own show ?thesis by (auto simp: ownInv_finish inv_empty split: option.splits if_splits)
next
  case (Deliver req m)
  with st own show ?thesis by (auto simp: inv_deliver)
qed

lemma runRouter_own:
  "runRouter s es = Some s' \<Longrightarrow> ownInv U s \<Longrightarrow> distinct (beginIds es) \<Longrightarrow>
   set (beginIds es) \<inter> U = {} \<Longrightarrow> \<exists>V. ownInv V s'"
proof (induction es arbitrary: s U)
  case (Cons e es)
  then obtain s1 where s1: "routerStep s e = Some s1" "runRouter s1 es = Some s'"
    by (auto split: option.splits)
  have split: "beginIds (e # es) = beginIds [e] @ beginIds es" by (cases e) simp_all
  have "ownInv (set (beginIds [e]) \<union> U) s1"
    using Cons.prems s1(1) split by (intro routerStep_own) auto
  with Cons.IH [OF s1(2)] Cons.prems split show ?case by auto
qed auto

section \<open>Properties\<close>

lemma runRouter_append:
  "runRouter s (es @ fs) = (case runRouter s es of None \<Rightarrow> None | Some s1 \<Rightarrow> runRouter s1 fs)"
  by (induction es arbitrary: s) (auto split: option.splits)

text \<open>\<open>routerSend\<close> is what the events of one call on its own amount to.\<close>

fun awaitEvents :: "nat \<Rightarrow> string \<Rightarrow> await \<Rightarrow> routerEvent list" where
  "awaitEvents c req (Answer m) = [Deliver req m, Receive c]"
| "awaitEvents c req (CtxEnds e) = [CtxDone c e]"

definition singleCall ::
  "nat \<Rightarrow> agentRecord \<Rightarrow> string \<Rightarrow> string \<Rightarrow> jtext \<Rightarrow> goerr option \<Rightarrow> await \<Rightarrow> routerEvent list" where
  "singleCall c rec req tool args se aw =
     [BeginSend c req rec tool args, Transmit c se] @
     (if se = None then awaitEvents c req aw else [])"

lemma singleCall_run:
  assumes "calls s c = None" and "chans s (nextSlot s) = None"
  shows "\<exists>s' k. runRouter s (singleCall c rec req tool args se aw) = Some s' \<and>
     calls s' c = Some k \<and>
     scPhase k = Returned (snd (snd (routerSend rec req tool args se aw))) \<and>
     map snd (wire s') = map snd (wire s) @ fst (routerSend rec req tool args se aw) \<and>
     toolRequests s' = toolRequests s @ [(tool, fst (snd (routerSend rec req tool args se aw)))] \<and>
     pending s' = (pending s)(req := None)"
  using assms
  by (cases se; cases aw)
    (simp_all add: singleCall_def beginSend_def finishSend_def deliver_def routerSend_def Let_def)

lemma reachable_inv:
  assumes "runRouter routerInit es = Some s"
  shows "pendInv s" "slotInv s" "provInv (set es) s"
  using runRouter_inv [OF assms routerInv_init(1) routerInv_init(2) routerInv_init(3), of "set es"]
  by simp_all

text \<open>
  Property C1: in every interleaving of calls of \<open>Send\<close> with deliveries, a call that returns an
  answer returns the content of a tool response delivered under its own request id, and the map
  \<open>pending\<close> holds no entry that does not belong to a call still in flight.
\<close>

theorem send_answer_provenance:
  assumes "runRouter routerInit es = Some s"
  shows "(\<forall>c k r. calls s c = Some k \<longrightarrow> scPhase k = Returned (Inr r) \<longrightarrow>
            (\<exists>i. Deliver (scReqId k) (ToolResponse i r) \<in> set es)) \<and>
         (\<forall>req sl. pending s req = Some sl \<longrightarrow>
            (\<exists>c k. calls s c = Some k \<and> scReqId k = req \<and> scSlot k = sl \<and> inFlight k))"
  using reachable_inv [OF assms] unfolding provInv_def pendInv_def by blast

theorem send_answer_provenance_witness:
  "\<exists>s. runRouter routerInit (singleCall 7 (exRecord ''a'' 1) ''q1'' ''fs.read'' (JRaw ''x'') None
        (Answer (ToolResponse ''q1'' (JRaw ''ok'')))) = Some s \<and>
      Deliver ''q1'' (ToolResponse ''q1'' (JRaw ''ok'')) \<in>
        set (singleCall 7 (exRecord ''a'' 1) ''q1'' ''fs.read'' (JRaw ''x'') None
        (Answer (ToolResponse ''q1'' (JRaw ''ok'')))) \<and>
      pending s ''q1'' = None \<and>
      (\<forall>req sl. pending s req = Some sl \<longrightarrow>
         (\<exists>c k. calls s c = Some k \<and> scReqId k = req \<and> scSlot k = sl \<and> inFlight k))"
proof -
  let ?es = "singleCall 7 (exRecord ''a'' 1) ''q1'' ''fs.read'' (JRaw ''x'') None
        (Answer (ToolResponse ''q1'' (JRaw ''ok'')))"
  obtain s where s: "runRouter routerInit ?es = Some s" "pending s ''q1'' = None"
    using singleCall_run [of routerInit 7 "exRecord ''a'' 1" "''q1''" "''fs.read''" "JRaw ''x''" None
        "Answer (ToolResponse ''q1'' (JRaw ''ok''))"] by (fastforce simp: routerInit_def)
  show ?thesis
    using s send_answer_provenance [OF s(1)] by (intro exI [of _ s]) (simp add: singleCall_def)
qed

text \<open>
  Property C2: when no request id is used twice, a response delivered for a call that waits
  reaches exactly that call: the call returns the response's result, a second response for the
  same request is dropped, the pending entry is gone and no other call changes.
\<close>

theorem delivered_response_returned:
  assumes run: "runRouter routerInit es = Some s" and ids: "distinct (beginIds es)"
    and k: "calls s c = Some k" "scPhase k = Waiting" "chans s (scSlot k) = None"
  shows "\<exists>s'. runRouter s [Deliver (scReqId k) m, Deliver (scReqId k) m', Receive c] = Some s' \<and>
      calls s' = (calls s)(c \<mapsto> k\<lparr>scPhase := Returned (snd (msgResult m))\<rparr>) \<and>
      pending s' (scReqId k) = None"
proof -
  obtain V where "ownInv V s"
    using runRouter_own [OF run routerInv_init(4) ids, of "{}"] by auto
  with k have "pending s (scReqId k) = Some (scSlot k)" unfolding ownInv_def by simp
  with k show ?thesis by (simp add: finishSend_def deliver_chans)
qed

theorem delivered_response_returned_witness:
  "\<exists>s k s'. runRouter routerInit
        [BeginSend 0 ''q1'' (exRecord ''a'' 1) ''fs.stat'' (JRaw ''x''),
         BeginSend 1 ''q2'' (exRecord ''b'' 2) ''fs.stat'' (JRaw ''x''),
         Transmit 1 None, Transmit 0 None] = Some s \<and> calls s 0 = Some k \<and>
      runRouter s [Deliver (scReqId k) (ToolResponse ''q1'' (JRaw ''ok'')),
         Deliver (scReqId k) EmptyPayload, Receive 0] = Some s' \<and>
      calls s' 0 = Some (k\<lparr>scPhase := Returned (Inr (JRaw ''ok''))\<rparr>)"
proof -
  let ?es = "[BeginSend 0 ''q1'' (exRecord ''a'' 1) ''fs.stat'' (JRaw ''x''),
         BeginSend 1 ''q2'' (exRecord ''b'' 2) ''fs.stat'' (JRaw ''x''),
         Transmit 1 None, Transmit 0 None]"
  have "\<exists>s k. runRouter routerInit ?es = Some s \<and> calls s 0 = Some k \<and> scPhase k = Waiting \<and>
      chans s (scSlot k) = None"
    by (simp add: beginSend_def routerInit_def)
  then obtain s k where s: "runRouter routerInit ?es = Some s" and
    k: "calls s 0 = Some k" "scPhase k = Waiting" "chans s (scSlot k) = None" by blast
  have d: "distinct (beginIds ?es)" by simp
  obtain s' where s': "runRouter s [Deliver (scReqId k) (ToolResponse ''q1'' (JRaw ''ok'')),
         Deliver (scReqId k) EmptyPayload, Receive 0] = Some s'"
    and c: "calls s' = (calls s)(0 \<mapsto> k\<lparr>scPhase :=
         Returned (snd (msgResult (ToolResponse ''q1'' (JRaw ''ok''))))\<rparr>)"
    using delivered_response_returned [OF s d k] by blast
  from c have "calls s' 0 = Some (k\<lparr>scPhase := Returned (Inr (JRaw ''ok''))\<rparr>)" by simp
  with s k(1) s' show ?thesis by blast
qed


text \<open>
  When the context of a waiting call ends, the call sends a cancel request with its
  own request id on the node's stream, returns an error that is \<open>ErrRouterCanceled\<close> exactly when
  the context was cancelled and \<open>ErrRouterTimeout\<close> exactly when it was not, removes its pending
  entry and counts the request once; an answer that arrives afterwards changes nothing.
\<close>

theorem send_context_end:
  assumes "calls s c = Some k" and "scPhase k = Waiting"
  shows "\<exists>s' err. routerStep s (CtxDone c e) = Some s' \<and>
      calls s' c = Some (k\<lparr>scPhase := Returned (Inl err)\<rparr>) \<and>
      errIs err ErrRouterCanceled = errIs e CtxCanceled \<and>
      errIs err ErrRouterTimeout = (\<not> errIs e CtxCanceled) \<and>
      wire s' = wire s @ [(routeStream (scRec k), CancelRequest (scReqId k))] \<and>
      map fst (toolRequests s') = map fst (toolRequests s) @ [scTool k] \<and>
      (\<forall>m. routerStep s' (Deliver (scReqId k) m) = Some s')"
proof -
  obtain err where err: "snd (ctxResult (scRec k) (scReqId k) e) = Inl err"
    "errIs err ErrRouterCanceled = errIs e CtxCanceled"
    "errIs err ErrRouterTimeout = (\<not> errIs e CtxCanceled)"
    by (cases "errIs e CtxCanceled") (simp_all add: ctxResult_def)
  with assms show ?thesis
    by (intro exI [of _ "the (routerStep s (CtxDone c e))"] exI [of _ err])
      (simp add: finishSend_def deliver_def)
qed

theorem send_context_end_witness:
  "\<exists>s s' err. runRouter routerInit
        [BeginSend 0 ''q1'' (exRecord ''a'' 1) ''fs.stat'' (JRaw ''x''), Transmit 0 None] = Some s \<and>
      routerStep s (CtxDone 0 CtxDeadlineExceeded) = Some s' \<and>
      map_option scPhase (calls s' 0) = Some (Returned (Inl err)) \<and> errIs err ErrRouterTimeout"
proof -
  have "\<exists>s k. runRouter routerInit
        [BeginSend 0 ''q1'' (exRecord ''a'' 1) ''fs.stat'' (JRaw ''x''), Transmit 0 None] = Some s \<and>
      calls s 0 = Some k \<and> scPhase k = Waiting"
    by (simp add: beginSend_def routerInit_def)
  then obtain s k where s: "runRouter routerInit
        [BeginSend 0 ''q1'' (exRecord ''a'' 1) ''fs.stat'' (JRaw ''x''), Transmit 0 None] = Some s"
    and k: "calls s 0 = Some k" "scPhase k = Waiting" by blast
  have "\<not> errIs CtxDeadlineExceeded CtxCanceled" by simp
  with send_context_end [OF k, of CtxDeadlineExceeded] s show ?thesis by fastforce
qed

end
