(* ===== verification/Store.thy ===== *)
theory Store
  imports AgentRegistry
begin

text \<open>
  Package \<open>sysplane-center/store\<close>: the three tables of \<open>schema.sql\<close> and the SQL statements of
  \<open>store.go\<close>, with \<open>INSERT .. ON CONFLICT\<close>, \<open>UPDATE .. WHERE\<close> and \<open>DELETE\<close> on maps from the
  primary key.  A statement can fail before it ran, or run and have its answer lost; what
  happens is the argument of type \<open>sqlOutcome\<close>.  The interfaces through which the rest of center
  uses the store (\<open>AgentPersister\<close> and \<open>CallLogger\<close>) are locales, interpreted on the tables.
\<close>

record agentRow =
  arHostname :: string
  arIp :: string
  arOs :: string
  arAgentVersion :: string
  arNodeType :: string
  arProxyPath :: "string list"
  arCenterId :: string
  arStatus :: string
  arRegisteredAt :: int
  arLastHeartbeat :: int

record centerRow =
  cnInternalAddress :: string
  cnLastHeartbeat :: int

record toolCallLog =
  tlCenterId :: string
  tlTargetHost :: string
  tlToolName :: string
  tlArgsJson :: jtext
  tlResultJson :: "jtext option"
  tlErrorMsg :: "string option"
  tlStartedAt :: int
  tlCompletedAt :: "int option"

record database =
  agentInstances :: "string \<Rightarrow> agentRow option"
  centerInstances :: "string \<Rightarrow> centerRow option"
  toolCallLogs :: "string \<Rightarrow> toolCallLog option"

definition emptyDb :: database where
  "emptyDb = \<lparr>agentInstances = (\<lambda>_. None), centerInstances = (\<lambda>_. None), toolCallLogs = (\<lambda>_. None)\<rparr>"

datatype sqlOutcome = SqlDone | SqlNotDone goerr | SqlLost goerr

text \<open>
  \<open>New\<close>: the package \<open>pgxpool\<close> parses the address, which gives a number of connections, and connects.
  The result is the number of connections of the pool.
\<close>

record poolEnv =
  peParse :: "string \<Rightarrow> goerr + int"
  peConnect :: "goerr option"
  pePing :: "goerr option"

definition storeNew :: "poolEnv \<Rightarrow> string \<Rightarrow> int \<Rightarrow> goerr + int" where
  "storeNew env dsn maxConns =
     (case peParse env dsn of
        Inl e \<Rightarrow> Inl (ErrWrap ''store: parse DSN: '' e)
      | Inr n \<Rightarrow>
          (let conns = (if maxConns > 0 then maxConns else n) in
           case peConnect env of
             Some e \<Rightarrow> Inl (ErrWrap ''store: connect: '' e)
           | None \<Rightarrow>
               (case pePing env of
                  Some e \<Rightarrow> Inl (ErrWrap ''store: ping: '' e)
                | None \<Rightarrow> Inr conns)))"

text \<open>\<open>Migrate\<close> creates the tables if they are missing; the model starts with tables.\<close>

definition migrate :: "goerr option \<Rightarrow> goerr option" where
  "migrate execErr = execErr"

text \<open>\<open>pool.Exec\<close> of a statement that maps the tables by \<open>f\<close>: the tables and the error.\<close>

fun execSql :: "sqlOutcome \<Rightarrow> (database \<Rightarrow> database) \<Rightarrow> database \<Rightarrow> database \<times> goerr option" where
  "execSql SqlDone f db = (f db, None)"
| "execSql (SqlNotDone e) f db = (db, Some e)"
| "execSql (SqlLost e) f db = (f db, Some e)"

definition statusCheck :: goerr where
  "statusCheck = ErrText ''ERROR: new row for relation \"agent_instances\" violates check constraint \"agent_instances_status_check\" (SQLSTATE 23514)''"

section \<open>agent_instances\<close>

definition upsertAgent :: "agentRow \<Rightarrow> sqlOutcome \<Rightarrow> database \<Rightarrow> database \<times> goerr option" where
  "upsertAgent row oc db =
     (if arStatus row \<in> {''online'', ''offline''}
      then execSql oc (\<lambda>db. db\<lparr>agentInstances := (agentInstances db)(arHostname row \<mapsto> row)\<rparr>) db
      else (db, Some statusCheck))"

definition updateAgentHeartbeat ::
  "int \<Rightarrow> string \<Rightarrow> sqlOutcome \<Rightarrow> database \<Rightarrow> database \<times> goerr option" where
  "updateAgentHeartbeat now h oc db =
     execSql oc (\<lambda>db. db\<lparr>agentInstances := (agentInstances db)(h :=
       map_option (\<lambda>r. r\<lparr>arLastHeartbeat := now, arStatus := ''online''\<rparr>) (agentInstances db h))\<rparr>) db"

definition setAgentOffline :: "string \<Rightarrow> sqlOutcome \<Rightarrow> database \<Rightarrow> database \<times> goerr option" where
  "setAgentOffline h oc db =
     execSql oc (\<lambda>db. db\<lparr>agentInstances := (agentInstances db)(h :=
       map_option (\<lambda>r. r\<lparr>arStatus := ''offline''\<rparr>) (agentInstances db h))\<rparr>) db"

definition deleteAgent :: "string \<Rightarrow> sqlOutcome \<Rightarrow> database \<Rightarrow> database \<times> goerr option" where
  "deleteAgent h oc db =
     execSql oc (\<lambda>db. db\<lparr>agentInstances := (agentInstances db)(h := None)\<rparr>) db"

text \<open>The queries; \<open>qerr\<close> is an error of the database other than \<open>pgx.ErrNoRows\<close>.\<close>

definition getAgent :: "string \<Rightarrow> goerr option \<Rightarrow> database \<Rightarrow> goerr + agentRow" where
  "getAgent h qerr db =
     (case qerr of
        Some e \<Rightarrow> Inl e
      | None \<Rightarrow> (case agentInstances db h of None \<Rightarrow> Inl ErrStoreNotFound | Some row \<Rightarrow> Inr row))"

section \<open>center_instances\<close>

definition upsertCenter ::
  "int \<Rightarrow> string \<Rightarrow> string \<Rightarrow> sqlOutcome \<Rightarrow> database \<Rightarrow> database \<times> goerr option" where
  "upsertCenter now i addr oc db =
     execSql oc (\<lambda>db. db\<lparr>centerInstances := (centerInstances db)(i \<mapsto>
       \<lparr>cnInternalAddress = addr, cnLastHeartbeat = now\<rparr>)\<rparr>) db"

definition deleteCenter :: "string \<Rightarrow> sqlOutcome \<Rightarrow> database \<Rightarrow> database \<times> goerr option" where
  "deleteCenter i oc db =
     execSql oc (\<lambda>db. db\<lparr>centerInstances := (centerInstances db)(i := None)\<rparr>) db"

definition getCenterAddress :: "string \<Rightarrow> goerr option \<Rightarrow> database \<Rightarrow> goerr + string" where
  "getCenterAddress i qerr db =
     (case qerr of
        Some e \<Rightarrow> Inl e
      | None \<Rightarrow>
          (case centerInstances db i of
             None \<Rightarrow> Inl ErrStoreNotFound
           | Some row \<Rightarrow> Inr (cnInternalAddress row)))"

section \<open>tool_call_logs\<close>

definition insertToolCallLog ::
  "int \<Rightarrow> string \<Rightarrow> string \<Rightarrow> string \<Rightarrow> string \<Rightarrow> jtext \<Rightarrow> sqlOutcome \<Rightarrow> database \<Rightarrow>
   database \<times> goerr option" where
  "insertToolCallLog now req center host tool args oc db =
     execSql oc (\<lambda>db.
       case toolCallLogs db req of
         Some _ \<Rightarrow> db
       | None \<Rightarrow> db\<lparr>toolCallLogs := (toolCallLogs db)(req \<mapsto>
           \<lparr>tlCenterId = center, tlTargetHost = host, tlToolName = tool, tlArgsJson = args,
            tlResultJson = None, tlErrorMsg = None, tlStartedAt = now, tlCompletedAt = None\<rparr>)\<rparr>) db"

definition completeToolCallLog ::
  "int \<Rightarrow> string \<Rightarrow> jtext \<Rightarrow> string \<Rightarrow> sqlOutcome \<Rightarrow> database \<Rightarrow> database \<times> goerr option" where
  "completeToolCallLog now req res err oc db =
     execSql oc (\<lambda>db. db\<lparr>toolCallLogs := (toolCallLogs db)(req :=
       map_option (\<lambda>l. l\<lparr>tlResultJson := Some res, tlErrorMsg := Some err, tlCompletedAt := Some now\<rparr>)
         (toolCallLogs db req))\<rparr>) db"

lemmas agentSql = upsertAgent_def updateAgentHeartbeat_def setAgentOffline_def deleteAgent_def
lemmas logSql = insertToolCallLog_def completeToolCallLog_def

section \<open>The interface AgentPersister\<close>

text \<open>
  What the tunnel service relies on: the row after each operation that reported no error, and
  that no operation touches the row of another node.
\<close>

locale agent_persister =
  fixes row :: "'d \<Rightarrow> string \<Rightarrow> agentRow option"
    and upsert :: "agentRow \<Rightarrow> sqlOutcome \<Rightarrow> 'd \<Rightarrow> 'd \<times> goerr option"
    and touch :: "int \<Rightarrow> string \<Rightarrow> sqlOutcome \<Rightarrow> 'd \<Rightarrow> 'd \<times> goerr option"
    and offline :: "string \<Rightarrow> sqlOutcome \<Rightarrow> 'd \<Rightarrow> 'd \<times> goerr option"
  assumes upsert_ok: "arStatus r = ''online'' \<Longrightarrow> snd (upsert r oc d) = None \<Longrightarrow>
        row (fst (upsert r oc d)) = (row d)(arHostname r \<mapsto> r)"
    and upsert_other: "h \<noteq> arHostname r \<Longrightarrow> row (fst (upsert r oc d)) h = row d h"
    and touch_ok: "snd (touch now h oc d) = None \<Longrightarrow> row (fst (touch now h oc d)) h =
        map_option (\<lambda>r. r\<lparr>arLastHeartbeat := now, arStatus := ''online''\<rparr>) (row d h)"
    and touch_other: "h' \<noteq> h \<Longrightarrow> row (fst (touch now h oc d)) h' = row d h'"
    and offline_ok: "snd (offline h oc d) = None \<Longrightarrow> row (fst (offline h oc d)) h =
        map_option (\<lambda>r. r\<lparr>arStatus := ''offline''\<rparr>) (row d h)"
    and offline_other: "h' \<noteq> h \<Longrightarrow> row (fst (offline h oc d)) h' = row d h'"
begin

text \<open>The two background updates of one node do not commute: the later one decides the status.\<close>

lemma last_update_wins:
  assumes "row d h = Some r" and "snd (touch now h SqlDone (fst (offline h SqlDone d))) = None"
    and "snd (offline h SqlDone d) = None"
  shows "row (fst (touch now h SqlDone (fst (offline h SqlDone d)))) h
    = Some (r\<lparr>arLastHeartbeat := now, arStatus := ''online''\<rparr>)"
  using assms by (simp add: touch_ok offline_ok)

end

lemma execSql_cases:
  "execSql oc f db = (if \<exists>e. oc = SqlNotDone e then db else f db,
     case oc of SqlDone \<Rightarrow> None | SqlNotDone e \<Rightarrow> Some e | SqlLost e \<Rightarrow> Some e)"
  by (cases oc) auto

interpretation pg: agent_persister agentInstances upsertAgent updateAgentHeartbeat setAgentOffline
  by unfold_locales
    (auto simp: agentSql execSql_cases statusCheck_def split: sqlOutcome.splits if_splits)

section \<open>The interface CallLogger\<close>

text \<open>
  What the callers of a \<open>CallLogger\<close> rely on: a request that is new gets a row with its
  arguments, a request that is known keeps its row, and completing fills in the outcome.
\<close>

locale call_logger =
  fixes log :: "'d \<Rightarrow> string \<Rightarrow> toolCallLog option"
    and insertLog :: "int \<Rightarrow> string \<Rightarrow> string \<Rightarrow> string \<Rightarrow> string \<Rightarrow> jtext \<Rightarrow> sqlOutcome \<Rightarrow> 'd \<Rightarrow>
          'd \<times> goerr option"
    and completeLog :: "int \<Rightarrow> string \<Rightarrow> jtext \<Rightarrow> string \<Rightarrow> sqlOutcome \<Rightarrow> 'd \<Rightarrow> 'd \<times> goerr option"
  assumes insert_new: "log d req = None \<Longrightarrow> log (fst (insertLog now req c h t a SqlDone d)) req =
        Some \<lparr>tlCenterId = c, tlTargetHost = h, tlToolName = t, tlArgsJson = a,
          tlResultJson = None, tlErrorMsg = None, tlStartedAt = now, tlCompletedAt = None\<rparr>"
    and insert_known: "log d req = Some l \<Longrightarrow> log (fst (insertLog now req c h t a oc d)) req = Some l"
    and insert_other: "r \<noteq> req \<Longrightarrow> log (fst (insertLog now req c h t a oc d)) r = log d r"
    and complete_this: "log (fst (completeLog now req res err SqlDone d)) req =
        map_option (\<lambda>l. l\<lparr>tlResultJson := Some res, tlErrorMsg := Some err,
          tlCompletedAt := Some now\<rparr>) (log d req)"
    and complete_other: "r \<noteq> req \<Longrightarrow> log (fst (completeLog now req res err oc d)) r = log d r"
begin

text \<open>One call bracketed by the two operations.\<close>

definition bracket ::
  "int \<Rightarrow> int \<Rightarrow> string \<Rightarrow> string \<Rightarrow> string \<Rightarrow> string \<Rightarrow> jtext \<Rightarrow> jtext \<Rightarrow> string \<Rightarrow> 'd \<Rightarrow> 'd" where
  "bracket t0 t1 req c h t a res err d =
     fst (completeLog t1 req res err SqlDone (fst (insertLog t0 req c h t a SqlDone d)))"

lemma bracket_new:
  assumes "log d req = None"
  shows "log (bracket t0 t1 req c h t a res err d) req =
    Some \<lparr>tlCenterId = c, tlTargetHost = h, tlToolName = t, tlArgsJson = a,
      tlResultJson = Some res, tlErrorMsg = Some err, tlStartedAt = t0, tlCompletedAt = Some t1\<rparr>"
  using assms by (simp add: bracket_def complete_this insert_new)

lemma bracket_other: "r \<noteq> req \<Longrightarrow> log (bracket t0 t1 req c h t a res err d) r = log d r"
  by (simp add: bracket_def complete_other insert_other)

text \<open>
  A second call under the same request id keeps the first call's target, tool and arguments
  and shows the second call's outcome.
\<close>

lemma bracket_reused:
  assumes "log d req = Some l"
  shows "log (bracket t0 t1 req c h t a res err d) req =
    Some (l\<lparr>tlResultJson := Some res, tlErrorMsg := Some err, tlCompletedAt := Some t1\<rparr>)"
  using assms by (simp add: bracket_def complete_this insert_known)

end

interpretation pgLog: call_logger toolCallLogs insertToolCallLog completeToolCallLog
  by unfold_locales (auto simp: logSql execSql_cases split: option.splits)

end
