(* ===== verification/HighAvailability.thy ===== *)
theory HighAvailability
  imports Registry Router Store
begin

text \<open>
  Package \<open>sysplane-center/ha\<close> and the handler of \<open>/internal/forward\<close> in \<open>run.go\<close>: a center that
  does not know a node asks the store which center has it and sends that center the call over
  HTTP.  The HTTP client (\<open>http.NewRequest\<close> and \<open>client.Do\<close>) is an argument; the JSON bodies
  are the structures they encode.
\<close>

record forwardRequest =
  fqRequestId :: string
  fqToolName :: string
  fqArgsJson :: jtext
  fqTargetHost :: string

record forwardResponse =
  fpResultJson :: jtext
  fpError :: string

text \<open>The client: building a request for a URL, and sending it (by the client that skips
  certificate verification or not) with its headers and body; the answer is a status code and
  the decoded body.\<close>

record httpClient =
  newRequest :: "string \<Rightarrow> goerr option"
  doRequest :: "bool \<Rightarrow> string \<Rightarrow> (string \<times> string) list \<Rightarrow> forwardRequest \<Rightarrow>
                goerr + nat \<times> (goerr + forwardResponse)"

definition internalAuthHeader :: string where
  "internalAuthHeader = ''X-Internal-Auth''"

definition forwardUrl :: "bool \<Rightarrow> string \<Rightarrow> string" where
  "forwardUrl useTLS addr =
     (if useTLS then ''https'' else ''http'') @ ''://'' @ addr @ ''/internal/forward''"

definition forwardHeaders :: "string \<Rightarrow> (string \<times> string) list" where
  "forwardHeaders secret =
     (''Content-Type'', ''application/json'') #
     (if secret \<noteq> [] then [(internalAuthHeader, secret)] else [])"

definition rejected401 :: goerr where
  "rejected401 = ErrText (''ha: /internal/forward rejected (401 Unauthorized) '' @
     [CHR 0xE2, CHR 0x80, CHR 0x94] @ '' check ha.internal_secret config'')"

definition forwardToCenter ::
  "httpClient \<Rightarrow> string \<Rightarrow> string \<Rightarrow> forwardRequest \<Rightarrow> bool \<Rightarrow> bool \<Rightarrow> goerr + jtext" where
  "forwardToCenter net addr secret req useTLS skipVerify =
     (case newRequest net (forwardUrl useTLS addr) of
        Some e \<Rightarrow> Inl (ErrWrap ''ha: build forward request: '' e)
      | None \<Rightarrow>
          (case doRequest net (useTLS \<and> skipVerify) (forwardUrl useTLS addr) (forwardHeaders secret) req of
             Inl e \<Rightarrow> Inl (ErrWrap ''ha: forward request: '' e)
           | Inr (code, body) \<Rightarrow>
               if code = 401 then Inl rejected401
               else
                 (case body of
                    Inl e \<Rightarrow> Inl (ErrWrap ''ha: decode response: '' e)
                  | Inr resp \<Rightarrow>
                      if fpError resp \<noteq> [] then Inl (ErrText (''ha: remote error: '' @ fpError resp))
                      else Inr (fpResultJson resp))))"

record routerBridge =
  rbInstanceId :: string
  rbSecret :: string
  rbUseTLS :: bool
  rbSkipVerify :: bool

text \<open>\<open>ForwardIfNeeded\<close>: the result, whether the call was forwarded, and the error.\<close>

definition forwardIfNeeded ::
  "httpClient \<Rightarrow> routerBridge \<Rightarrow> goerr option \<Rightarrow> goerr option \<Rightarrow> database \<Rightarrow>
   string \<Rightarrow> string \<Rightarrow> string \<Rightarrow> jtext \<Rightarrow> jtext \<times> bool \<times> goerr option" where
  "forwardIfNeeded net b agentErr centerErr db req host tool args =
     (case getAgent host agentErr db of
        Inl e \<Rightarrow>
          if errIs e ErrStoreNotFound then (JRaw [], False, None)
          else (JRaw [], True, Some (ErrWrap (''ha: query agent '' @ host @ '': '') e))
      | Inr row \<Rightarrow>
          if arCenterId row = rbInstanceId b then (JRaw [], False, None)
          else
            (case getCenterAddress (arCenterId row) centerErr db of
               Inl e \<Rightarrow> (JRaw [], False,
                 Some (ErrWrap (''ha: center instance '' @ arCenterId row @ '' address not found: '') e))
             | Inr addr \<Rightarrow>
                 (case forwardToCenter net addr (rbSecret b)
                        \<lparr>fqRequestId = req, fqToolName = tool, fqArgsJson = args, fqTargetHost = host\<rparr>
                        (rbUseTLS b) (rbSkipVerify b) of
                    Inl e \<Rightarrow> (JRaw [], True, Some e)
                  | Inr r \<Rightarrow> (r, True, None))))"

section \<open>The receiving center\<close>

datatype forwardReply = PlainReply nat string | JsonReply forwardResponse

text \<open>The optional call logger.\<close>

fun logInsert ::
  "int \<Rightarrow> string \<Rightarrow> string \<Rightarrow> string \<Rightarrow> string \<Rightarrow> jtext \<Rightarrow> sqlOutcome \<Rightarrow> database option \<Rightarrow> database option" where
  "logInsert now req center host tool args oc None = None"
| "logInsert now req center host tool args oc (Some db) =
     Some (fst (insertToolCallLog now req center host tool args oc db))"

fun logComplete ::
  "int \<Rightarrow> string \<Rightarrow> jtext \<Rightarrow> string \<Rightarrow> sqlOutcome \<Rightarrow> database option \<Rightarrow> database option" where
  "logComplete now req res err oc None = None"
| "logComplete now req res err oc (Some db) = Some (fst (completeToolCallLog now req res err oc db))"

text \<open>The result string and the error text of a call, as the log gets them.\<close>

fun resultText :: "goerr + jtext \<Rightarrow> jtext" where
  "resultText (Inl _) = JRaw []"
| "resultText (Inr r) = r"

fun errorText :: "goerr + jtext \<Rightarrow> string" where
  "errorText (Inl e) = errMsg e"
| "errorText (Inr _) = []"

text \<open>What happens around one call of the handler: times, store outcomes, the node's answer.\<close>

record callEnv =
  ceStart :: int
  ceEnd :: int
  ceInsert :: sqlOutcome
  ceComplete :: sqlOutcome
  ceSendErr :: "goerr option"
  ceAwait :: await

definition internalForward ::
  "registry \<Rightarrow> string \<Rightarrow> string \<Rightarrow> callEnv \<Rightarrow> string \<Rightarrow> string \<Rightarrow> forwardRequest option \<Rightarrow>
   database option \<Rightarrow> forwardReply \<times> tunnelMessage list \<times> database option" where
  "internalForward reg secret inst env meth auth body db =
     (if meth \<noteq> ''POST'' then (PlainReply 405 ''method not allowed'', [], db)
      else if secret \<noteq> [] \<and> auth \<noteq> secret then (PlainReply 401 ''unauthorized'', [], db)
      else
        (case body of
           None \<Rightarrow> (PlainReply 400 ''invalid request body'', [], db)
         | Some req \<Rightarrow>
             (case regLookup reg (fqTargetHost req) of
                None \<Rightarrow>
                  (JsonReply \<lparr>fpResultJson = JRaw [],
                     fpError = ''agent '' @ quoteStr (fqTargetHost req) @ '' not found''\<rparr>, [], db)
              | Some rec \<Rightarrow>
                  (let db1 = logInsert (ceStart env) (fqRequestId req) inst (fqTargetHost req)
                               (fqToolName req) (fqArgsJson req) (ceInsert env) db;
                       (msgs, label, res) = routerSend rec (fqRequestId req) (fqToolName req)
                               (fqArgsJson req) (ceSendErr env) (ceAwait env);
                       db2 = logComplete (ceEnd env) (fqRequestId req) (resultText res) (errorText res)
                               (ceComplete env) db1
                   in (case res of
                         Inl e \<Rightarrow> (JsonReply \<lparr>fpResultJson = JRaw [], fpError = errMsg e\<rparr>, msgs, db2)
                       | Inr r \<Rightarrow> (JsonReply \<lparr>fpResultJson = r, fpError = []\<rparr>, msgs, db2))))))"

text \<open>The reply as the client sees it: a plain body is not JSON.\<close>

fun replyAnswer :: "goerr \<Rightarrow> forwardReply \<Rightarrow> nat \<times> (goerr + forwardResponse)" where
  "replyAnswer notJson (PlainReply code m) = (code, Inl notJson)"
| "replyAnswer notJson (JsonReply r) = (200, Inr r)"

text \<open>A client that reaches the handler of a center with this registry and secret.\<close>

definition reaches ::
  "registry \<Rightarrow> string \<Rightarrow> string \<Rightarrow> callEnv \<Rightarrow> database option \<Rightarrow> goerr \<Rightarrow> httpClient" where
  "reaches reg secret inst env db notJson =
     \<lparr>newRequest = (\<lambda>_. None),
      doRequest = (\<lambda>_ _ hdrs req. Inr (replyAnswer notJson (fst (internalForward reg secret inst env ''POST''
        (case map_of hdrs internalAuthHeader of None \<Rightarrow> [] | Some v \<Rightarrow> v) (Some req) db))))\<rparr>"

section \<open>The registrar\<close>

datatype registrarEvent = RegistrarTick int sqlOutcome | RegistrarStop sqlOutcome

fun registrarStep :: "string \<Rightarrow> string \<Rightarrow> registrarEvent \<Rightarrow> database \<Rightarrow> database" where
  "registrarStep inst addr (RegistrarTick now oc) db = fst (upsertCenter now inst addr oc db)"
| "registrarStep inst addr (RegistrarStop oc) db = fst (deleteCenter inst oc db)"

definition registrarStart ::
  "string \<Rightarrow> string \<Rightarrow> int \<Rightarrow> sqlOutcome \<Rightarrow> database \<Rightarrow> database \<times> goerr option" where
  "registrarStart inst addr now oc db =
     (let (db', err) = upsertCenter now inst addr oc db
      in (db', map_option (ErrWrap ''ha: register center: '') err))"

text \<open>The goroutine: it stops at the first \<open>RegistrarStop\<close>.\<close>

fun registrarLoop :: "string \<Rightarrow> string \<Rightarrow> registrarEvent list \<Rightarrow> database \<Rightarrow> database" where
  "registrarLoop inst addr [] db = db"
| "registrarLoop inst addr (RegistrarStop oc # _) db = registrarStep inst addr (RegistrarStop oc) db"
| "registrarLoop inst addr (e # es) db = registrarLoop inst addr es (registrarStep inst addr e db)"

section \<open>Lemmas\<close>

lemma routerSend_error_text: "snd (snd (routerSend rec req tool args se aw)) = Inl e \<Longrightarrow> errMsg e \<noteq> []"
proof -
  have "errMsg e \<noteq> []" if "snd (sendFailed rec x) = Inl e" for x using that by (auto simp: sendFailed_def)
  moreover have "errMsg e \<noteq> []" if "snd (ctxResult rec req x) = Inl e" for x
    using that by (auto simp: ctxResult_def split: if_splits)
  moreover have "errMsg e \<noteq> []" if "snd (msgResult m) = Inl e" for m using that by (cases m) auto
  ultimately show "snd (snd (routerSend rec req tool args se aw)) = Inl e \<Longrightarrow> errMsg e \<noteq> []"
    by (auto simp: routerSend_def split: option.splits await.splits)
qed

lemma internalForward_found:
  assumes "regLookup reg (fqTargetHost req) = Some rec"
  shows "fst (internalForward reg secret inst env ''POST'' secret (Some req) db) =
    JsonReply (case snd (snd (routerSend rec (fqRequestId req) (fqToolName req) (fqArgsJson req)
                 (ceSendErr env) (ceAwait env))) of
       Inl e \<Rightarrow> \<lparr>fpResultJson = JRaw [], fpError = errMsg e\<rparr>
     | Inr r \<Rightarrow> \<lparr>fpResultJson = r, fpError = []\<rparr>)"
  using assms by (simp add: internalForward_def Let_def case_prod_beta split: sum.split)

lemma forwardHeaders_auth:
  "(case map_of (forwardHeaders secret) internalAuthHeader of None \<Rightarrow> [] | Some v \<Rightarrow> v) = secret"
  by (simp add: forwardHeaders_def internalAuthHeader_def)

lemma forwardToCenter_reaches:
  assumes "regLookup reg (fqTargetHost req) = Some rec"
  shows "forwardToCenter (reaches reg secret inst env db nj) addr secret req tls skip =
    (case snd (snd (routerSend rec (fqRequestId req) (fqToolName req) (fqArgsJson req)
            (ceSendErr env) (ceAwait env))) of
       Inl e \<Rightarrow> Inl (ErrText (''ha: remote error: '' @ errMsg e))
     | Inr r \<Rightarrow> Inr r)"
  using assms
  by (auto simp: forwardToCenter_def reaches_def forwardHeaders_auth internalForward_found
      routerSend_error_text split: sum.split)

lemma forwardToCenter_wrong_secret:
  assumes "secret' \<noteq> secret" and "secret \<noteq> []"
  shows "forwardToCenter (reaches reg secret inst env db nj) addr secret' req tls skip = Inl rejected401"
  using assms by (simp add: forwardToCenter_def reaches_def forwardHeaders_auth internalForward_def)

lemma registrarStep_address:
  "getCenterAddress inst None db = Inr addr \<Longrightarrow>
   getCenterAddress inst None (registrarStep inst addr (RegistrarTick now oc) db) = Inr addr"
  by (simp add: getCenterAddress_def upsertCenter_def execSql_cases split: option.splits)

lemma registrarLoop_ticks:
  assumes "\<forall>e \<in> set es. \<exists>now oc. e = RegistrarTick now oc" and "getCenterAddress inst None db = Inr addr"
  shows "getCenterAddress inst None (registrarLoop inst addr es db) = Inr addr"
  using assms
  by (induction es arbitrary: db) (auto simp: registrarStep_address simp del: registrarStep.simps)

lemma registrarLoop_append_stop:
  assumes "\<forall>e \<in> set es. \<exists>now oc. e = RegistrarTick now oc"
  shows "registrarLoop inst addr (es @ RegistrarStop oc # fs) db =
    fst (deleteCenter inst oc (registrarLoop inst addr es db))"
  using assms by (induction es arbitrary: db) auto

section \<open>Properties\<close>

text \<open>
  Property C23: forwarding is transparent for results.  When the store places the node on
  another center, that center's address is known, the two share the secret and the other center
  knows the node, then the caller gets exactly the result that the other center's own \<open>Send\<close>
  returns.  An error arrives as its text only: it no longer is \<open>ErrRouterTimeout\<close> or
  \<open>ErrRouterCanceled\<close>, whatever it was at the other center.
\<close>

theorem forwarded_call_transparent:
  assumes row: "agentInstances db host = Some row" "arCenterId row \<noteq> rbInstanceId b"
    and center: "centerInstances db (arCenterId row) = Some crow"
    and remote: "regLookup reg host = Some rec"
  shows "forwardIfNeeded (reaches reg (rbSecret b) inst env ldb nj) b None None db req host tool args =
    (case snd (snd (routerSend rec req tool args (ceSendErr env) (ceAwait env))) of
       Inr r \<Rightarrow> (r, True, None)
     | Inl e \<Rightarrow> (JRaw [], True, Some (ErrText (''ha: remote error: '' @ errMsg e)))) \<and>
    (\<forall>e. snd (snd (forwardIfNeeded (reaches reg (rbSecret b) inst env ldb nj) b None None db
            req host tool args)) = Some e \<longrightarrow>
       \<not> errIs e ErrRouterTimeout \<and> \<not> errIs e ErrRouterCanceled)"
  using assms
  by (auto simp add: forwardIfNeeded_def getAgent_def getCenterAddress_def forwardToCenter_reaches
      split: sum.split)

definition exBridge :: routerBridge where
  "exBridge = \<lparr>rbInstanceId = ''c1'', rbSecret = ''s'', rbUseTLS = False, rbSkipVerify = False\<rparr>"

definition exDb :: database where
  "exDb = emptyDb\<lparr>agentInstances := [''a'' \<mapsto>
       \<lparr>arHostname = ''a'', arIp = [], arOs = [], arAgentVersion = [], arNodeType = ''agent'',
        arProxyPath = [], arCenterId = ''c2'', arStatus = ''online'', arRegisteredAt = 0,
        arLastHeartbeat = 0\<rparr>],
     centerInstances := [''c2'' \<mapsto> \<lparr>cnInternalAddress = ''10.0.0.2:80'', cnLastHeartbeat = 0\<rparr>]\<rparr>"

definition exEnv :: "await \<Rightarrow> callEnv" where
  "exEnv aw = \<lparr>ceStart = 0, ceEnd = 1, ceInsert = SqlDone, ceComplete = SqlDone,
     ceSendErr = None, ceAwait = aw\<rparr>"

theorem forwarded_call_transparent_witness:
  "forwardIfNeeded (reaches (regRegister (exRecord ''a'' 1) regNew) (rbSecret exBridge) ''c2''
      (exEnv (Answer (ToolResponse ''q'' (JRaw ''ok'')))) None ErrRouterTimeout)
     exBridge None None exDb ''q'' ''a'' ''fs.stat'' (JRaw ''x'') = (JRaw ''ok'', True, None)"
proof -
  have l: "regLookup (regRegister (exRecord ''a'' 1) regNew) ''a'' = Some (exRecord ''a'' 1)"
    by (simp add: exRecord_def regLookup_def regRegister_def regNew_def Let_def)
  obtain row where r: "agentInstances exDb ''a'' = Some row" "arCenterId row \<noteq> rbInstanceId exBridge"
    "arCenterId row = ''c2''" by (simp add: exDb_def exBridge_def)
  obtain crow where c: "centerInstances exDb (arCenterId row) = Some crow"
    unfolding r(3) by (simp add: exDb_def)
  show ?thesis
    using forwarded_call_transparent [OF r(1,2) c l, THEN conjunct1, of "''c2''"
        "exEnv (Answer (ToolResponse ''q'' (JRaw ''ok'')))"]
    by (simp add: routerSend_def exEnv_def)
qed

text \<open>
  Which calls count as forwarded.  A call is reported as forwarded exactly when the
  store could not be asked, or when it places the node on another center whose address it knows;
  without the flag there is a result only when nothing went wrong, with one exception: the
  address of the node's center cannot be looked up, where an error comes without the flag.
\<close>

theorem forward_decision:
  assumes "forwardIfNeeded net b agentErr centerErr db req host tool args = (r, fwd, err)"
    and "agentErr = None \<or> \<not> errIs (the agentErr) ErrStoreNotFound"
  shows "fwd = (agentErr \<noteq> None \<or>
      (\<exists>row. agentInstances db host = Some row \<and> arCenterId row \<noteq> rbInstanceId b \<and>
        centerErr = None \<and> centerInstances db (arCenterId row) \<noteq> None)) \<and>
    (\<not> fwd \<longrightarrow> r = JRaw []) \<and>
    (\<not> fwd \<and> err \<noteq> None \<longleftrightarrow> agentErr = None \<and>
      (\<exists>row. agentInstances db host = Some row \<and> arCenterId row \<noteq> rbInstanceId b \<and>
        (centerErr \<noteq> None \<or> centerInstances db (arCenterId row) = None)))"
  using assms
  by (auto simp: forwardIfNeeded_def getAgent_def getCenterAddress_def
      split: option.splits sum.splits if_splits)

theorem forward_decision_witness:
  "\<forall>net. \<exists>e. forwardIfNeeded net exBridge None None (exDb\<lparr>centerInstances := (\<lambda>_. None)\<rparr>) ''q'' ''a''
       ''fs.stat'' (JRaw ''x'') = (JRaw [], False, Some e)"
proof
  fix net
  obtain r fwd err where f: "forwardIfNeeded net exBridge None None (exDb\<lparr>centerInstances := (\<lambda>_. None)\<rparr>)
      ''q'' ''a'' ''fs.stat'' (JRaw ''x'') = (r, fwd, err)"
    by (metis surj_pair)
  have row: "\<exists>row. agentInstances (exDb\<lparr>centerInstances := (\<lambda>_. None)\<rparr>) ''a'' = Some row \<and>
      arCenterId row \<noteq> rbInstanceId exBridge" by (simp add: exDb_def exBridge_def)
  from forward_decision [OF f] row f
  show "\<exists>e. forwardIfNeeded net exBridge None None (exDb\<lparr>centerInstances := (\<lambda>_. None)\<rparr>) ''q'' ''a''
       ''fs.stat'' (JRaw ''x'') = (JRaw [], False, Some e)" by auto
qed

text \<open>
  Once a center has registered itself, every failed or successful refresh keeps its
  address in the store, and shutting down, when the removal runs, makes it unknown.
\<close>

theorem registrar_lifetime:
  assumes "registrarStart inst addr t0 oc db0 = (db1, None)"
    and "\<forall>e \<in> set es. \<exists>now o'. e = RegistrarTick now o'"
  shows "getCenterAddress inst None (registrarLoop inst addr es db1) = Inr addr \<and>
    getCenterAddress inst None (registrarLoop inst addr (es @ [RegistrarStop SqlDone]) db1)
      = Inl ErrStoreNotFound"
proof -
  have "getCenterAddress inst None db1 = Inr addr"
    using assms(1) by (auto simp: registrarStart_def upsertCenter_def getCenterAddress_def execSql_cases
        Let_def split: sqlOutcome.splits)
  with registrarLoop_ticks [OF assms(2)] registrarLoop_append_stop [OF assms(2)]
  show ?thesis by (simp add: deleteCenter_def) (simp add: getCenterAddress_def)
qed

theorem registrar_lifetime_witness:
  "getCenterAddress ''c1'' None (registrarLoop ''c1'' ''x:1''
     [RegistrarTick 30 (SqlNotDone ErrRouterTimeout), RegistrarTick 60 SqlDone]
     (fst (registrarStart ''c1'' ''x:1'' 0 SqlDone emptyDb))) = Inr ''x:1''"
proof -
  have s: "registrarStart ''c1'' ''x:1'' 0 SqlDone emptyDb =
      (fst (registrarStart ''c1'' ''x:1'' 0 SqlDone emptyDb), None)"
    by (simp add: registrarStart_def upsertCenter_def)
  show ?thesis by (rule registrar_lifetime [OF s, THEN conjunct1]) simp
qed

end
