(* ===== verification/AdminInvoke.thy ===== *)
theory AdminInvoke
  imports AdminTemplates HighAvailability "HOL-Library.Char_ord" "HOL-Library.List_Lexorder"
    "HOL-Library.Multiset"
begin

text \<open>
  Invocations of \<open>admin/service.go\<close>: the plan of a request (who may run what on which nodes), the
  tool call to one node (local, forwarded or refused), the run over all targets, and the
  records of invocations, results and audit events.  Package \<open>text/template\<close> is the argument
  \<open>textEngine\<close>.  The targets run at once; \<open>order\<close> is the order in which they end.
\<close>

record textEngine =
  parseTemplate :: "string \<Rightarrow> goerr option"
  executeTemplateText :: "string \<Rightarrow> jobj \<Rightarrow> goerr + string"

text \<open>What the service is connected to; \<open>sdEnv\<close> tells what happens around the call with a given
  request id to a given node.\<close>

record svcDeps =
  sdReg :: registry
  sdFwd :: "(string \<Rightarrow> string \<Rightarrow> string \<Rightarrow> jtext \<Rightarrow> jtext \<times> bool \<times> goerr option) option"
  sdInst :: string
  sdEnv :: "string \<Rightarrow> string \<Rightarrow> callEnv"
  sdEngine :: textEngine

section \<open>Plans\<close>

record executionPlan =
  epAction :: string
  epActionType :: string
  epTargets :: "string list"
  epParams :: jobj
  epTimeoutSec :: int
  epRiskLevel :: string
  epTemplate :: "commandTemplate option"

text \<open>A panic cannot happen here (\<open>validateParams_spec\<close>).\<close>

fun paramError :: "paramCheck \<Rightarrow> svcError option" where
  "paramError ParamsOk = None"
| "paramError (ParamsBad e) = Some e"
| "paramError ParamsPanic = Some (svcErr StatusInternalServerError ''PANIC'' ''interface conversion'')"

definition templateDisabled :: svcError where
  "templateDisabled = svcErr StatusUnprocessableEntity ''COMMAND_TEMPLATE_DISABLED'' ''command template is disabled''"

definition badRequest :: "string \<Rightarrow> svcError" where
  "badRequest msg = svcErr StatusBadRequest ''INVALID_ARGUMENT'' msg"

text \<open>The part of \<open>preparePlan\<close> for each action type.\<close>

definition planBuiltin :: "requestMeta \<Rightarrow> int \<Rightarrow> executionPlan \<Rightarrow> svcError + executionPlan" where
  "planBuiltin meta timeout plan =
     (case builtinSpecFor (epAction plan) of
        Inl e \<Rightarrow> Inl e
      | Inr spec \<Rightarrow>
          (case allowRisk (idDomain (rmIdentity meta)) (bsRiskLevel spec) of
             Some e \<Rightarrow> Inl e
           | None \<Rightarrow> Inr (plan\<lparr>epTimeoutSec := normalizeTimeout timeout 10 30,
                              epRiskLevel := bsRiskLevel spec\<rparr>)))"

definition planTemplate ::
  "requestMeta \<Rightarrow> int \<Rightarrow> service \<Rightarrow> executionPlan \<Rightarrow> svcError + executionPlan" where
  "planTemplate meta timeout s plan =
     (case resolveTemplate (epAction plan) s of
        Inl e \<Rightarrow> Inl e
      | Inr tpl \<Rightarrow>
          if \<not> ctEnabled tpl then Inl templateDisabled
          else (case allowRisk (idDomain (rmIdentity meta)) (ctRiskLevel tpl) of
            Some e \<Rightarrow> Inl e
          | None \<Rightarrow>
              (case paramError (validateParams (ctParamsSchema tpl) (epParams plan)) of
                 Some e \<Rightarrow> Inl e
               | None \<Rightarrow> Inr (plan\<lparr>epAction := ctName tpl, epTemplate := Some tpl,
                   epTimeoutSec := normalizeTimeout timeout (ctDefaultTimeoutSec tpl) (ctMaxTimeoutSec tpl),
                   epRiskLevel := ctRiskLevel tpl\<rparr>))))"

definition preparePlan ::
  "requestMeta \<Rightarrow> createInvocationRequest \<Rightarrow> service \<Rightarrow> svcError + executionPlan" where
  "preparePlan meta req s =
     (let actionType = trimSpace (cqActionType req); action = normalizeAction (cqAction req) in
      if action = [] then Inl (badRequest ''action is required'')
      else if actionType \<noteq> actionTypeBuiltin \<and> actionType \<noteq> actionTypeCommandTemplate
        then Inl (badRequest ''action_type must be builtin or command_template'')
      else if cqNodeIds req = [] then Inl (badRequest ''targets.node_ids must not be empty'')
      else (case toMap (cqParams req) of
        None \<Rightarrow> Inl (badRequest ''params must be an object'')
      | Some params \<Rightarrow>
          (let plan = \<lparr>epAction = action, epActionType = actionType, epTargets = dedupe (cqNodeIds req),
                       epParams = params, epTimeoutSec = 0, epRiskLevel = [], epTemplate = None\<rparr>
           in if actionType = actionTypeBuiltin then planBuiltin meta (cqTimeoutSec req) plan
              else planTemplate meta (cqTimeoutSec req) s plan)))"

section \<open>One call to one node\<close>

type_synonym sent = "(streamId \<times> tunnelMessage) list"

text \<open>\<open>invokeToolWithRequest\<close>: the result, the messages that went out, and the log.\<close>

definition invokeToolWithRequest ::
  "svcDeps \<Rightarrow> string \<Rightarrow> string \<Rightarrow> string \<Rightarrow> jtext \<Rightarrow> database option \<Rightarrow>
   (goerr + json) \<times> sent \<times> database option" where
  "invokeToolWithRequest d req node tool args db =
     (let env = sdEnv d req node in
      case regLookup (sdReg d) node of
        None \<Rightarrow>
          (case sdFwd d of
             None \<Rightarrow> (Inl ErrNodeNotFound, [], db)
           | Some fwd \<Rightarrow>
               (let db1 = logInsert (ceStart env) req (sdInst d) node tool args (ceInsert env) db;
                    (res, forwarded, err) = fwd req node tool args;
                    db2 = logComplete (ceEnd env) req res
                            (case err of None \<Rightarrow> [] | Some e \<Rightarrow> errMsg e) (ceComplete env) db1
                in if forwarded
                   then (case err of
                           Some e \<Rightarrow> (Inl e, [], db2)
                         | None \<Rightarrow> (Inr (decodeResult res), [], db2))
                   else (Inl ErrNodeNotFound, [], db2)))
      | Some rec \<Rightarrow>
          if nodeTypeOf rec \<noteq> ''agent'' then (Inl ErrNodeNotFound, [], db)
          else if status rec \<noteq> StatusOnline then (Inl ErrNodeOffline, [], db)
          else
            (let db1 = logInsert (ceStart env) req (sdInst d) node tool args (ceInsert env) db;
                 (msgs, label, res) = routerSend rec req tool args (ceSendErr env) (ceAwait env);
                 db2 = logComplete (ceEnd env) req (resultText res) (errorText res) (ceComplete env) db1
             in (case res of
                   Inl e \<Rightarrow> (Inl e, List.map (Pair (routeStream rec)) msgs, db2)
                 | Inr r \<Rightarrow> (Inr (decodeResult r), List.map (Pair (routeStream rec)) msgs, db2))))"

definition executeBuiltin ::
  "svcDeps \<Rightarrow> string \<Rightarrow> string \<Rightarrow> executionPlan \<Rightarrow> database option \<Rightarrow>
   (invocationError + json) \<times> sent \<times> database option" where
  "executeBuiltin d req node plan db =
     (case builtinSpecFor (epAction plan) of
        Inl e \<Rightarrow> (Inl \<lparr>ieCode = ''INVALID_ARGUMENT'', ieMessage = seMessage e, ieDetails = []\<rparr>, [], db)
      | Inr spec \<Rightarrow>
          (let (tool, args) = bsMarshal spec (epParams plan);
               (res, msgs, db') = invokeToolWithRequest d req node tool args db
           in (case res of
                 Inl e \<Rightarrow> (Inl (classifyInvokeError node e), msgs, db')
               | Inr data \<Rightarrow> (bsTransform spec data, msgs, db'))))"

definition renderString :: "textEngine \<Rightarrow> string \<Rightarrow> jobj \<Rightarrow> goerr + string" where
  "renderString eng src params =
     (case parseTemplate eng src of
        Some e \<Rightarrow> Inl (ErrWrap ''invalid executor arg template: '' e)
      | None \<Rightarrow>
          (case executeTemplateText eng src params of
             Inl e \<Rightarrow> Inl (ErrWrap ''render executor arg: '' e)
           | Inr out \<Rightarrow> Inr out))"

fun renderArgs :: "textEngine \<Rightarrow> string list \<Rightarrow> jobj \<Rightarrow> goerr + string list" where
  "renderArgs eng [] params = Inr []"
| "renderArgs eng (a # as) params =
     (case renderString eng a params of
        Inl e \<Rightarrow> Inl e
      | Inr r \<Rightarrow> (case renderArgs eng as params of Inl e \<Rightarrow> Inl e | Inr rs \<Rightarrow> Inr (r # rs)))"

definition renderTemplateCommand ::
  "textEngine \<Rightarrow> commandTemplate \<Rightarrow> jobj \<Rightarrow> goerr + string \<times> string list" where
  "renderTemplateCommand eng tpl params =
     (case renderArgs eng (teArgs (ctExecutor tpl)) params of
        Inl e \<Rightarrow> Inl e
      | Inr args \<Rightarrow> Inr (teCommand (ctExecutor tpl), args))"

definition processPayload :: "string \<Rightarrow> string list \<Rightarrow> int \<Rightarrow> int \<Rightarrow> jtext" where
  "processPayload command args timeout maxOutput =
     JText (JObj [(''command'', JStr command), (''args'', JArr (List.map JStr args)),
       (''timeout_sec'', jInt timeout), (''max_output_bytes'', jInt maxOutput)])"

text \<open>\<open>%.0f\<close>: round half to even, with the sign of a negative number kept at zero.\<close>

definition roundEven :: "rat \<Rightarrow> int" where
  "roundEven x = (let f = \<lfloor>x\<rfloor>; r = x - of_int f in
     if r < 1/2 then f else if r > 1/2 then f + 1 else if even f then f else f + 1)"

definition format0f :: "rat \<Rightarrow> string" where
  "format0f x = (if x < 0 \<and> roundEven x = 0 then ''-0'' else showInt (roundEven x))"

definition asFloat :: "json \<Rightarrow> rat" where
  "asFloat v = (case v of JNum x \<Rightarrow> x | _ \<Rightarrow> 0)"

definition commandFailed :: "jobj \<Rightarrow> invocationError" where
  "commandFailed obj = \<lparr>ieCode = ''COMMAND_FAILED'',
     ieMessage = ''process exited with code '' @ format0f (asFloat (jget obj ''exit_code'')),
     ieDetails = [(''stdout'', jget obj ''stdout''), (''stderr'', jget obj ''stderr''),
       (''exit_code'', jget obj ''exit_code'')]\<rparr>"

text \<open>\<open>tpl\<close> is \<open>plan.Template\<close>.\<close>

definition executeTemplate ::
  "svcDeps \<Rightarrow> string \<Rightarrow> string \<Rightarrow> executionPlan \<Rightarrow> commandTemplate \<Rightarrow> database option \<Rightarrow>
   (invocationError + json) \<times> sent \<times> database option" where
  "executeTemplate d req node plan tpl db =
     (if \<not> matchesTargetOS (ctTargetOS tpl) (nodeOS (regLookup (sdReg d) node))
      then (Inl \<lparr>ieCode = ''CAPABILITY_DISABLED'',
              ieMessage = ''template is not enabled for target node platform'', ieDetails = []\<rparr>, [], db)
      else (case renderTemplateCommand (sdEngine d) tpl (epParams plan) of
        Inl e \<Rightarrow> (Inl \<lparr>ieCode = ''INVALID_ARGUMENT'', ieMessage = errMsg e, ieDetails = []\<rparr>, [], db)
      | Inr (command, args) \<Rightarrow>
          (let raw = processPayload command args (epTimeoutSec plan) (ctMaxOutputBytes tpl);
               (res, msgs, db') = invokeToolWithRequest d (req @ ''-'' @ node) node ''run_process'' raw db
           in (case res of
                 Inl e \<Rightarrow> (Inl (classifyInvokeError node e), msgs, db')
               | Inr data \<Rightarrow>
                   (case jAsObj data of
                      None \<Rightarrow> (Inr data, msgs, db')
                    | Some obj \<Rightarrow>
                        if \<not> asBool (jget obj ''success'') then (Inl (commandFailed obj), msgs, db')
                        else (Inr (JObj obj), msgs, db'))))))"

text \<open>A plan without a template has the type builtin.\<close>

definition executeTarget ::
  "svcDeps \<Rightarrow> string \<Rightarrow> string \<Rightarrow> executionPlan \<Rightarrow> database option \<Rightarrow>
   invocationResult \<times> sent \<times> database option" where
  "executeTarget d req node plan db =
     (let (out, msgs, db') =
            (case epTemplate plan of
               None \<Rightarrow> executeBuiltin d req node plan db
             | Some tpl \<Rightarrow> executeTemplate d req node plan tpl db);
          env = sdEnv d req node;
          base = \<lparr>irNodeId = node, irHostname = node, irStatus = statusFailed,
                  irStartedAt = ceStart env, irFinishedAt = ceEnd env, irData = JNull, irError = None\<rparr>
      in (case out of
            Inl e \<Rightarrow> base\<lparr>irStatus := statusFromErrorCode (ieCode e), irError := Some e\<rparr>
          | Inr data \<Rightarrow> base\<lparr>irStatus := statusSucceeded, irData := data\<rparr>, msgs, db'))"

section \<open>The run of an invocation\<close>

text \<open>The targets in the order in which they end.\<close>

fun runTargets ::
  "svcDeps \<Rightarrow> string \<Rightarrow> executionPlan \<Rightarrow> string list \<Rightarrow> database option \<Rightarrow>
   invocationResult list \<times> sent \<times> database option" where
  "runTargets d i plan [] db = ([], [], db)"
| "runTargets d i plan (n # ns) db =
     (let (r, m, db1) = executeTarget d i n plan db;
          (rs, ms, db2) = runTargets d i plan ns db1
      in (r # rs, m @ ms, db2))"

definition updateInvocation :: "string \<Rightarrow> (invocation \<Rightarrow> invocation) \<Rightarrow> service \<Rightarrow> service" where
  "updateInvocation i f s =
     (case map_of (invocations s) i of
        None \<Rightarrow> s
      | Some iv \<Rightarrow> s\<lparr>invocations := AList.update i (f iv) (invocations s)\<rparr>)"

definition beginInvocation :: "string \<Rightarrow> int \<Rightarrow> service \<Rightarrow> service" where
  "beginInvocation i started =
     updateInvocation i (\<lambda>iv. iv\<lparr>ivStatus := statusRunning, ivStartedAt := Some started\<rparr>)"

definition finishAudit :: "string \<Rightarrow> string \<Rightarrow> int \<Rightarrow> service \<Rightarrow> service" where
  "finishAudit i decision finished s =
     (case map_of (auditByInvoke s) i of
        None \<Rightarrow> s
      | Some e \<Rightarrow>
          if e = [] then s
          else (case map_of (audits s) e of
            None \<Rightarrow> s
          | Some a \<Rightarrow> s\<lparr>audits := AList.update e
              (a\<lparr>auDecision := decision, auFinishedAt := Some finished\<rparr>) (audits s)\<rparr>))"

definition finishInvocation ::
  "string \<Rightarrow> invocationResult list \<Rightarrow> goerr option \<Rightarrow> int \<Rightarrow> int \<Rightarrow> service \<Rightarrow> service" where
  "finishInvocation i rs ctxErr started finished s =
     (let final = summarizeInvocationStatus (List.map irStatus rs) ctxErr;
          s1 = updateInvocation i (\<lambda>iv. iv\<lparr>ivStatus := final,
                 ivStartedAt := (if ivStartedAt iv = None then Some started else ivStartedAt iv),
                 ivFinishedAt := Some finished\<rparr>) s;
          s2 = s1\<lparr>results := AList.update i rs (results s1)\<rparr>;
          s3 = finishAudit i final finished s2
      in s3\<lparr>cancelFns := removeAll i (cancelFns s3)\<rparr>)"

definition executeInvocation ::
  "svcDeps \<Rightarrow> string \<Rightarrow> executionPlan \<Rightarrow> string list \<Rightarrow> goerr option \<Rightarrow> int \<Rightarrow> int \<Rightarrow>
   service \<Rightarrow> database option \<Rightarrow> invocationResult list \<times> service \<times> sent \<times> database option" where
  "executeInvocation d i plan order ctxErr started finished s db =
     (let s1 = beginInvocation i started s;
          (rs0, msgs, db') = runTargets d i plan order db;
          rs = sort_key irNodeId rs0
      in (rs, finishInvocation i rs ctxErr started finished s1, msgs, db'))"

section \<open>The operations\<close>

definition newInvocation ::
  "freshIds \<Rightarrow> requestMeta \<Rightarrow> createInvocationRequest \<Rightarrow> executionPlan \<Rightarrow> invocation" where
  "newInvocation f meta req plan =
     \<lparr>ivId = fiObject f, ivAction = epAction plan, ivActionType = epActionType plan,
      ivStatus = statusPending, ivAsync = cqAsync req, ivNodeIds = epTargets plan,
      ivParams = JObj (epParams plan), ivSubjectId = subjectID (rmIdentity meta),
      ivSource = rmSource meta, ivTimeoutSec = epTimeoutSec plan, ivCreatedAt = fiNow f,
      ivStartedAt = None, ivFinishedAt = None\<rparr>"

definition recordAuditStart :: "freshIds \<Rightarrow> requestMeta \<Rightarrow> invocation \<Rightarrow> string \<Rightarrow> service \<Rightarrow> service" where
  "recordAuditStart f meta iv riskLevel s =
     s\<lparr>audits := AList.update (fiEvent f)
         \<lparr>auId = fiEvent f, auRequestId = rmRequestId meta, auInvocationId = ivId iv,
          auSubjectId = subjectID (rmIdentity meta), auTokenType = idDomain (rmIdentity meta),
          auSource = rmSource meta, auAction = ivAction iv, auActionType = ivActionType iv,
          auTargetNodeIds = ivNodeIds iv, auRiskLevel = riskLevel, auDecision = ''accepted'',
          auDecisionReason = [], auCreatedAt = fiNow f, auFinishedAt = None\<rparr> (audits s),
       auditByInvoke := AList.update (ivId iv) (fiEvent f) (auditByInvoke s)\<rparr>"

text \<open>\<open>CreateInvocation\<close> up to the start of the run.\<close>

definition acceptInvocation ::
  "freshIds \<Rightarrow> requestMeta \<Rightarrow> createInvocationRequest \<Rightarrow> executionPlan \<Rightarrow> service \<Rightarrow> service" where
  "acceptInvocation f meta req plan s =
     (let iv = newInvocation f meta req plan;
          s1 = s\<lparr>invocations := AList.update (ivId iv) iv (invocations s),
                 results := AList.update (ivId iv) [] (results s)\<rparr>;
          s2 = recordAuditStart f meta iv (epRiskLevel plan) s1
      in if cqAsync req then s2\<lparr>cancelFns := ivId iv # cancelFns s2\<rparr> else s2)"

definition getInvocation :: "string \<Rightarrow> service \<Rightarrow> svcError + invocation" where
  "getInvocation i s =
     (case map_of (invocations s) i of
        None \<Rightarrow> Inl (svcErr StatusNotFound ''INVOCATION_NOT_FOUND'' ''invocation not found'')
      | Some iv \<Rightarrow> Inr iv)"

text \<open>
  \<open>CreateInvocation\<close>.  An asynchronous invocation is answered at once; its \<open>executeInvocation\<close>
  runs later.
\<close>

definition createInvocation ::
  "svcDeps \<Rightarrow> freshIds \<Rightarrow> requestMeta \<Rightarrow> createInvocationRequest \<Rightarrow> string list \<Rightarrow> goerr option \<Rightarrow>
   int \<Rightarrow> int \<Rightarrow> service \<Rightarrow> database option \<Rightarrow>
   (svcError + invocationResponse) \<times> service \<times> sent \<times> database option" where
  "createInvocation d f meta0 req order ctxErr started finished s db =
     (let meta = normalizeMeta (fiRequest f) meta0 in
      case preparePlan meta req s of
        Inl e \<Rightarrow> (Inl e, s, [], db)
      | Inr plan \<Rightarrow>
          (let s1 = acceptInvocation f meta req plan s in
           if cqAsync req
           then (Inr \<lparr>rsInvocation = Some (newInvocation f meta req plan), rsResults = []\<rparr>, s1, [], db)
           else
             (let (rs, s2, msgs, db') =
                    executeInvocation d (fiObject f) plan order ctxErr started finished s1 db
              in (Inr \<lparr>rsInvocation = map_of (invocations s2) (fiObject f), rsResults = rs\<rparr>,
                  s2, msgs, db'))))"

definition getInvocationResults :: "string \<Rightarrow> service \<Rightarrow> svcError + invocationResult list" where
  "getInvocationResults i s =
     (case map_of (results s) i of
        None \<Rightarrow> Inl (svcErr StatusNotFound ''INVOCATION_NOT_FOUND'' ''invocation not found'')
      | Some rs \<Rightarrow> Inr rs)"

definition terminalStatuses :: "string list" where
  "terminalStatuses = [statusSucceeded, statusFailed, statusPartial, statusCanceled]"

text \<open>Calling a cancel function marks the context of the run; the run itself ends later.\<close>

definition cancelInvocation :: "string \<Rightarrow> service \<Rightarrow> (svcError + invocation) \<times> service" where
  "cancelInvocation i s =
     (case map_of (invocations s) i of
        None \<Rightarrow> (Inl (svcErr StatusNotFound ''INVOCATION_NOT_FOUND'' ''invocation not found''), s)
      | Some iv \<Rightarrow>
          if ivStatus iv \<in> set terminalStatuses then (Inr iv, s)
          else
            (let s1 = (if i \<in> set (cancelFns s) then s\<lparr>canceledCtx := i # canceledCtx s\<rparr> else s)
             in (getInvocation i s1, s1)))"

definition invokeTemplate :: "string \<Rightarrow> createInvocationRequest \<Rightarrow> createInvocationRequest" where
  "invokeTemplate templateId body =
     body\<lparr>cqActionType := actionTypeCommandTemplate, cqAction := templateId\<rparr>"

definition directInvokeRequest :: "string \<Rightarrow> string \<Rightarrow> jobj \<Rightarrow> createInvocationRequest" where
  "directInvokeRequest node action params =
     \<lparr>cqAction = normalizeAction action, cqActionType = actionTypeBuiltin, cqNodeIds = [node],
      cqParams = JObj params, cqTimeoutSec = 0, cqAsync = False\<rparr>"

definition listInvocations :: "invocationListFilter \<Rightarrow> service \<Rightarrow> invocation listPage" where
  "listInvocations fl s =
     (let items = filter (\<lambda>v.
            \<not> (lfStatus fl \<noteq> [] \<and> ivStatus v \<noteq> lfStatus fl) \<and>
            \<not> (lfAction fl \<noteq> [] \<and> ivAction v \<noteq> lfAction fl) \<and>
            \<not> (lfActionType fl \<noteq> [] \<and> ivActionType v \<noteq> lfActionType fl))
          (List.map snd (invocations s))
      in paginate (newestFirst ivCreatedAt items) (lfCursor fl) (nat (normalizeLimit (lfLimit fl))) ivId)"

definition listAuditEvents :: "auditFilter \<Rightarrow> service \<Rightarrow> auditEvent listPage" where
  "listAuditEvents fl s =
     (let items = filter (\<lambda>a.
            \<not> (afAction fl \<noteq> [] \<and> auAction a \<noteq> afAction fl) \<and>
            \<not> (afDecision fl \<noteq> [] \<and> auDecision a \<noteq> afDecision fl) \<and>
            \<not> (afSubjectId fl \<noteq> [] \<and> auSubjectId a \<noteq> afSubjectId fl) \<and>
            \<not> (afNodeId fl \<noteq> [] \<and> afNodeId fl \<notin> set (auTargetNodeIds a)))
          (List.map snd (audits s))
      in paginate (newestFirst auCreatedAt items) (afCursor fl) (nat (normalizeLimit (afLimit fl))) auId)"

definition getAuditEvent :: "string \<Rightarrow> service \<Rightarrow> svcError + auditEvent" where
  "getAuditEvent i s =
     (case map_of (audits s) i of
        None \<Rightarrow> Inl (svcErr StatusNotFound ''AUDIT_EVENT_NOT_FOUND'' ''audit event not found'')
      | Some a \<Rightarrow> Inr a)"

text \<open>\<open>ExecTemplate\<close>; \<open>showAny\<close> is \<open>fmt.Sprintf\<close> with the verb \<open>%v\<close>.\<close>

record execResult =
  xrStdout :: string
  xrStderr :: string
  xrExitCode :: int

definition execTemplate ::
  "svcDeps \<Rightarrow> (json \<Rightarrow> string) \<Rightarrow> string \<Rightarrow> requestMeta \<Rightarrow> string \<Rightarrow> string \<Rightarrow> jobj \<Rightarrow> int \<Rightarrow>
   service \<Rightarrow> database option \<Rightarrow> (svcError + execResult) \<times> sent \<times> database option" where
  "execTemplate d showAny reqId meta0 node ref params timeoutSec s db =
     (let meta = normalizeMeta reqId meta0 in
      case resolveTemplate ref s of
        Inl e \<Rightarrow> (Inl e, [], db)
      | Inr tpl \<Rightarrow>
      if \<not> ctEnabled tpl then (Inl templateDisabled, [], db)
      else (case allowRisk (idDomain (rmIdentity meta)) (ctRiskLevel tpl) of
        Some e \<Rightarrow> (Inl e, [], db)
      | None \<Rightarrow>
      (case paramError (validateParams (ctParamsSchema tpl) params) of
        Some e \<Rightarrow> (Inl e, [], db)
      | None \<Rightarrow>
      if \<not> matchesTargetOS (ctTargetOS tpl) (nodeOS (regLookup (sdReg d) node))
      then (Inl (svcErr StatusUnprocessableEntity ''CAPABILITY_DISABLED''
              ''template is not enabled for target node platform''), [], db)
      else (case renderTemplateCommand (sdEngine d) tpl params of
        Inl e \<Rightarrow> (Inl (svcErr StatusUnprocessableEntity ''INVALID_ARGUMENT'' (errMsg e)), [], db)
      | Inr (command, args) \<Rightarrow>
          (let timeout = normalizeTimeout timeoutSec (ctDefaultTimeoutSec tpl) (ctMaxTimeoutSec tpl);
               raw = processPayload command args timeout (ctMaxOutputBytes tpl);
               (res, msgs, db') = invokeToolWithRequest d (rmRequestId meta) node ''run_process'' raw db
           in (case res of
                 Inl e \<Rightarrow>
                   (let iv = classifyInvokeError node e
                    in (Inl \<lparr>seStatus = execErrHTTPStatus (ieCode iv), seCode = ieCode iv,
                          seMessage = ieMessage iv, seDetails = ieDetails iv\<rparr>, msgs, db'))
               | Inr data \<Rightarrow>
                   (case jAsObj data of
                      None \<Rightarrow> (Inr \<lparr>xrStdout = showAny data, xrStderr = [], xrExitCode = 0\<rparr>, msgs, db')
                    | Some obj \<Rightarrow>
                        (Inr \<lparr>xrStdout = asString (jget obj ''stdout''),
                           xrStderr = asString (jget obj ''stderr''),
                           xrExitCode = asInt (jget obj ''exit_code'')\<rparr>, msgs, db'))))))))"

section \<open>Lemmas on plans\<close>

lemma resolveTemplate_stored: "resolveTemplate ref s = Inr t \<Longrightarrow> \<exists>i. map_of (templates s) i = Some t"
  by (auto simp: resolveTemplate_def split: option.splits)

lemma paramError_ok: "paramError (validateParams sch ps) = None \<longleftrightarrow> validateParams sch ps = ParamsOk"
  by (cases "validateParams sch ps") simp_all

text \<open>The two kinds of plans that can come out.\<close>

lemma preparePlan_cases:
  assumes "preparePlan meta req s = Inr plan"
  obtains (builtin) spec where "epTemplate plan = None"
      and "builtinSpecFor (epAction plan) = Inr spec"
      and "allowRisk (idDomain (rmIdentity meta)) (bsRiskLevel spec) = None"
      and "epRiskLevel plan = bsRiskLevel spec" and "epTargets plan = dedupe (cqNodeIds req)"
      and "epActionType plan = actionTypeBuiltin"
      and "epTimeoutSec plan = normalizeTimeout (cqTimeoutSec req) 10 30"
  | (template) t where "epTemplate plan = Some t"
      and "resolveTemplate (normalizeAction (cqAction req)) s = Inr t" and "ctEnabled t"
      and "allowRisk (idDomain (rmIdentity meta)) (ctRiskLevel t) = None"
      and "validateParams (ctParamsSchema t) (epParams plan) = ParamsOk"
      and "epRiskLevel plan = ctRiskLevel t" and "epTargets plan = dedupe (cqNodeIds req)"
      and "epAction plan = ctName t"
      and "epTimeoutSec plan = normalizeTimeout (cqTimeoutSec req) (ctDefaultTimeoutSec t) (ctMaxTimeoutSec t)"
proof -
  let ?a = "normalizeAction (cqAction req)"
  let ?ty = "trimSpace (cqActionType req)"
  obtain ps where ps: "toMap (cqParams req) = Some ps"
    using assms by (auto simp: preparePlan_def Let_def split: if_splits option.splits)
  let ?p = "\<lparr>epAction = ?a, epActionType = ?ty, epTargets = dedupe (cqNodeIds req),
     epParams = ps, epTimeoutSec = 0, epRiskLevel = [], epTemplate = None\<rparr>"
  have run: "(if ?ty = actionTypeBuiltin then planBuiltin meta (cqTimeoutSec req) ?p
      else planTemplate meta (cqTimeoutSec req) s ?p) = Inr plan"
    using assms ps by (simp add: preparePlan_def Let_def split: if_splits)
  show thesis
  proof (cases "?ty = actionTypeBuiltin")
    case True
    with run obtain spec where spec: "builtinSpecFor ?a = Inr spec"
      "allowRisk (idDomain (rmIdentity meta)) (bsRiskLevel spec) = None"
      "plan = ?p\<lparr>epTimeoutSec := normalizeTimeout (cqTimeoutSec req) 10 30, epRiskLevel := bsRiskLevel spec\<rparr>"
      by (auto simp: planBuiltin_def split: sum.splits option.splits)
    with True show thesis by (intro builtin [of spec]) simp_all
  next
    case False
    with run obtain t where "resolveTemplate ?a s = Inr t" "ctEnabled t"
      "allowRisk (idDomain (rmIdentity meta)) (ctRiskLevel t) = None"
      "paramError (validateParams (ctParamsSchema t) ps) = None"
      "plan = ?p\<lparr>epAction := ctName t, epTemplate := Some t,
         epTimeoutSec := normalizeTimeout (cqTimeoutSec req) (ctDefaultTimeoutSec t) (ctMaxTimeoutSec t),
         epRiskLevel := ctRiskLevel t\<rparr>"
      by (auto simp: planTemplate_def split: sum.splits option.splits if_splits)
    then show thesis by (intro template [of t]) (simp_all add: paramError_ok)
  qed
qed

section \<open>Lemmas on one call\<close>

lemma routerSend_messages:
  "m \<in> set (fst (routerSend rec req tool args se aw)) \<Longrightarrow>
   m = toolRequestMsg rec req tool args \<or> m = CancelRequest req"
  by (auto simp: routerSend_def split: option.splits await.splits)

lemma invokeTool_sent:
  assumes "(st, m) \<in> set (fst (snd (invokeToolWithRequest d req node tool args db)))"
  shows "\<exists>rec. regLookup (sdReg d) node = Some rec \<and> nodeTypeOf rec = ''agent'' \<and>
    status rec = StatusOnline \<and> st = routeStream rec \<and>
    (m = toolRequestMsg rec req tool args \<or> m = CancelRequest req)"
  using assms
  by (auto simp: invokeToolWithRequest_def Let_def case_prod_beta
      split: option.splits if_splits sum.splits dest: routerSend_messages)

text \<open>The log around a call is the bracket of the \<open>CallLogger\<close> interface.\<close>

lemma log_bracket:
  assumes "ceInsert env = SqlDone" and "ceComplete env = SqlDone"
  shows "logComplete (ceEnd env) req res err (ceComplete env)
      (logInsert (ceStart env) req c h t a (ceInsert env) (Some db)) =
    Some (pgLog.bracket (ceStart env) (ceEnd env) req c h t a res err db)"
  using assms by (simp add: pgLog.bracket_def)

lemma invokeTool_online:
  assumes "regLookup (sdReg d) node = Some rec" and "nodeTypeOf rec = ''agent''"
    and "status rec = StatusOnline"
  shows "invokeToolWithRequest d req node tool args db =
    (let env = sdEnv d req node;
         (msgs, label, res) = routerSend rec req tool args (ceSendErr env) (ceAwait env)
     in (map_sum id decodeResult res, List.map (Pair (routeStream rec)) msgs,
         logComplete (ceEnd env) req (resultText res) (errorText res) (ceComplete env)
           (logInsert (ceStart env) req (sdInst d) node tool args (ceInsert env) db)))"
  using assms by (simp add: invokeToolWithRequest_def Let_def case_prod_beta split: sum.split)

text \<open>What a target answers does not depend on the log.\<close>

lemma invokeTool_result_db:
  "fst (invokeToolWithRequest d req node tool args db) = fst (invokeToolWithRequest d req node tool args db')"
  by (simp add: invokeToolWithRequest_def Let_def case_prod_beta split: option.split sum.split)

lemma executeTarget_result_db:
  "fst (executeTarget d i n plan db) = fst (executeTarget d i n plan db')"
proof -
  have b: "fst (executeBuiltin d i n plan db) = fst (executeBuiltin d i n plan db')"
    using invokeTool_result_db [of d i n _ _ db db']
    by (simp add: executeBuiltin_def Let_def case_prod_beta split: sum.split)
  have t: "fst (executeTemplate d i n plan t db) = fst (executeTemplate d i n plan t db')" for t
    using invokeTool_result_db [of d "i @ ''-'' @ n" n _ _ db db']
    by (simp add: executeTemplate_def Let_def case_prod_beta split: sum.split option.split)
  show ?thesis
    using b t by (cases "epTemplate plan") (simp_all add: executeTarget_def Let_def case_prod_beta)
qed

definition targetResult :: "svcDeps \<Rightarrow> string \<Rightarrow> executionPlan \<Rightarrow> string \<Rightarrow> invocationResult" where
  "targetResult d i plan n = fst (executeTarget d i n plan None)"

lemma targetResult_node [simp]: "irNodeId (targetResult d i plan n) = n"
  by (auto simp: targetResult_def executeTarget_def Let_def case_prod_beta split: sum.split)

lemma runTargets_results: "fst (runTargets d i plan ns db) = List.map (targetResult d i plan) ns"
proof (induction ns arbitrary: db)
  case (Cons n ns)
  then show ?case
    by (simp add: case_prod_beta targetResult_def executeTarget_result_db [of d i n plan db None])
qed simp

lemma sort_results:
  assumes "distinct ns"
  shows "sort_key irNodeId (List.map (targetResult d i plan) ns) = List.map (targetResult d i plan) (sort ns)"
proof -
  have "mset (List.map (targetResult d i plan) ns) = mset (List.map (targetResult d i plan) (sort ns))"
    by simp
  moreover have "inj_on irNodeId (set (List.map (targetResult d i plan) ns))"
    by (auto simp: inj_on_def)
  ultimately show ?thesis
    by (rule sort_key_inj_key_eq) (simp add: comp_def)
qed

section \<open>Invocations and their audit events\<close>

text \<open>
  The steps of the service's state: accepting, starting and finishing an invocation, cancelling,
  and the two operations on templates.  Fresh ids come from \<open>stream.NewRequestID\<close>.
\<close>

inductive svcStep :: "service \<Rightarrow> service \<Rightarrow> bool" where
  accept: "preparePlan meta req s = Inr plan \<Longrightarrow> map_of (invocations s) (fiObject f) = None \<Longrightarrow>
     map_of (audits s) (fiEvent f) = None \<Longrightarrow> fiEvent f \<noteq> [] \<Longrightarrow>
     svcStep s (acceptInvocation f meta req plan s)"
| start: "map_of (invocations s) i = Some v \<Longrightarrow> ivStatus v = statusPending \<Longrightarrow>
     svcStep s (beginInvocation i started s)"
| finish: "map_of (invocations s) i = Some v \<Longrightarrow> ivStatus v = statusRunning \<Longrightarrow>
     svcStep s (finishInvocation i rs e started finished s)"
| cancel: "svcStep s (snd (cancelInvocation i s))"
| create: "map_of (audits s) (fiEvent f) = None \<Longrightarrow> svcStep s (snd (createTemplate f meta cr s))"
| update: "map_of (audits s) (fiEvent f) = None \<Longrightarrow> svcStep s (snd (updateTemplate f meta i up s))"

text \<open>The audit event of an invocation says who ran what where and how it ended.\<close>

definition auditMatches :: "auditEvent \<Rightarrow> invocation \<Rightarrow> bool" where
  "auditMatches a v \<longleftrightarrow> auInvocationId a = ivId v \<and> auSubjectId a = ivSubjectId v \<and>
     auAction a = ivAction v \<and> auActionType a = ivActionType v \<and> auTargetNodeIds a = ivNodeIds v \<and>
     auFinishedAt a = ivFinishedAt v \<and>
     auDecision a = (if ivFinishedAt v = None then ''accepted'' else ivStatus v) \<and>
     (ivFinishedAt v = None \<longleftrightarrow> ivStatus v \<in> {statusPending, statusRunning})"

definition hasAudit :: "service \<Rightarrow> string \<Rightarrow> invocation \<Rightarrow> bool" where
  "hasAudit s i v \<longleftrightarrow> ivId v = i \<and> (\<exists>e a. map_of (auditByInvoke s) i = Some e \<and> e \<noteq> [] \<and>
     map_of (audits s) e = Some a \<and> auditMatches a v)"

definition serviceInv :: "service \<Rightarrow> bool" where
  "serviceInv s \<longleftrightarrow>
     (\<forall>i v. map_of (invocations s) i = Some v \<longrightarrow> hasAudit s i v \<and> map_of (results s) i \<noteq> None) \<and>
     (\<forall>i i' e. map_of (auditByInvoke s) i = Some e \<longrightarrow> map_of (auditByInvoke s) i' = Some e \<longrightarrow> i = i') \<and>
     (\<forall>i e. map_of (auditByInvoke s) i = Some e \<longrightarrow> map_of (audits s) e \<noteq> None)"

lemma serviceInv_new: "serviceInv newService"
  by (simp add: serviceInv_def newService_def)

lemma serviceInvD:
  assumes "serviceInv s"
  shows "map_of (invocations s) i = Some v \<Longrightarrow> hasAudit s i v"
    and "map_of (invocations s) i = Some v \<Longrightarrow> map_of (results s) i \<noteq> None"
    and "map_of (auditByInvoke s) i = Some e \<Longrightarrow> map_of (auditByInvoke s) i' = Some e \<Longrightarrow> i = i'"
    and "map_of (auditByInvoke s) i = Some e \<Longrightarrow> map_of (audits s) e \<noteq> None"
  using assms unfolding serviceInv_def by blast+

lemma serviceInvI:
  assumes "\<And>i v. map_of (invocations s) i = Some v \<Longrightarrow> hasAudit s i v"
    and "\<And>i v. map_of (invocations s) i = Some v \<Longrightarrow> map_of (results s) i \<noteq> None"
    and "\<And>i i' e. map_of (auditByInvoke s) i = Some e \<Longrightarrow> map_of (auditByInvoke s) i' = Some e \<Longrightarrow> i = i'"
    and "\<And>i e. map_of (auditByInvoke s) i = Some e \<Longrightarrow> map_of (audits s) e \<noteq> None"
  shows "serviceInv s"
  using assms unfolding serviceInv_def by blast

text \<open>An operation that only adds audit events keeps the invariant.\<close>

lemma serviceInv_mono:
  assumes inv: "serviceInv s"
    and same: "invocations s' = invocations s" "results s' = results s" "auditByInvoke s' = auditByInvoke s"
    and mono: "\<And>e a. map_of (audits s) e = Some a \<Longrightarrow> map_of (audits s') e = Some a"
  shows "serviceInv s'"
proof -
  have "hasAudit s' i v" if "hasAudit s i v" for i v
    using that mono unfolding hasAudit_def same by blast
  moreover have "map_of (audits s') e \<noteq> None" if "map_of (audits s) e \<noteq> None" for e
    using that mono by blast
  ultimately show ?thesis using inv unfolding serviceInv_def same by blast
qed

lemma serviceInv_accept:
  assumes inv: "serviceInv s" and fresh: "map_of (audits s) (fiEvent f) = None" "fiEvent f \<noteq> []"
  shows "serviceInv (acceptInvocation f meta req plan s)"
proof -
  let ?s = "acceptInvocation f meta req plan s"
  let ?v = "newInvocation f meta req plan"
  let ?i = "fiObject f"
  have m: "map_of (invocations ?s) = (map_of (invocations s))(?i \<mapsto> ?v)"
    "map_of (results ?s) = (map_of (results s))(?i \<mapsto> [])"
    "map_of (auditByInvoke ?s) = (map_of (auditByInvoke s))(?i \<mapsto> fiEvent f)"
    by (simp_all add: acceptInvocation_def Let_def recordAuditStart_def newInvocation_def update_conv')
  have other: "map_of (audits ?s) e = map_of (audits s) e" if "e \<noteq> fiEvent f" for e
    using that by (simp add: acceptInvocation_def Let_def recordAuditStart_def newInvocation_def update_conv')
  have ev: "e \<noteq> fiEvent f" if "map_of (auditByInvoke s) i = Some e" for i e
    using serviceInvD(4) [OF inv that] fresh(1) by auto
  have new: "hasAudit ?s ?i ?v"
    using fresh(2) by (simp add: hasAudit_def acceptInvocation_def Let_def recordAuditStart_def
        newInvocation_def update_conv' auditMatches_def)
  have old: "hasAudit ?s i v" if "i \<noteq> ?i" "hasAudit s i v" for i v
    using that other ev unfolding hasAudit_def m by (metis fun_upd_other)
  have "map_of (audits ?s) (fiEvent f) \<noteq> None"
    using new unfolding hasAudit_def m by auto
  moreover have "map_of (audits ?s) e \<noteq> None" if "map_of (auditByInvoke s) i = Some e" for i e
    using serviceInvD(4) [OF inv that] other [OF ev [OF that]] by simp
  ultimately have aud: "map_of (auditByInvoke ?s) i = Some e \<Longrightarrow> map_of (audits ?s) e \<noteq> None" for i e
    unfolding m by (auto split: if_splits)
  show ?thesis
  proof (rule serviceInvI)
    fix i v assume *: "map_of (invocations ?s) i = Some v"
    show "hasAudit ?s i v"
    proof (cases "i = ?i")
      case True
      with * new show ?thesis unfolding m by simp
    next
      case False
      with * have "map_of (invocations s) i = Some v" unfolding m by simp
      then show ?thesis by (rule old [OF False serviceInvD(1) [OF inv]])
    qed
    show "map_of (results ?s) i \<noteq> None"
      using * serviceInvD(2) [OF inv, of i v] unfolding m by (cases "i = ?i") simp_all
  next
    fix i i' e assume "map_of (auditByInvoke ?s) i = Some e" "map_of (auditByInvoke ?s) i' = Some e"
    then show "i = i'"
      using ev serviceInvD(3) [OF inv, of i e i'] unfolding m
      by (cases "i = ?i"; cases "i' = ?i") auto
  qed (rule aud)
qed

lemma updateInvocation_map:
  "map_of (invocations s) i = Some v \<Longrightarrow>
   map_of (invocations (updateInvocation i g s)) = (map_of (invocations s))(i \<mapsto> g v)"
  by (simp add: updateInvocation_def update_conv')

lemma updateInvocation_fields [simp]:
  "results (updateInvocation i g s) = results s" "audits (updateInvocation i g s) = audits s"
  "auditByInvoke (updateInvocation i g s) = auditByInvoke s"
  "templates (updateInvocation i g s) = templates s" "cancelFns (updateInvocation i g s) = cancelFns s"
  by (simp_all add: updateInvocation_def split: option.split)

lemma serviceInv_begin:
  assumes inv: "serviceInv s" and v: "map_of (invocations s) i = Some v" "ivStatus v = statusPending"
  shows "serviceInv (beginInvocation i started s)"
proof -
  let ?s = "beginInvocation i started s"
  let ?v = "v\<lparr>ivStatus := statusRunning, ivStartedAt := Some started\<rparr>"
  have m: "map_of (invocations ?s) = (map_of (invocations s))(i \<mapsto> ?v)"
    using updateInvocation_map [OF v(1)] by (simp add: beginInvocation_def)
  have f: "results ?s = results s" "audits ?s = audits s" "auditByInvoke ?s = auditByInvoke s"
    by (simp_all add: beginInvocation_def)
  have "ivFinishedAt v = None"
    using serviceInvD(1) [OF inv v(1)] v(2) by (auto simp: hasAudit_def auditMatches_def)
  then have "auditMatches a ?v" if "auditMatches a v" for a
    using that by (simp add: auditMatches_def)
  then have "hasAudit ?s i ?v"
    using serviceInvD(1) [OF inv v(1)] unfolding hasAudit_def f by auto
  moreover have "hasAudit ?s i' v'" if "hasAudit s i' v'" for i' v'
    using that unfolding hasAudit_def f by blast
  ultimately show ?thesis
    using serviceInvD [OF inv] v unfolding serviceInv_def m f by auto
qed

lemma summarize_final:
  "summarizeInvocationStatus sts e \<notin> {statusPending, statusRunning}"
  by (simp add: summarizeInvocationStatus_def Let_def invStatus_defs)

lemma serviceInv_finish:
  assumes inv: "serviceInv s" and v: "map_of (invocations s) i = Some v"
  shows "serviceInv (finishInvocation i rs e started finished s)"
proof -
  let ?s = "finishInvocation i rs e started finished s"
  let ?st = "summarizeInvocationStatus (List.map irStatus rs) e"
  define v' where "v' = v\<lparr>ivStatus := ?st,
     ivStartedAt := (if ivStartedAt v = None then Some started else ivStartedAt v),
     ivFinishedAt := Some finished\<rparr>"
  from serviceInvD(1) [OF inv v] obtain ev a where a: "map_of (auditByInvoke s) i = Some ev" "ev \<noteq> []"
    "map_of (audits s) ev = Some a" "auditMatches a v" "ivId v = i" unfolding hasAudit_def by blast
  let ?a = "a\<lparr>auDecision := ?st, auFinishedAt := Some finished\<rparr>"
  have m: "map_of (invocations ?s) = (map_of (invocations s))(i \<mapsto> v')"
    "map_of (results ?s) = (map_of (results s))(i \<mapsto> rs)"
    "map_of (audits ?s) = (map_of (audits s))(ev \<mapsto> ?a)" "auditByInvoke ?s = auditByInvoke s"
    using a v by (simp_all add: finishInvocation_def Let_def finishAudit_def updateInvocation_map update_conv' v'_def)
  have "auditMatches ?a v'" using a(4) summarize_final [of "List.map irStatus rs" e] by (simp add: auditMatches_def v'_def)
  then have new: "hasAudit ?s i v'" using a unfolding hasAudit_def m by (simp add: v'_def)
  have old: "hasAudit ?s i' w" if "i' \<noteq> i" "hasAudit s i' w" for i' w
  proof -
    from that(2) obtain e' a' where e': "map_of (auditByInvoke s) i' = Some e'" "e' \<noteq> []"
      "map_of (audits s) e' = Some a'" "auditMatches a' w" "ivId w = i'" unfolding hasAudit_def by blast
    with serviceInvD(3) [OF inv e'(1)] a(1) that(1) have "e' \<noteq> ev" by blast
    with e' show ?thesis unfolding hasAudit_def m by simp
  qed
  show ?thesis
  proof (rule serviceInvI)
    fix j w assume *: "map_of (invocations ?s) j = Some w"
    show "hasAudit ?s j w"
    proof (cases "j = i")
      case True
      with * new show ?thesis unfolding m by simp
    next
      case False
      with * have "map_of (invocations s) j = Some w" unfolding m by simp
      then show ?thesis by (rule old [OF False serviceInvD(1) [OF inv]])
    qed
    show "map_of (results ?s) j \<noteq> None"
      using * serviceInvD(2) [OF inv, of j w] unfolding m by (cases "j = i") simp_all
  qed (use serviceInvD(3,4) [OF inv] in \<open>auto simp: m\<close>)
qed

lemma serviceInv_template:
  assumes inv: "serviceInv s" and fresh: "map_of (audits s) (fiEvent f) = None"
  shows "serviceInv (snd (createTemplate f meta cr s))" "serviceInv (snd (updateTemplate f meta i up s))"
proof -
  show "serviceInv (snd (createTemplate f meta cr s))"
  proof (cases rule: createTemplate_cases [of f meta cr s])
    case (error e)
    with inv show ?thesis by simp
  next
    case (ok tpl m)
    show ?thesis unfolding ok(6) snd_conv
      by (rule serviceInv_mono [OF inv]) (use fresh in \<open>auto simp: update_conv'\<close>)
  qed
  show "serviceInv (snd (updateTemplate f meta i up s))"
    by (rule serviceInv_mono [OF inv])
      (use fresh in \<open>auto simp: updateTemplate_def Let_def case_prod_beta update_conv' split: option.splits if_splits\<close>)
qed

lemma serviceInv_step: "svcStep s s' \<Longrightarrow> serviceInv s \<Longrightarrow> serviceInv s'"
proof (induction rule: svcStep.induct)
  case (cancel s i)
  have "serviceInv (s\<lparr>canceledCtx := c\<rparr>)" for c using cancel by (simp add: serviceInv_def hasAudit_def)
  with cancel show ?case by (simp add: cancelInvocation_def Let_def split: option.split)
qed (auto simp: serviceInv_accept serviceInv_begin serviceInv_finish serviceInv_template)

lemma serviceInv_reach: "svcStep\<^sup>*\<^sup>* s s' \<Longrightarrow> serviceInv s \<Longrightarrow> serviceInv s'"
  by (induction rule: rtranclp_induct) (auto dest: serviceInv_step)

section \<open>What goes out\<close>

lemma executeTarget_sent:
  assumes "(st, m) \<in> set (fst (snd (executeTarget d i n plan db)))"
  shows "case epTemplate plan of
      None \<Rightarrow> \<exists>spec. builtinSpecFor (epAction plan) = Inr spec \<and>
        (st, m) \<in> set (fst (snd (invokeToolWithRequest d i n (fst (bsMarshal spec (epParams plan)))
           (snd (bsMarshal spec (epParams plan))) db)))
    | Some t \<Rightarrow> \<exists>args. renderTemplateCommand (sdEngine d) t (epParams plan) = Inr (teCommand (ctExecutor t), args) \<and>
        matchesTargetOS (ctTargetOS t) (nodeOS (regLookup (sdReg d) n)) \<and>
        (st, m) \<in> set (fst (snd (invokeToolWithRequest d (i @ ''-'' @ n) n ''run_process''
           (processPayload (teCommand (ctExecutor t)) args (epTimeoutSec plan) (ctMaxOutputBytes t)) db)))"
proof (cases "epTemplate plan")
  case None
  with assms show ?thesis
    by (auto simp: executeTarget_def executeBuiltin_def Let_def case_prod_beta split: sum.splits)
next
  case (Some t)
  with assms show ?thesis
    by (auto simp: executeTarget_def executeTemplate_def renderTemplateCommand_def Let_def case_prod_beta
        split: sum.splits option.splits if_splits)
qed

lemma runTargets_sent:
  "(st, m) \<in> set (fst (snd (runTargets d i plan ns db))) \<Longrightarrow>
   \<exists>n \<in> set ns. \<exists>db. (st, m) \<in> set (fst (snd (executeTarget d i n plan db)))"
proof (induction ns arbitrary: db)
  case (Cons n ns)
  then show ?case by (auto simp: case_prod_beta)
qed simp

text \<open>The request id and the target of what goes out for one target.\<close>

lemma target_requests:
  assumes "(st, ToolRequest q) \<in> set (fst (snd (executeTarget d i n plan db)))"
  shows "trRequestId q = (if epTemplate plan = None then i else i @ ''-'' @ n) \<and>
    (\<exists>rec. regLookup (sdReg d) n = Some rec \<and> nodeTypeOf rec = ''agent'' \<and> status rec = StatusOnline \<and>
       st = routeStream rec \<and> trTargetHost q = hostname rec)"
  using executeTarget_sent [OF assms]
  by (auto dest!: invokeTool_sent simp: toolRequestMsg_def split: option.splits)

lemma createInvocation_sent:
  assumes "(st, m) \<in> set (fst (snd (snd (createInvocation d f meta req order ce t0 t1 s db))))"
  shows "\<exists>plan n db. preparePlan (normalizeMeta (fiRequest f) meta) req s = Inr plan \<and> n \<in> set order \<and>
    (st, m) \<in> set (fst (snd (executeTarget d (fiObject f) n plan db)))"
  using assms
  by (auto simp: createInvocation_def executeInvocation_def Let_def case_prod_beta
      split: sum.splits if_splits dest!: runTargets_sent)

section \<open>Properties\<close>

text \<open>Two online agents, no other center and an engine that copies its text, for the examples.\<close>

definition exDeps :: "await \<Rightarrow> svcDeps" where
  "exDeps aw = \<lparr>sdReg = regRegister (exRecord ''b'' 2) (regRegister (exRecord ''a'' 1) regNew),
     sdFwd = None, sdInst = ''c1'', sdEnv = (\<lambda>_ _. exEnv aw),
     sdEngine = \<lparr>parseTemplate = (\<lambda>_. None), executeTemplateText = (\<lambda>s _. Inr s)\<rparr>\<rparr>"

definition exRequest :: "string \<Rightarrow> string list \<Rightarrow> createInvocationRequest" where
  "exRequest action nodes = \<lparr>cqAction = action, cqActionType = ''builtin'', cqNodeIds = nodes,
     cqParams = JNull, cqTimeoutSec = 0, cqAsync = False\<rparr>"

lemma exDeps_nodes:
  "regLookup (sdReg (exDeps aw)) ''a'' = Some (exRecord ''a'' 1)"
  "regLookup (sdReg (exDeps aw)) ''b'' = Some (exRecord ''b'' 2)"
  by (simp_all add: exDeps_def exRecord_def regLookup_def regRegister_def regNew_def Let_def)

definition exPlan :: executionPlan where
  "exPlan = \<lparr>epAction = ''sys.hardware'', epActionType = ''builtin'', epTargets = [''a'', ''b''],
     epParams = [], epTimeoutSec = 10, epRiskLevel = riskReadonly, epTemplate = None\<rparr>"

lemma exPlan_prepared:
  "preparePlan (exMeta DomainClient) (exRequest ''sys.hardware'' [''b'', ''a'']) s =
     Inr (exPlan\<lparr>epTargets := [''b'', ''a'']\<rparr>)"
proof -
  have n: "normalizeAction ''sys.hardware'' = ''sys.hardware''" "trimSpace ''builtin'' = ''builtin''"
    "dedupe [''b'', ''a''] = [''b'', ''a'']" by code_simp+
  have b: "builtinSpecFor ''sys.hardware'' = Inr \<lparr>bsRiskLevel = riskReadonly,
      bsMarshal = (\<lambda>_. (''get_hardware_info'', JText (JObj []))), bsTransform = Inr\<rparr>"
    by (simp add: builtinSpecFor_def n)
  show ?thesis
    by (simp add: preparePlan_def exRequest_def n actionTypeBuiltin_def planBuiltin_def b
        allowRisk_def exPlan_def normalizeTimeout_def)
qed

text \<open>
  What a caller without the admin token can make nodes do.  Every tool request that goes
  out for its invocation is for one of the tools behind a readonly action, or runs the command of
  an enabled template whose risk is readonly, whose schema accepts the parameters and whose
  platforms include the node's; it goes to a registered, online agent, over that agent's stream.
\<close>

theorem client_sends_readonly:
  assumes run: "createInvocation d f meta req order ce t0 t1 s db = (r, s', msgs, db')"
    and client: "idDomain (rmIdentity meta) \<noteq> DomainAdmin"
    and sent: "(st, ToolRequest q) \<in> set msgs"
  shows "(trToolName q \<in> set readonlyTools \<or>
      trToolName q = ''run_process'' \<and> (\<exists>i t params args timeout n.
        map_of (templates s) i = Some t \<and> ctEnabled t \<and> ctRiskLevel t = riskReadonly \<and>
        validateParams (ctParamsSchema t) params = ParamsOk \<and>
        matchesTargetOS (ctTargetOS t) (nodeOS (regLookup (sdReg d) n)) \<and>
        trArgsJson q = processPayload (teCommand (ctExecutor t)) args timeout (ctMaxOutputBytes t))) \<and>
    (\<exists>n rec. n \<in> set order \<and> regLookup (sdReg d) n = Some rec \<and> nodeTypeOf rec = ''agent'' \<and>
       status rec = StatusOnline \<and> st = routeStream rec \<and> trTargetHost q = hostname rec)"
proof -
  let ?m = "normalizeMeta (fiRequest f) meta"
  have dom: "idDomain (rmIdentity ?m) \<noteq> DomainAdmin" using client by (simp add: normalizeMeta_def Let_def)
  from createInvocation_sent [of st "ToolRequest q" d f meta req order ce t0 t1 s db] run sent
  obtain plan n db0 where p: "preparePlan ?m req s = Inr plan" and n: "n \<in> set order"
    and m: "(st, ToolRequest q) \<in> set (fst (snd (executeTarget d (fiObject f) n plan db0)))" by auto
  from p show ?thesis
  proof (cases rule: preparePlan_cases)
    case (builtin spec)
    with dom have "bsRiskLevel spec = riskReadonly" by (simp add: allowRisk_None)
    with builtin have "fst (bsMarshal spec (epParams plan)) \<in> set readonlyTools"
      by (intro builtin_readonly_tool)
    with executeTarget_sent [OF m] builtin have "trToolName q \<in> set readonlyTools"
      by (auto dest!: invokeTool_sent simp: toolRequestMsg_def)
    with target_requests [OF m] n show ?thesis by blast
  next
    case (template t)
    with dom have "ctRiskLevel t = riskReadonly" by (simp add: allowRisk_None)
    moreover obtain i where "map_of (templates s) i = Some t"
      using resolveTemplate_stored [OF template(2)] by blast
    moreover obtain args where "trToolName q = ''run_process''"
      "matchesTargetOS (ctTargetOS t) (nodeOS (regLookup (sdReg d) n))"
      "trArgsJson q = processPayload (teCommand (ctExecutor t)) args (epTimeoutSec plan) (ctMaxOutputBytes t)"
      using executeTarget_sent [OF m] template(1) by (auto dest!: invokeTool_sent simp: toolRequestMsg_def)
    ultimately show ?thesis using template(3,5) target_requests [OF m] n by blast
  qed
qed

lemma exRun:
  "createInvocation (exDeps (Answer (ToolResponse ''x'' (JRaw ''ok'')))) exFresh (exMeta DomainClient)
     (exRequest ''sys.hardware'' [''b'', ''a'']) [''b'', ''a''] None 1 2 newService None =
   (let d = exDeps (Answer (ToolResponse ''x'' (JRaw ''ok'')));
        s1 = acceptInvocation exFresh (exMeta DomainClient) (exRequest ''sys.hardware'' [''b'', ''a''])
               (exPlan\<lparr>epTargets := [''b'', ''a'']\<rparr>) newService;
        (rs, s2, msgs, db') = executeInvocation d ''t1'' (exPlan\<lparr>epTargets := [''b'', ''a'']\<rparr>) [''b'', ''a'']
               None 1 2 s1 None
    in (Inr \<lparr>rsInvocation = map_of (invocations s2) ''t1'', rsResults = rs\<rparr>, s2, msgs, db'))"
proof -
  have "normalizeMeta (fiRequest exFresh) (exMeta DomainClient) = exMeta DomainClient"
    by (simp add: normalizeMeta_def exMeta_def)
  then show ?thesis
    by (simp add: createInvocation_def exPlan_prepared Let_def) (simp add: exRequest_def exFresh_def)
qed

lemma exTarget_sent:
  assumes "n = ''a'' \<and> k = 1 \<or> n = ''b'' \<and> k = 2"
  shows "fst (snd (executeTarget (exDeps (Answer (ToolResponse x r))) i n (exPlan\<lparr>epTargets := ts\<rparr>) db)) =
     [(k, toolRequestMsg (exRecord n k) i ''get_hardware_info'' (JText (JObj [])))]"
proof -
  have n: "normalizeAction ''sys.hardware'' = ''sys.hardware''" by code_simp
  have b: "builtinSpecFor ''sys.hardware'' = Inr \<lparr>bsRiskLevel = riskReadonly,
      bsMarshal = (\<lambda>_. (''get_hardware_info'', JText (JObj []))), bsTransform = Inr\<rparr>"
    by (simp add: builtinSpecFor_def n)
  have l: "regLookup (sdReg (exDeps (Answer (ToolResponse x r)))) n = Some (exRecord n k)"
    using assms exDeps_nodes by auto
  have f: "nodeTypeOf (exRecord n k) = ''agent''" "status (exRecord n k) = StatusOnline"
    "routeStream (exRecord n k) = k" by (simp_all add: exRecord_def)
  have e: "sdEnv (exDeps aw) q h = exEnv aw" for aw q h by (simp add: exDeps_def)
  have i: "fst (snd (invokeToolWithRequest (exDeps (Answer (ToolResponse x r))) i n tool args db)) =
      [(k, toolRequestMsg (exRecord n k) i tool args)]" for tool args
    by (simp add: invokeTool_online [OF l f(1,2)] Let_def e exEnv_def routerSend_def f(3))
  show ?thesis
    by (simp add: executeTarget_def exPlan_def executeBuiltin_def b Let_def case_prod_beta i split: sum.split)
qed

theorem client_sends_readonly_witness:
  "\<exists>r s' msgs db' q. createInvocation (exDeps (Answer (ToolResponse ''x'' (JRaw ''ok'')))) exFresh
      (exMeta DomainClient) (exRequest ''sys.hardware'' [''b'', ''a'']) [''b'', ''a''] None 1 2 newService None
      = (r, s', msgs, db') \<and> (1, ToolRequest q) \<in> set msgs \<and>
    (trToolName q \<in> set readonlyTools \<or> trToolName q = ''run_process'')"
proof -
  let ?d = "exDeps (Answer (ToolResponse ''x'' (JRaw ''ok'')))"
  obtain r s' msgs db' where c: "createInvocation ?d exFresh (exMeta DomainClient)
      (exRequest ''sys.hardware'' [''b'', ''a'']) [''b'', ''a''] None 1 2 newService None = (r, s', msgs, db')"
    by (metis surj_pair)
  have "msgs = fst (snd (runTargets ?d ''t1'' (exPlan\<lparr>epTargets := [''b'', ''a'']\<rparr>) [''b'', ''a''] None))"
    using c unfolding exRun by (auto simp: executeInvocation_def Let_def case_prod_beta)
  then have "(1, toolRequestMsg (exRecord ''a'' 1) ''t1'' ''get_hardware_info'' (JText (JObj []))) \<in> set msgs"
    by (simp add: case_prod_beta exTarget_sent)
  then obtain q where q: "(1, ToolRequest q) \<in> set msgs" by (auto simp: toolRequestMsg_def)
  have "idDomain (rmIdentity (exMeta DomainClient)) \<noteq> DomainAdmin" by (simp add: exMeta_def domain_defs)
  from client_sends_readonly [OF c this q] c q show ?thesis by blast
qed





text \<open>
  The request ids of one invocation.  A template run sends every target its own
  request id, the invocation's id followed by the node's; a builtin sends all its targets the
  same request id, the invocation's.
\<close>

theorem fanout_request_ids:
  assumes "(st, ToolRequest q) \<in> set (fst (snd (executeTarget d i n plan db)))"
    and "(st', ToolRequest q') \<in> set (fst (snd (executeTarget d i n' plan db')))"
  shows "(epTemplate plan = None \<and> trRequestId q = i \<and> trRequestId q' = i) \<or>
    (epTemplate plan \<noteq> None \<and> (trRequestId q = trRequestId q') = (n = n'))"
  using target_requests [OF assms(1)] target_requests [OF assms(2)] by auto

theorem fanout_request_ids_witness:
  "\<exists>q q'. (1, ToolRequest q) \<in> set (fst (snd (executeTarget (exDeps (Answer (ToolResponse ''x'' (JRaw ''ok''))))
        ''t1'' ''a'' (exPlan\<lparr>epTargets := []\<rparr>) None))) \<and>
      (2, ToolRequest q') \<in> set (fst (snd (executeTarget (exDeps (Answer (ToolResponse ''x'' (JRaw ''ok''))))
        ''t1'' ''b'' (exPlan\<lparr>epTargets := []\<rparr>) None))) \<and>
      trRequestId q = trRequestId q'"
proof -
  let ?d = "exDeps (Answer (ToolResponse ''x'' (JRaw ''ok'')))"
  obtain q where q: "(1, ToolRequest q) \<in>
      set (fst (snd (executeTarget ?d ''t1'' ''a'' (exPlan\<lparr>epTargets := []\<rparr>) None)))"
    by (simp add: exTarget_sent toolRequestMsg_def)
  obtain q' where q': "(2, ToolRequest q') \<in>
      set (fst (snd (executeTarget ?d ''t1'' ''b'' (exPlan\<lparr>epTargets := []\<rparr>) None)))"
    by (simp add: exTarget_sent toolRequestMsg_def)
  have "epTemplate (exPlan\<lparr>epTargets := []\<rparr>) = None" by (simp add: exPlan_def)
  with fanout_request_ids [OF q q'] have "trRequestId q = trRequestId q'" by simp
  with q q' show ?thesis by blast
qed

lemma executeBuiltin_db:
  assumes spec: "builtinSpecFor (epAction plan) = Inr spec" and plan: "epTemplate plan = None"
    and node: "regLookup (sdReg d) n = Some rec" "nodeTypeOf rec = ''agent''" "status rec = StatusOnline"
    and env: "ceInsert (sdEnv d i n) = SqlDone" "ceComplete (sdEnv d i n) = SqlDone"
  shows "\<exists>out. snd (snd (executeTarget d i n plan (Some db))) =
    Some (pgLog.bracket (ceStart (sdEnv d i n)) (ceEnd (sdEnv d i n)) i (sdInst d) n
      (fst (bsMarshal spec (epParams plan))) (snd (bsMarshal spec (epParams plan)))
      (resultText out) (errorText out) db) \<and>
    out = snd (snd (routerSend rec i (fst (bsMarshal spec (epParams plan)))
      (snd (bsMarshal spec (epParams plan))) (ceSendErr (sdEnv d i n)) (ceAwait (sdEnv d i n))))"
  using plan spec log_bracket [OF env]
  by (simp add: executeTarget_def executeBuiltin_def Let_def case_prod_beta invokeTool_online [OF node]
      split: sum.split)

text \<open>
  The log of a builtin that runs on two nodes keeps one row for both.  The row shows the
  first node as the target, but the result and the error of the second, and no other row changes.
\<close>

theorem builtin_log_row_mixed:
  assumes spec: "builtinSpecFor (epAction plan) = Inr spec" "epTemplate plan = None"
    and a: "regLookup (sdReg d) a = Some recA" "nodeTypeOf recA = ''agent''" "status recA = StatusOnline"
    and b: "regLookup (sdReg d) b = Some recB" "nodeTypeOf recB = ''agent''" "status recB = StatusOnline"
    and env: "\<forall>n. ceInsert (sdEnv d i n) = SqlDone \<and> ceComplete (sdEnv d i n) = SqlDone"
    and fresh: "toolCallLogs db i = None"
  shows "\<exists>db' l out. snd (snd (runTargets d i plan [a, b] (Some db))) = Some db' \<and>
    toolCallLogs db' i = Some l \<and> tlTargetHost l = a \<and>
    out = snd (snd (routerSend recB i (fst (bsMarshal spec (epParams plan)))
      (snd (bsMarshal spec (epParams plan))) (ceSendErr (sdEnv d i b)) (ceAwait (sdEnv d i b)))) \<and>
    tlResultJson l = Some (resultText out) \<and> tlErrorMsg l = Some (errorText out) \<and>
    (\<forall>r. r \<noteq> i \<longrightarrow> toolCallLogs db' r = toolCallLogs db r)"
proof -
  from executeBuiltin_db [OF spec a, of i db] env obtain ta aa ra ea t0 t1 where
    A: "snd (snd (executeTarget d i a plan (Some db))) =
      Some (pgLog.bracket t0 t1 i (sdInst d) a ta aa ra ea db)" by blast
  let ?db1 = "pgLog.bracket t0 t1 i (sdInst d) a ta aa ra ea db"
  from executeBuiltin_db [OF spec b, of i ?db1] env obtain tb ab t2 t3 out where
    B: "snd (snd (executeTarget d i b plan (Some ?db1))) =
      Some (pgLog.bracket t2 t3 i (sdInst d) b tb ab (resultText out) (errorText out) ?db1)"
    and out: "out = snd (snd (routerSend recB i (fst (bsMarshal spec (epParams plan)))
      (snd (bsMarshal spec (epParams plan))) (ceSendErr (sdEnv d i b)) (ceAwait (sdEnv d i b))))" by blast
  let ?db2 = "pgLog.bracket t2 t3 i (sdInst d) b tb ab (resultText out) (errorText out) ?db1"
  have run: "snd (snd (runTargets d i plan [a, b] (Some db))) = Some ?db2"
    using A B by (simp add: case_prod_beta)
  have row: "toolCallLogs ?db2 i = Some (\<lparr>tlCenterId = sdInst d, tlTargetHost = a, tlToolName = ta,
      tlArgsJson = aa, tlResultJson = Some ra, tlErrorMsg = Some ea, tlStartedAt = t0,
      tlCompletedAt = Some t1\<rparr>\<lparr>tlResultJson := Some (resultText out), tlErrorMsg := Some (errorText out),
      tlCompletedAt := Some t3\<rparr>)"
    by (rule pgLog.bracket_reused) (rule pgLog.bracket_new [OF fresh])
  have other: "toolCallLogs ?db2 r = toolCallLogs db r" if "r \<noteq> i" for r
    using that by (simp add: pgLog.bracket_other)
  from run row out other show ?thesis by (intro exI conjI) (assumption | simp)+
qed

theorem builtin_log_row_mixed_witness:
  "\<exists>db' l. snd (snd (runTargets (exDeps (Answer (ToolResponse ''x'' (JRaw ''ok'')))) ''t1'' exPlan
      [''a'', ''b''] (Some emptyDb))) = Some db' \<and> toolCallLogs db' ''t1'' = Some l \<and>
      tlTargetHost l = ''a'' \<and> tlResultJson l = Some (JRaw ''ok'')"
proof -
  let ?d = "exDeps (Answer (ToolResponse ''x'' (JRaw ''ok'')))"
  have n: "normalizeAction ''sys.hardware'' = ''sys.hardware''" by code_simp
  have spec: "builtinSpecFor (epAction exPlan) = Inr \<lparr>bsRiskLevel = riskReadonly,
      bsMarshal = (\<lambda>_. (''get_hardware_info'', JText (JObj []))), bsTransform = Inr\<rparr>"
    by (simp add: builtinSpecFor_def n exPlan_def)
  have tpl: "epTemplate exPlan = None" by (simp add: exPlan_def)
  have f: "nodeTypeOf (exRecord h k) = ''agent''" "status (exRecord h k) = StatusOnline" for h k
    by (simp_all add: exRecord_def)
  have env: "\<forall>n. ceInsert (sdEnv ?d ''t1'' n) = SqlDone \<and> ceComplete (sdEnv ?d ''t1'' n) = SqlDone"
    "ceSendErr (sdEnv ?d ''t1'' ''b'') = None"
    "ceAwait (sdEnv ?d ''t1'' ''b'') = Answer (ToolResponse ''x'' (JRaw ''ok''))"
    by (simp_all add: exDeps_def exEnv_def)
  have l: "toolCallLogs emptyDb ''t1'' = None" by (simp add: emptyDb_def)
  from builtin_log_row_mixed [OF spec tpl exDeps_nodes(1) f exDeps_nodes(2) f env(1) l]
  show ?thesis using env(2,3) by (auto simp: routerSend_def)
qed

end
