(* ===== verification/HttpBase.thy ===== *)
theory HttpBase
  imports GoPath GoJson
begin

text \<open>
  What \<open>sysplane-center/httpapi/server.go\<close> uses of Go's standard library: \<open>url.PathUnescape\<close>,
  \<open>strconv.Atoi\<close>, the routing of \<open>http.ServeMux\<close>, \<open>json.Valid\<close> and the decoding of a JSON
  object into a struct with \<open>DisallowUnknownFields\<close>.
\<close>

section \<open>Paths of a URL\<close>

definition unhex :: "char \<Rightarrow> nat option" where
  "unhex c = (let n = (of_char c :: nat) in
     if 48 \<le> n \<and> n \<le> 57 then Some (n - 48)
     else if 97 \<le> n \<and> n \<le> 102 then Some (n - 87)
     else if 65 \<le> n \<and> n \<le> 70 then Some (n - 55) else None)"

text \<open>\<open>url.PathUnescape\<close>: a percent sign needs two hexadecimal digits after it.\<close>

fun pathUnescape :: "string \<Rightarrow> string option" where
  "pathUnescape [] = Some []"
| "pathUnescape (c # s) =
     (if c = CHR ''%'' then
        (case s of
           x # y # rest \<Rightarrow>
             (case (unhex x, unhex y) of
                (Some a, Some b) \<Rightarrow> map_option (Cons (char_of (16 * a + b))) (pathUnescape rest)
              | _ \<Rightarrow> None)
         | _ \<Rightarrow> None)
      else map_option (Cons c) (pathUnescape s))"

lemma pathUnescape_plain: "CHR ''%'' \<notin> set s \<Longrightarrow> pathUnescape s = Some s"
  by (induction s) auto

text \<open>\<open>cleanPath\<close> of \<open>net/http\<close>.\<close>

definition cleanUrlPath :: "string \<Rightarrow> string" where
  "cleanUrlPath p0 =
     (if p0 = [] then ''/''
      else (let p = (if hasPrefix p0 ''/'' then p0 else slash # p0); np = clean p
            in if hasSuffix p ''/'' \<and> np \<noteq> ''/'' then np @ ''/'' else np))"

section \<open>Routing\<close>

text \<open>
  A pattern of a mux: a method (none for any), the literal segments and, for a pattern with a
  slash at its end, the mark of a subtree.  The patterns of the program have no hosts and no
  wildcards.
\<close>

record 'h muxPattern =
  mpMethod :: "string option"
  mpSegments :: "string list"
  mpSubtree :: bool
  mpHandler :: 'h

text \<open>The segments of an escaped path: each is unescaped; a slash at the end is the empty segment.\<close>

definition urlSegments :: "string \<Rightarrow> string list" where
  "urlSegments p = List.map (\<lambda>s. case pathUnescape s of Some t \<Rightarrow> t | None \<Rightarrow> s) (tl (splitOn slash p))"

definition matchPath :: "'h muxPattern \<Rightarrow> string list \<Rightarrow> bool" where
  "matchPath m segs \<longleftrightarrow>
     (if mpSubtree m then length (mpSegments m) < length segs \<and> take (length (mpSegments m)) segs = mpSegments m
      else segs = mpSegments m)"

text \<open>A pattern for the method itself comes before one for GET (for HEAD), before one without a method.\<close>

definition muxMatch :: "'h muxPattern list \<Rightarrow> string \<Rightarrow> string list \<Rightarrow> 'h muxPattern option" where
  "muxMatch ps method segs =
     (let try = \<lambda>mt. find (\<lambda>m. mpMethod m = mt \<and> matchPath m segs) ps in
      case try (Some method) of
        Some m \<Rightarrow> Some m
      | None \<Rightarrow>
          (case (if method = ''HEAD'' then try (Some ''GET'') else None) of
             Some m \<Rightarrow> Some m
           | None \<Rightarrow> try None))"

datatype 'h muxResult = MuxHandler 'h | MuxRedirect string | MuxMethodNotAllowed | MuxNotFound

text \<open>
  \<open>findHandler\<close>: a path without its final slash is redirected to the subtree, a path that is not
  clean to the clean one.
\<close>

definition muxFind :: "'h muxPattern list \<Rightarrow> string \<Rightarrow> string \<Rightarrow> string \<Rightarrow> 'h muxResult" where
  "muxFind ps method escaped path =
     (let p = (if method = ''CONNECT'' then escaped else cleanUrlPath escaped);
          segs = urlSegments p;
          found = muxMatch ps method segs;
          exact = (case found of Some m \<Rightarrow> \<not> mpSubtree m \<or> segs = mpSegments m @ [[]] | None \<Rightarrow> False);
          tree = (case muxMatch ps method (segs @ [[]]) of
                    Some m \<Rightarrow> mpSubtree m \<and> segs = mpSegments m | None \<Rightarrow> False)
      in if \<not> exact \<and> \<not> hasSuffix p ''/'' \<and> p \<noteq> [] \<and> tree then MuxRedirect (cleanUrlPath path @ ''/'')
         else if p \<noteq> escaped then MuxRedirect p
         else (case found of
                 Some m \<Rightarrow> MuxHandler (mpHandler m)
               | None \<Rightarrow>
                   if \<exists>m \<in> set ps. matchPath m segs then MuxMethodNotAllowed else MuxNotFound))"

section \<open>Numbers in a query\<close>

text \<open>\<open>strconv.Atoi\<close>: an optional sign, decimal digits, a value of 64 bits.\<close>

definition atoi :: "string \<Rightarrow> int option" where
  "atoi s =
     (let neg = hasPrefix s ''-'';
          ds = (if hasPrefix s ''-'' \<or> hasPrefix s ''+'' then drop 1 s else s);
          n = (if neg then - int (readDigits ds) else int (readDigits ds))
      in if ds = [] \<or> \<not> list_all isDigit ds \<or> \<not> isInt64 n then None else Some n)"

section \<open>The JSON scanner\<close>

text \<open>
  \<open>json.Valid\<close>, the state machine of \<open>encoding/json/scanner.go\<close> with its stack of open
  objects and arrays.  \<open>ScLit\<close> holds the rest of \<open>true\<close>, \<open>false\<close> or \<open>null\<close>.
\<close>

datatype scanFrame = ObjectKey | ObjectValue | ArrayValue

datatype scanState =
    ScBeginValue | ScBeginValueOrEmpty | ScBeginString | ScBeginStringOrEmpty | ScEndValue | ScEndTop
  | ScInString | ScEscape | ScHex nat | ScNeg | ScInt | ScZero | ScDot | ScFrac | ScExp | ScExpSign
  | ScExpDigits | ScLit string | ScError

abbreviation jsonSpace :: "char \<Rightarrow> bool" where
  "jsonSpace c \<equiv> c \<in> {CHR '' '', CHR 0x09, CHR 0x0D, CHR 0x0A}"

definition afterValue :: "scanFrame list \<Rightarrow> scanState" where
  "afterValue st = (if st = [] then ScEndTop else ScEndValue)"

definition pushFrame :: "scanFrame \<Rightarrow> scanState \<Rightarrow> scanFrame list \<Rightarrow> scanState \<times> scanFrame list" where
  "pushFrame fr s st = (if length st < 10000 then (s, fr # st) else (ScError, fr # st))"

definition scanBeginValue :: "char \<Rightarrow> scanFrame list \<Rightarrow> scanState \<times> scanFrame list" where
  "scanBeginValue c st =
     (if jsonSpace c then (ScBeginValue, st)
      else if c = CHR ''{'' then pushFrame ObjectKey ScBeginStringOrEmpty st
      else if c = CHR ''['' then pushFrame ArrayValue ScBeginValueOrEmpty st
      else if c = CHR 0x22 then (ScInString, st)
      else if c = CHR ''-'' then (ScNeg, st)
      else if c = CHR ''0'' then (ScZero, st)
      else if c = CHR ''t'' then (ScLit ''rue'', st)
      else if c = CHR ''f'' then (ScLit ''alse'', st)
      else if c = CHR ''n'' then (ScLit ''ull'', st)
      else if isDigit c then (ScInt, st)
      else (ScError, st))"

fun scanEndValue :: "char \<Rightarrow> scanFrame list \<Rightarrow> scanState \<times> scanFrame list" where
  "scanEndValue c [] = (if jsonSpace c then ScEndTop else ScError, [])"
| "scanEndValue c (fr # st) =
     (if jsonSpace c then (ScEndValue, fr # st)
      else (case fr of
        ObjectKey \<Rightarrow> if c = CHR '':'' then (ScBeginValue, ObjectValue # st) else (ScError, fr # st)
      | ObjectValue \<Rightarrow>
          if c = CHR '','' then (ScBeginString, ObjectKey # st)
          else if c = CHR ''}'' then (afterValue st, st) else (ScError, fr # st)
      | ArrayValue \<Rightarrow>
          if c = CHR '','' then (ScBeginValue, fr # st)
          else if c = CHR '']'' then (afterValue st, st) else (ScError, fr # st)))"

text \<open>\<open>state0\<close>, \<open>stateE\<close>: what may follow the digits of a number.\<close>

definition scanExpOrEnd :: "char \<Rightarrow> scanFrame list \<Rightarrow> scanState \<times> scanFrame list" where
  "scanExpOrEnd c st = (if c = CHR ''e'' \<or> c = CHR ''E'' then (ScExp, st) else scanEndValue c st)"

definition scanDotOrEnd :: "char \<Rightarrow> scanFrame list \<Rightarrow> scanState \<times> scanFrame list" where
  "scanDotOrEnd c st = (if c = CHR ''.'' then (ScDot, st) else scanExpOrEnd c st)"

fun scanStep :: "scanState \<times> scanFrame list \<Rightarrow> char \<Rightarrow> scanState \<times> scanFrame list" where
  "scanStep (ScBeginValue, st) c = scanBeginValue c st"
| "scanStep (ScBeginValueOrEmpty, st) c =
     (if jsonSpace c then (ScBeginValueOrEmpty, st)
      else if c = CHR '']'' then scanEndValue c st else scanBeginValue c st)"
| "scanStep (ScBeginStringOrEmpty, st) c =
     (if jsonSpace c then (ScBeginStringOrEmpty, st)
      else if c = CHR ''}'' then scanEndValue c (ObjectValue # tl st)
      else if c = CHR 0x22 then (ScInString, st) else (ScError, st))"
| "scanStep (ScBeginString, st) c =
     (if jsonSpace c then (ScBeginString, st)
      else if c = CHR 0x22 then (ScInString, st) else (ScError, st))"
| "scanStep (ScEndValue, st) c = scanEndValue c st"
| "scanStep (ScEndTop, st) c = (if jsonSpace c then (ScEndTop, st) else (ScError, st))"
| "scanStep (ScInString, st) c =
     (if c = CHR 0x22 then (ScEndValue, st)
      else if c = CHR 0x5C then (ScEscape, st)
      else if (of_char c :: nat) < 32 then (ScError, st) else (ScInString, st))"
| "scanStep (ScEscape, st) c =
     (if c \<in> set ''bfnrt/'' \<or> c = CHR 0x5C \<or> c = CHR 0x22 then (ScInString, st)
      else if c = CHR ''u'' then (ScHex 3, st) else (ScError, st))"
| "scanStep (ScHex n, st) c =
     (if unhex c = None then (ScError, st)
      else case n of 0 \<Rightarrow> (ScInString, st) | Suc k \<Rightarrow> (ScHex k, st))"
| "scanStep (ScNeg, st) c =
     (if c = CHR ''0'' then (ScZero, st) else if isDigit c then (ScInt, st) else (ScError, st))"
| "scanStep (ScInt, st) c = (if isDigit c then (ScInt, st) else scanDotOrEnd c st)"
| "scanStep (ScZero, st) c = scanDotOrEnd c st"
| "scanStep (ScDot, st) c = (if isDigit c then (ScFrac, st) else (ScError, st))"
| "scanStep (ScFrac, st) c = (if isDigit c then (ScFrac, st) else scanExpOrEnd c st)"
| "scanStep (ScExp, st) c =
     (if c = CHR ''+'' \<or> c = CHR ''-'' then (ScExpSign, st)
      else if isDigit c then (ScExpDigits, st) else (ScError, st))"
| "scanStep (ScExpSign, st) c = (if isDigit c then (ScExpDigits, st) else (ScError, st))"
| "scanStep (ScExpDigits, st) c = (if isDigit c then (ScExpDigits, st) else scanEndValue c st)"
| "scanStep (ScLit w, st) c =
     (case w of
        [] \<Rightarrow> (ScError, st)
      | x # xs \<Rightarrow> if c \<noteq> x then (ScError, st) else if xs = [] then (ScEndValue, st) else (ScLit xs, st))"
| "scanStep (ScError, st) c = (ScError, st)"

text \<open>At the end of the input one space tells whether a number was complete (\<open>eof\<close>).\<close>

definition jsonValid :: "string \<Rightarrow> bool" where
  "jsonValid s \<longleftrightarrow> fst (scanStep (foldl scanStep (ScBeginValue, []) s) (CHR '' '')) = ScEndTop"

section \<open>Decoding into a struct\<close>

text \<open>
  \<open>json.Decoder\<close> finds the field of a key without regard to case (\<open>foldName\<close>; two letters
  outside ASCII fold to s and k).  The bindings of an object are stored one after the other; a
  value of the wrong type and, with \<open>DisallowUnknownFields\<close>, a key without a field are errors.
\<close>

function foldName :: "string \<Rightarrow> string" where
  "foldName [] = []"
| "foldName (c # s) =
     (if hasPrefix (c # s) [CHR 0xC5, CHR 0xBF] then CHR ''s'' # foldName (drop 1 s)
      else if hasPrefix (c # s) [CHR 0xE2, CHR 0x84, CHR 0xAA] then CHR ''k'' # foldName (drop 2 s)
      else toLower [c] @ foldName s)"
  by pat_completeness auto
termination by (relation "measure length") auto

definition unknownField :: "string \<Rightarrow> goerr" where
  "unknownField k = ErrText (''json: unknown field '' @ quoteStr k)"

fun storeFields :: "(string \<Rightarrow> json \<Rightarrow> 'a \<Rightarrow> goerr + 'a) \<Rightarrow> jobj \<Rightarrow> 'a \<Rightarrow> goerr + 'a" where
  "storeFields field [] r = Inr r"
| "storeFields field ((k, v) # obj) r =
     (case field k v r of Inl e \<Rightarrow> Inl e | Inr r' \<Rightarrow> storeFields field obj r')"

definition decodeStruct :: "(string \<Rightarrow> json \<Rightarrow> 'a \<Rightarrow> goerr + 'a) \<Rightarrow> json \<Rightarrow> 'a \<Rightarrow> goerr + 'a" where
  "decodeStruct field v r =
     (case v of
        JNull \<Rightarrow> Inr r
      | JObj obj \<Rightarrow> storeFields field obj r
      | _ \<Rightarrow> Inl (unmarshalError ''value into Go struct''))"

text \<open>One field: \<open>null\<close> leaves a string, a number or a boolean as it is.\<close>

definition setField :: "string \<Rightarrow> 'b option \<Rightarrow> json \<Rightarrow> 'a \<Rightarrow> ('b \<Rightarrow> 'a) \<Rightarrow> goerr + 'a" where
  "setField k decoded v old new =
     (if v = JNull then Inr old
      else (case decoded of None \<Rightarrow> Inl (unmarshalError (''value into field '' @ k)) | Some x \<Rightarrow> Inr (new x)))"

text \<open>A slice, a map or a pointer becomes nil (\<open>null\<close> decodes to the zero value).\<close>

definition setNilable :: "string \<Rightarrow> 'b option \<Rightarrow> ('b \<Rightarrow> 'a) \<Rightarrow> goerr + 'a" where
  "setNilable k decoded new =
     (case decoded of None \<Rightarrow> Inl (unmarshalError (''value into field '' @ k)) | Some x \<Rightarrow> Inr (new x))"

fun decodeMap :: "json \<Rightarrow> jobj option" where
  "decodeMap JNull = Some []"
| "decodeMap (JObj m) = Some m"
| "decodeMap _ = None"

text \<open>A pointer to a value that \<open>dec\<close> decodes; \<open>null\<close> is the nil pointer.\<close>

definition decodePtr :: "(json \<Rightarrow> 'b option) \<Rightarrow> json \<Rightarrow> 'b option option" where
  "decodePtr dec v = (if v = JNull then Some None else map_option Some (dec v))"

section \<open>Examples\<close>

lemma unescape_example: "pathUnescape ''a%2Fb'' = Some ''a/b''" "pathUnescape ''%4'' = None"
  by code_simp+

lemma json_example:
  "jsonValid (''{'' @ [CHR 0x22] @ ''a'' @ [CHR 0x22] @ '': [1, -2.5e3, true]} '')" "\<not> jsonValid ''[1,]''"
  "\<not> jsonValid ''01''" "jsonValid ''-0''"
  by code_simp+

end
