(* ===== verification/HttpApi.thy ===== *)
theory HttpApi
  imports AdminInvoke Registry HttpBase
begin

text \<open>
  Package \<open>sysplane-center/httpapi\<close> (server.go): the routes of the API, the request id and the
  bearer token of a request, and every handler, from the decoding of its arguments over the call
  of the admin service to the status and the body of the reply.

  A handler takes the state of the service and the log, and gives its reply, the new state, the
  messages that it sent to nodes, and the new log.
\<close>

section \<open>Requests and replies\<close>

text \<open>
  A request as \<open>net/http\<close> presents it: \<open>rqEscaped\<close> is \<open>r.URL.EscapedPath()\<close>, which decodes; a query
  is its pairs in their order; \<open>rqBody\<close> is the first JSON value of the body (at most a
  megabyte is read), or the error of the decoder.
\<close>

record apiRequest =
  rqMethod :: string
  rqEscaped :: string
  rqQuery :: "(string \<times> string) list"
  rqAuthorization :: string
  rqRequestIdHeader :: string
  rqContentLength :: int
  rqBody :: "goerr + json"

definition urlPath :: "apiRequest \<Rightarrow> string" where
  "urlPath r = (case pathUnescape (rqEscaped r) of Some p \<Rightarrow> p | None \<Rightarrow> rqEscaped r)"

definition queryGet :: "apiRequest \<Rightarrow> string \<Rightarrow> string" where
  "queryGet r k = (case map_of (rqQuery r) k of Some v \<Rightarrow> v | None \<Rightarrow> [])"

record nodePlatform =
  npOS :: string
  npArch :: string
  npKernel :: string

record nodeResponse =
  nrId :: string
  nrHostname :: string
  nrLabels :: "string gomap"
  nrStatus :: string
  nrPlatform :: nodePlatform
  nrVersion :: string
  nrConnectedVia :: "string list"
  nrLastSeenAt :: int
  nrRegisteredAt :: int

record capabilityResponse =
  cpName :: string
  cpType :: string
  cpRiskLevel :: string
  cpEnabled :: bool

record apiError =
  aeCode :: string
  aeMessage :: string
  aeRequestId :: string
  aeDetails :: jobj

text \<open>
  What a handler encodes.  The last two are the answers of the transparent execution: the content
  type with the output, sent with the header X-Exit-Code of 0, and the failure, sent with its
  exit code in that header.
\<close>

datatype apiBody =
    ErrorBody apiError
  | DataBody json
  | NodesBody "nodeResponse listPage"
  | NodeBody nodeResponse
  | CapabilitiesBody "capabilityResponse listPage"
  | TemplatesBody "commandTemplate listPage"
  | TemplateBody commandTemplate
  | InvocationsBody "invocation listPage"
  | InvocationBody invocation
  | CancelledBody invocation
  | InvokedBody invocationResponse
  | ResultsBody "invocationResult listPage"
  | AuditsBody "auditEvent listPage"
  | AuditBody auditEvent
  | StdoutBody string string
  | ExecFailedBody execResult

text \<open>\<open>Aborted\<close>: the handler panicked and \<open>net/http\<close> closes the connection.\<close>

datatype apiReply =
    Reply nat apiBody
  | Redirect string
  | MethodNotAllowed
  | PageNotFound
  | Aborted

definition StatusOK :: nat where "StatusOK = 200"
definition StatusCreated :: nat where "StatusCreated = 201"
definition StatusAccepted :: nat where "StatusAccepted = 202"
definition StatusUnauthorized :: nat where "StatusUnauthorized = 401"

text \<open>
  What a request finds: the digest and the catalog of the tokens, the connections of the service,
  the ids that \<open>stream.NewRequestID\<close> draws, the order in which targets end,
  the end of the request's context and the times of the run, and \<open>fmt.Sprintf\<close> with \<open>%v\<close>.
\<close>

record apiEnv =
  avSha :: "string \<Rightarrow> string"
  avTokens :: catalog
  avDeps :: svcDeps
  avHttpId :: string
  avFresh :: freshIds
  avOrder :: "string list \<Rightarrow> string list"
  avCtxErr :: "goerr option"
  avStarted :: int
  avFinished :: int
  avShowAny :: "json \<Rightarrow> string"

type_synonym apiResult = "apiReply \<times> service \<times> sent \<times> database option"
type_synonym apiHandler = "requestMeta \<Rightarrow> service \<Rightarrow> database option \<Rightarrow> apiResult"

definition writeError :: "requestMeta \<Rightarrow> nat \<Rightarrow> string \<Rightarrow> string \<Rightarrow> jobj \<Rightarrow> apiReply" where
  "writeError meta st code msg details =
     Reply st (ErrorBody \<lparr>aeCode = code, aeMessage = msg, aeRequestId = rmRequestId meta, aeDetails = details\<rparr>)"

definition writeServiceError :: "requestMeta \<Rightarrow> svcError \<Rightarrow> apiReply" where
  "writeServiceError meta e = writeError meta (seStatus e) (seCode e) (seMessage e) (seDetails e)"

definition invocationErrorStatus :: "string \<Rightarrow> nat" where
  "invocationErrorStatus code =
     (if code = ''NODE_NOT_FOUND'' then StatusNotFound
      else if code \<in> {''NODE_OFFLINE'', ''TIMEOUT''} then StatusServiceUnavailable
      else if code = ''CANCELED'' then StatusConflict
      else if code \<in> {''POLICY_DENIED'', ''FORBIDDEN'', ''CAPABILITY_DISABLED'', ''COMMAND_FAILED''}
      then StatusForbidden
      else StatusInternalServerError)"

definition writeInvocationError :: "requestMeta \<Rightarrow> invocationError \<Rightarrow> apiReply" where
  "writeInvocationError meta e =
     writeError meta (invocationErrorStatus (ieCode e)) (ieCode e) (ieMessage e) (ieDetails e)"

text \<open>A handler that only reads.\<close>

definition answer :: "apiReply \<Rightarrow> service \<Rightarrow> database option \<Rightarrow> apiResult" where
  "answer rep s db = (rep, s, [], db)"

definition badArgument :: "requestMeta \<Rightarrow> string \<Rightarrow> jobj \<Rightarrow> apiReply" where
  "badArgument meta msg details = writeError meta StatusBadRequest ''INVALID_ARGUMENT'' msg details"

section \<open>Arguments\<close>

definition parsePositiveIntQuery :: "apiRequest \<Rightarrow> string \<Rightarrow> int \<Rightarrow> int \<Rightarrow> int option" where
  "parsePositiveIntQuery r key defaultValue maxValue =
     (let raw = queryGet r key in
      if raw = [] then Some defaultValue
      else (case atoi raw of
              None \<Rightarrow> None
            | Some n \<Rightarrow>
                if n \<le> 0 then None
                else if maxValue > 0 \<and> n > maxValue then Some maxValue else Some n))"

definition mustPositiveQuery :: "apiRequest \<Rightarrow> string \<Rightarrow> int \<Rightarrow> int" where
  "mustPositiveQuery r key defaultValue =
     (case parsePositiveIntQuery r key defaultValue 200 of None \<Rightarrow> defaultValue | Some n \<Rightarrow> n)"

definition decodeJSONBody ::
  "(string \<Rightarrow> json \<Rightarrow> 'a \<Rightarrow> goerr + 'a) \<Rightarrow> 'a \<Rightarrow> apiRequest \<Rightarrow> goerr + 'a" where
  "decodeJSONBody field zero r =
     (case rqBody r of Inl e \<Rightarrow> Inl e | Inr v \<Rightarrow> decodeStruct field v zero)"

definition decodeJSONMap :: "apiRequest \<Rightarrow> goerr + jobj" where
  "decodeJSONMap r =
     (if rqContentLength r = 0 then Inr []
      else (case rqBody r of
              Inl e \<Rightarrow> Inl e
            | Inr v \<Rightarrow>
                (case decodeMap v of
                   None \<Rightarrow> Inl (unmarshalError ''value into Go value of type map[string]interface {}'')
                 | Some m \<Rightarrow> Inr m)))"

text \<open>The fields of the bodies, by the names of their json tags.\<close>

definition execField :: "string \<Rightarrow> json \<Rightarrow> templateExec \<Rightarrow> goerr + templateExec" where
  "execField k v x =
     (let f = foldName k in
      if f = ''type'' then setField f (decodeStr v) v x (\<lambda>a. x\<lparr>teType := a\<rparr>)
      else if f = ''command'' then setField f (decodeStr v) v x (\<lambda>a. x\<lparr>teCommand := a\<rparr>)
      else if f = ''args'' then setNilable f (decodeStrs v) (\<lambda>a. x\<lparr>teArgs := a\<rparr>)
      else Inl (unknownField k))"

definition createTemplateField ::
  "string \<Rightarrow> json \<Rightarrow> createTemplateRequest \<Rightarrow> goerr + createTemplateRequest" where
  "createTemplateField k v x =
     (let f = foldName k in
      if f = ''name'' then setField f (decodeStr v) v x (\<lambda>a. x\<lparr>crName := a\<rparr>)
      else if f = ''description'' then setField f (decodeStr v) v x (\<lambda>a. x\<lparr>crDescription := a\<rparr>)
      else if f = ''risk_level'' then setField f (decodeStr v) v x (\<lambda>a. x\<lparr>crRiskLevel := a\<rparr>)
      else if f = ''target_os'' then setNilable f (decodeStrs v) (\<lambda>a. x\<lparr>crTargetOS := a\<rparr>)
      else if f = ''executor'' then
        (case decodeStruct execField v (crExecutor x) of Inl e \<Rightarrow> Inl e | Inr a \<Rightarrow> Inr (x\<lparr>crExecutor := a\<rparr>))
      else if f = ''params_schema'' then setNilable f (decodeMap v) (\<lambda>a. x\<lparr>crParamsSchema := a\<rparr>)
      else if f = ''default_timeout_sec'' then setField f (decodeInt v) v x (\<lambda>a. x\<lparr>crDefaultTimeoutSec := a\<rparr>)
      else if f = ''max_timeout_sec'' then setField f (decodeInt v) v x (\<lambda>a. x\<lparr>crMaxTimeoutSec := a\<rparr>)
      else if f = ''max_output_bytes'' then setField f (decodeInt v) v x (\<lambda>a. x\<lparr>crMaxOutputBytes := a\<rparr>)
      else Inl (unknownField k))"

definition updateTemplateField ::
  "string \<Rightarrow> json \<Rightarrow> updateTemplateRequest \<Rightarrow> goerr + updateTemplateRequest" where
  "updateTemplateField k v x =
     (let f = foldName k in
      if f = ''description'' then setNilable f (decodePtr decodeStr v) (\<lambda>a. x\<lparr>upDescription := a\<rparr>)
      else if f = ''risk_level'' then setNilable f (decodePtr decodeStr v) (\<lambda>a. x\<lparr>upRiskLevel := a\<rparr>)
      else if f = ''target_os'' then setNilable f (decodePtr decodeStrs v) (\<lambda>a. x\<lparr>upTargetOS := a\<rparr>)
      else if f = ''params_schema'' then setNilable f (decodePtr decodeMap v) (\<lambda>a. x\<lparr>upParamsSchema := a\<rparr>)
      else if f = ''default_timeout_sec'' then
        setNilable f (decodePtr decodeInt v) (\<lambda>a. x\<lparr>upDefaultTimeoutSec := a\<rparr>)
      else if f = ''max_timeout_sec'' then setNilable f (decodePtr decodeInt v) (\<lambda>a. x\<lparr>upMaxTimeoutSec := a\<rparr>)
      else if f = ''max_output_bytes'' then setNilable f (decodePtr decodeInt v) (\<lambda>a. x\<lparr>upMaxOutputBytes := a\<rparr>)
      else if f = ''enabled'' then setNilable f (decodePtr decodeBool v) (\<lambda>a. x\<lparr>upEnabled := a\<rparr>)
      else Inl (unknownField k))"

definition targetsField :: "string \<Rightarrow> json \<Rightarrow> string list \<Rightarrow> goerr + string list" where
  "targetsField k v x =
     (if foldName k = ''node_ids'' then setNilable ''node_ids'' (decodeStrs v) (\<lambda>a. a) else Inl (unknownField k))"

definition invocationField ::
  "string \<Rightarrow> json \<Rightarrow> createInvocationRequest \<Rightarrow> goerr + createInvocationRequest" where
  "invocationField k v x =
     (let f = foldName k in
      if f = ''action'' then setField f (decodeStr v) v x (\<lambda>a. x\<lparr>cqAction := a\<rparr>)
      else if f = ''action_type'' then setField f (decodeStr v) v x (\<lambda>a. x\<lparr>cqActionType := a\<rparr>)
      else if f = ''targets'' then
        (case decodeStruct targetsField v (cqNodeIds x) of Inl e \<Rightarrow> Inl e | Inr a \<Rightarrow> Inr (x\<lparr>cqNodeIds := a\<rparr>))
      else if f = ''params'' then Inr (x\<lparr>cqParams := v\<rparr>)
      else if f = ''timeout_sec'' then setField f (decodeInt v) v x (\<lambda>a. x\<lparr>cqTimeoutSec := a\<rparr>)
      else if f = ''async'' then setField f (decodeBool v) v x (\<lambda>a. x\<lparr>cqAsync := a\<rparr>)
      else Inl (unknownField k))"

definition execBodyField :: "string \<Rightarrow> json \<Rightarrow> jobj \<times> int \<Rightarrow> goerr + jobj \<times> int" where
  "execBodyField k v x =
     (let f = foldName k in
      if f = ''params'' then setNilable f (decodeMap v) (\<lambda>a. (a, snd x))
      else if f = ''timeout_sec'' then setField f (decodeInt v) v x (\<lambda>a. (fst x, a))
      else Inl (unknownField k))"

definition noExec :: templateExec where
  "noExec = \<lparr>teType = [], teCommand = [], teArgs = []\<rparr>"

definition noTemplate :: createTemplateRequest where
  "noTemplate = \<lparr>crName = [], crDescription = [], crRiskLevel = [], crTargetOS = [], crExecutor = noExec,
     crParamsSchema = [], crDefaultTimeoutSec = 0, crMaxTimeoutSec = 0, crMaxOutputBytes = 0\<rparr>"

definition noUpdate :: updateTemplateRequest where
  "noUpdate = \<lparr>upDescription = None, upRiskLevel = None, upTargetOS = None, upParamsSchema = None,
     upDefaultTimeoutSec = None, upMaxTimeoutSec = None, upMaxOutputBytes = None, upEnabled = None\<rparr>"

definition noInvocation :: createInvocationRequest where
  "noInvocation = \<lparr>cqAction = [], cqActionType = [], cqNodeIds = [], cqParams = JNull, cqTimeoutSec = 0,
     cqAsync = False\<rparr>"

section \<open>Nodes\<close>

definition buildNode :: "agentRecord \<Rightarrow> nodeResponse" where
  "buildNode rec =
     (let parts = (if os rec = [] then [] else splitOn slash (os rec)) in
      \<lparr>nrId = hostname rec, nrHostname = hostname rec, nrLabels = [], nrStatus = statusStr (status rec),
       nrPlatform = \<lparr>npOS = (if parts = [] then [] else parts ! 0),
                     npArch = (if length parts > 1 then parts ! 1 else []), npKernel = []\<rparr>,
       nrVersion = agentVersion rec, nrConnectedVia = proxyPath rec,
       nrLastSeenAt = lastHeartbeat rec, nrRegisteredAt = registeredAt rec\<rparr>)"

definition pageOf :: "'a list \<Rightarrow> string \<Rightarrow> int \<Rightarrow> ('a \<Rightarrow> string) \<Rightarrow> 'a listPage" where
  "pageOf items cursor limit idFn =
     (let start0 = (if cursor \<noteq> [] then cursorStart idFn cursor items else 0);
          start = min start0 (length items);
          end = min (start + nat limit) (length items);
          next = (if end < length items then idFn (items ! (end - 1)) else [])
      in \<lparr>pgItems = take (end - start) (drop start items), pgNextCursor = next\<rparr>)"

definition listedNodes :: "registry \<Rightarrow> string \<Rightarrow> string \<Rightarrow> nodeResponse list" where
  "listedNodes reg hostnameFilter statusFilter =
     sort_key nrId (List.map buildNode (filter (\<lambda>rec.
       nodeTypeOf rec = ''agent'' \<and>
       \<not> (hostnameFilter \<noteq> [] \<and> hostname rec \<noteq> hostnameFilter) \<and>
       \<not> (statusFilter \<noteq> [] \<and> statusStr (status rec) \<noteq> statusFilter)) (regAll reg)))"

definition handleListNodes :: "apiEnv \<Rightarrow> apiRequest \<Rightarrow> apiHandler" where
  "handleListNodes env r meta s db =
     (if queryGet r ''label_selector'' \<noteq> []
      then answer (writeError meta StatusBadRequest ''UNIMPLEMENTED'' ''label_selector is not yet implemented''
             [(''field'', JStr ''label_selector'')]) s db
      else (case parsePositiveIntQuery r ''limit'' 50 200 of
        None \<Rightarrow> answer (badArgument meta ''limit must be a positive integer'' [(''field'', JStr ''limit'')]) s db
      | Some limit \<Rightarrow>
          answer (Reply StatusOK (NodesBody (pageOf
            (listedNodes (sdReg (avDeps env)) (queryGet r ''hostname'') (queryGet r ''status''))
            (queryGet r ''cursor'') limit nrId))) s db))"

definition nodeNotFound :: "requestMeta \<Rightarrow> string \<Rightarrow> apiReply" where
  "nodeNotFound meta node =
     writeError meta StatusNotFound ''NODE_NOT_FOUND'' ''target node was not found'' [(''node_id'', JStr node)]"

definition handleGetNode :: "apiEnv \<Rightarrow> string \<Rightarrow> apiHandler" where
  "handleGetNode env node meta s db =
     (case regLookup (sdReg (avDeps env)) node of
        None \<Rightarrow> answer (nodeNotFound meta node) s db
      | Some rec \<Rightarrow>
          if nodeTypeOf rec \<noteq> ''agent'' then answer (nodeNotFound meta node) s db
          else answer (Reply StatusOK (NodeBody (buildNode rec))) s db)"

definition builtinCapabilities :: "bool \<Rightarrow> capabilityResponse list" where
  "builtinCapabilities enabled =
     List.map (\<lambda>(n, risk). \<lparr>cpName = n, cpType = ''builtin'', cpRiskLevel = risk, cpEnabled = enabled\<rparr>)
       [(''fs.list'', ''readonly''), (''fs.read'', ''readonly''), (''fs.stat'', ''readonly''),
        (''fs.write'', ''mutating''), (''sys.info'', ''readonly''), (''sys.hardware'', ''readonly'')]"

definition handleCapabilities :: "apiEnv \<Rightarrow> string \<Rightarrow> apiHandler" where
  "handleCapabilities env node meta s db =
     (case regLookup (sdReg (avDeps env)) node of
        None \<Rightarrow> answer (nodeNotFound meta node) s db
      | Some rec \<Rightarrow>
          if nodeTypeOf rec \<noteq> ''agent'' then answer (nodeNotFound meta node) s db
          else
            (let enabled = (status rec = StatusOnline);
                 tpls = pgItems (listTemplates \<lparr>tfLimit = 200, tfCursor = [], tfName = [], tfEnabled = None,
                          tfRiskLevel = [], tfTargetOS = []\<rparr> s);
                 items = builtinCapabilities enabled @
                   List.map (\<lambda>t. \<lparr>cpName = ctName t, cpType = ''command_template'',
                     cpRiskLevel = ctRiskLevel t, cpEnabled = enabled \<and> ctEnabled t\<rparr>) tpls
             in answer (Reply StatusOK (CapabilitiesBody \<lparr>pgItems = items, pgNextCursor = []\<rparr>)) s db))"

definition execReply :: "(svcError + execResult) \<Rightarrow> requestMeta \<Rightarrow> apiReply" where
  "execReply res meta =
     (case res of
        Inl e \<Rightarrow> writeServiceError meta e
      | Inr x \<Rightarrow>
          if xrExitCode x \<noteq> 0 then Reply StatusUnprocessableEntity (ExecFailedBody x)
          else
            (let trimmed = trimSpace (xrStdout x);
                 ct = (if trimmed \<noteq> [] \<and> (hd trimmed = CHR ''{'' \<or> hd trimmed = CHR ''['') \<and> jsonValid trimmed
                       then ''application/json'' else ''text/plain; charset=utf-8'')
             in Reply StatusOK (StdoutBody ct (xrStdout x))))"

definition handleExecTemplate :: "apiEnv \<Rightarrow> apiRequest \<Rightarrow> string \<Rightarrow> string \<Rightarrow> apiHandler" where
  "handleExecTemplate env r node templateId meta s db =
     (case (if rqContentLength r > 0 then decodeJSONBody execBodyField ([], 0) r else Inr ([], 0)) of
        Inl e \<Rightarrow> answer (badArgument meta (errMsg e) []) s db
      | Inr (params, timeout) \<Rightarrow>
          (let (res, msgs, db') = execTemplate (avDeps env) (avShowAny env) (fiRequest (avFresh env)) meta
                 node templateId params timeout s db
           in (execReply res meta, s, msgs, db')))"

text \<open>\<open>DirectInvokeBuiltin\<close> of the admin service: one target, so one order of the results.\<close>

definition directInvokeBuiltin ::
  "apiEnv \<Rightarrow> requestMeta \<Rightarrow> string \<Rightarrow> string \<Rightarrow> jobj \<Rightarrow> service \<Rightarrow> database option \<Rightarrow>
   (svcError + invocationResult option) \<times> service \<times> sent \<times> database option" where
  "directInvokeBuiltin env meta node action params s db =
     (let req = directInvokeRequest node action params;
          (res, s', msgs, db') = createInvocation (avDeps env) (avFresh env) meta req (dedupe [node])
            (avCtxErr env) (avStarted env) (avFinished env) s db
      in (case res of
            Inl e \<Rightarrow> (Inl e, s', msgs, db')
          | Inr resp \<Rightarrow>
              (Inr (case rsResults resp of [] \<Rightarrow> None | x # xs \<Rightarrow> Some x), s', msgs, db')))"

text \<open>\<open>data, _ = result.Data.(map[string]any)\<close>\<close>

definition mapData :: "json \<Rightarrow> json" where
  "mapData v = (case jAsObj v of Some m \<Rightarrow> JObj m | None \<Rightarrow> JNull)"

definition builtinReply ::
  "(json \<Rightarrow> json) \<Rightarrow> (svcError + invocationResult option) \<Rightarrow> requestMeta \<Rightarrow> apiReply" where
  "builtinReply shape res meta =
     (case res of
        Inl e \<Rightarrow> writeServiceError meta e
      | Inr None \<Rightarrow> Reply StatusOK (DataBody (JObj []))
      | Inr (Some x) \<Rightarrow>
          (case irError x of
             Some e \<Rightarrow> writeInvocationError meta e
           | None \<Rightarrow> Reply StatusOK (DataBody (shape (irData x)))))"

definition runBuiltin ::
  "apiEnv \<Rightarrow> string \<Rightarrow> string \<Rightarrow> (json \<Rightarrow> json) \<Rightarrow> (goerr + jobj) \<Rightarrow> apiHandler" where
  "runBuiltin env node action shape params meta s db =
     (case params of
        Inl e \<Rightarrow> answer (badArgument meta (errMsg e) []) s db
      | Inr ps \<Rightarrow>
          (let (res, s', msgs, db') = directInvokeBuiltin env meta node action ps s db
           in (builtinReply shape res meta, s', msgs, db')))"

definition handleGetNodeConfig :: "apiEnv \<Rightarrow> string \<Rightarrow> apiHandler" where
  "handleGetNodeConfig env node = runBuiltin env node ''config.get'' mapData (Inr [])"

definition handlePatchNodeConfig :: "apiEnv \<Rightarrow> apiRequest \<Rightarrow> string \<Rightarrow> apiHandler" where
  "handlePatchNodeConfig env r node = runBuiltin env node ''config.set'' mapData (decodeJSONMap r)"

definition handleAction :: "apiEnv \<Rightarrow> apiRequest \<Rightarrow> string \<Rightarrow> string \<Rightarrow> apiHandler" where
  "handleAction env r node action = runBuiltin env node action (\<lambda>v. v) (decodeJSONMap r)"

text \<open>The path below a prefix, without a slash at its end.\<close>

definition subPath :: "apiRequest \<Rightarrow> string \<Rightarrow> string" where
  "subPath r p = trimSuffix (trimPrefix (urlPath r) p) ''/''"

definition endpointNotFound :: "requestMeta \<Rightarrow> apiReply" where
  "endpointNotFound meta = writeError meta StatusNotFound ''NOT_FOUND'' ''endpoint not found'' []"

definition handleNodeRoutes :: "apiEnv \<Rightarrow> apiRequest \<Rightarrow> apiHandler" where
  "handleNodeRoutes env r meta s db =
     (let path = subPath r ''/v1/nodes/''; parts = splitOn slash path; n = length parts; m = rqMethod r in
      if path = [] then answer (writeError meta StatusNotFound ''NODE_NOT_FOUND'' ''node not found'' []) s db
      else (case pathUnescape (parts ! 0) of
        None \<Rightarrow> answer (badArgument meta ''invalid node id'' [(''field'', JStr ''node_id'')]) s db
      | Some node \<Rightarrow>
          if node = [] then answer (badArgument meta ''invalid node id'' [(''field'', JStr ''node_id'')]) s db
          else if n = 1 \<and> m = ''GET'' then handleGetNode env node meta s db
          else if n = 2 \<and> parts ! 1 = ''capabilities'' \<and> m = ''GET'' then handleCapabilities env node meta s db
          else if n = 2 \<and> parts ! 1 = ''config'' \<and> m = ''GET'' then handleGetNodeConfig env node meta s db
          else if n = 2 \<and> parts ! 1 = ''config'' \<and> m = ''PATCH'' then handlePatchNodeConfig env r node meta s db
          else if n = 4 \<and> parts ! 1 = ''command-templates'' \<and> parts ! 3 = ''invoke'' \<and> m = ''POST''
          then handleExecTemplate env r node (case pathUnescape (parts ! 2) of Some t \<Rightarrow> t | None \<Rightarrow> []) meta s db
          else if n = 3 \<and> parts ! 1 = ''actions'' \<and> m = ''POST'' then handleAction env r node (parts ! 2) meta s db
          else answer (endpointNotFound meta) s db))"

section \<open>Templates\<close>

definition handleListTemplates :: "apiRequest \<Rightarrow> apiHandler" where
  "handleListTemplates r meta s db =
     answer (Reply StatusOK (TemplatesBody (listTemplates
       \<lparr>tfLimit = mustPositiveQuery r ''limit'' 50, tfCursor = queryGet r ''cursor'',
        tfName = queryGet r ''name'',
        tfEnabled = (let raw = queryGet r ''enabled'' in if raw \<noteq> [] then Some (raw = ''true'') else None),
        tfRiskLevel = queryGet r ''risk_level'', tfTargetOS = queryGet r ''target_os''\<rparr> s))) s db"

definition handleCreateTemplate :: "apiEnv \<Rightarrow> apiRequest \<Rightarrow> apiHandler" where
  "handleCreateTemplate env r meta s db =
     (case decodeJSONBody createTemplateField noTemplate r of
        Inl e \<Rightarrow> answer (badArgument meta (errMsg e) []) s db
      | Inr req \<Rightarrow>
          (case createTemplate (avFresh env) meta req s of
             (Inl e, s') \<Rightarrow> answer (writeServiceError meta e) s' db
           | (Inr tpl, s') \<Rightarrow> answer (Reply StatusCreated (TemplateBody tpl)) s' db))"

text \<open>\<open>resp.Invocation.Async\<close> panics when there is no invocation.\<close>

definition invokedReply :: "(svcError + invocationResponse) \<Rightarrow> requestMeta \<Rightarrow> apiReply" where
  "invokedReply res meta =
     (case res of
        Inl e \<Rightarrow> writeServiceError meta e
      | Inr resp \<Rightarrow>
          (case rsInvocation resp of
             None \<Rightarrow> Aborted
           | Some iv \<Rightarrow> Reply (if ivAsync iv then StatusAccepted else StatusOK) (InvokedBody resp)))"

definition runInvocation ::
  "apiEnv \<Rightarrow> (createInvocationRequest \<Rightarrow> createInvocationRequest) \<Rightarrow> apiRequest \<Rightarrow> apiHandler" where
  "runInvocation env adjust r meta s db =
     (case decodeJSONBody invocationField noInvocation r of
        Inl e \<Rightarrow> answer (badArgument meta (errMsg e) []) s db
      | Inr req \<Rightarrow>
          (let (res, s', msgs, db') = createInvocation (avDeps env) (avFresh env) meta (adjust req)
                 (avOrder env (dedupe (cqNodeIds (adjust req)))) (avCtxErr env) (avStarted env) (avFinished env) s db
           in (invokedReply res meta, s', msgs, db')))"

definition handleInvokeTemplate :: "apiEnv \<Rightarrow> apiRequest \<Rightarrow> string \<Rightarrow> apiHandler" where
  "handleInvokeTemplate env r templateId = runInvocation env (invokeTemplate templateId) r"

definition handleUpdateTemplate :: "apiEnv \<Rightarrow> apiRequest \<Rightarrow> string \<Rightarrow> apiHandler" where
  "handleUpdateTemplate env r templateId meta s db =
     (case decodeJSONBody updateTemplateField noUpdate r of
        Inl e \<Rightarrow> answer (badArgument meta (errMsg e) []) s db
      | Inr req \<Rightarrow>
          (case updateTemplate (avFresh env) meta templateId req s of
             (Inl e, s') \<Rightarrow> answer (writeServiceError meta e) s' db
           | (Inr tpl, s') \<Rightarrow> answer (Reply StatusOK (TemplateBody tpl)) s' db))"

definition handleTemplateRoutes :: "apiEnv \<Rightarrow> apiRequest \<Rightarrow> apiHandler" where
  "handleTemplateRoutes env r meta s db =
     (let path = subPath r ''/v1/command-templates/'' in
      if path = [] then answer (writeError meta StatusNotFound ''COMMAND_TEMPLATE_NOT_FOUND''
                          ''command template not found'' []) s db
      else if hasSuffix path '':invoke'' then handleInvokeTemplate env r (trimSuffix path '':invoke'') meta s db
      else (case pathUnescape path of
        None \<Rightarrow> answer (badArgument meta ''invalid template id'' []) s db
      | Some templateId \<Rightarrow>
          if rqMethod r = ''GET'' then
            (case getTemplate templateId s of
               Inl e \<Rightarrow> answer (writeServiceError meta e) s db
             | Inr tpl \<Rightarrow> answer (Reply StatusOK (TemplateBody tpl)) s db)
          else if rqMethod r = ''PATCH'' then handleUpdateTemplate env r templateId meta s db
          else answer (endpointNotFound meta) s db))"

section \<open>Invocations and audit events\<close>

definition handleCreateInvocation :: "apiEnv \<Rightarrow> apiRequest \<Rightarrow> apiHandler" where
  "handleCreateInvocation env r = runInvocation env (\<lambda>req. req) r"

definition handleListInvocations :: "apiRequest \<Rightarrow> apiHandler" where
  "handleListInvocations r meta s db =
     answer (Reply StatusOK (InvocationsBody (listInvocations
       \<lparr>lfLimit = mustPositiveQuery r ''limit'' 50, lfCursor = queryGet r ''cursor'',
        lfStatus = queryGet r ''status'', lfAction = queryGet r ''action'',
        lfActionType = queryGet r ''action_type''\<rparr> s))) s db"

definition handleInvocationRoutes :: "apiRequest \<Rightarrow> apiHandler" where
  "handleInvocationRoutes r meta s db =
     (let path = subPath r ''/v1/invocations/'' in
      if path = [] then answer (writeError meta StatusNotFound ''INVOCATION_NOT_FOUND''
                          ''invocation not found'' []) s db
      else if hasSuffix path ''/results'' then
        (case getInvocationResults (trimSuffix path ''/results'') s of
           Inl e \<Rightarrow> answer (writeServiceError meta e) s db
         | Inr rs \<Rightarrow> answer (Reply StatusOK (ResultsBody \<lparr>pgItems = rs, pgNextCursor = []\<rparr>)) s db)
      else if hasSuffix path '':cancel'' \<and> rqMethod r = ''POST'' then
        (case cancelInvocation (trimSuffix path '':cancel'') s of
           (Inl e, s') \<Rightarrow> answer (writeServiceError meta e) s' db
         | (Inr iv, s') \<Rightarrow> answer (Reply StatusOK (CancelledBody iv)) s' db)
      else if rqMethod r = ''GET'' then
        (case getInvocation path s of
           Inl e \<Rightarrow> answer (writeServiceError meta e) s db
         | Inr iv \<Rightarrow> answer (Reply StatusOK (InvocationBody iv)) s db)
      else answer (endpointNotFound meta) s db)"

definition handleListAuditEvents :: "apiRequest \<Rightarrow> apiHandler" where
  "handleListAuditEvents r meta s db =
     answer (Reply StatusOK (AuditsBody (listAuditEvents
       \<lparr>afLimit = mustPositiveQuery r ''limit'' 50, afCursor = queryGet r ''cursor'',
        afAction = queryGet r ''action'', afDecision = queryGet r ''decision'',
        afNodeId = queryGet r ''node_id'', afSubjectId = queryGet r ''subject_id''\<rparr> s))) s db"

definition handleAuditEventRoutes :: "apiRequest \<Rightarrow> apiHandler" where
  "handleAuditEventRoutes r meta s db =
     (case getAuditEvent (trimPrefix (trimSuffix (urlPath r) ''/'') ''/v1/audit/events/'') s of
        Inl e \<Rightarrow> answer (writeServiceError meta e) s db
      | Inr a \<Rightarrow> answer (Reply StatusOK (AuditBody a)) s db)"

section \<open>Routes\<close>

datatype endpoint =
    EpListNodes | EpNodeRoutes | EpListTemplates | EpCreateTemplate | EpTemplateRoutes
  | EpListInvocations | EpCreateInvocation | EpInvocationRoutes | EpListAudit | EpAuditRoutes

abbreviation route :: "string option \<Rightarrow> string list \<Rightarrow> bool \<Rightarrow> endpoint \<Rightarrow> endpoint muxPattern" where
  "route m segs tree ep \<equiv> \<lparr>mpMethod = m, mpSegments = segs, mpSubtree = tree, mpHandler = ep\<rparr>"

definition apiRoutes :: "endpoint muxPattern list" where
  "apiRoutes =
     [route (Some ''GET'') [''v1'', ''nodes''] False EpListNodes,
      route None [''v1'', ''nodes''] True EpNodeRoutes,
      route (Some ''GET'') [''v1'', ''command-templates''] False EpListTemplates,
      route (Some ''POST'') [''v1'', ''command-templates''] False EpCreateTemplate,
      route None [''v1'', ''command-templates''] True EpTemplateRoutes,
      route (Some ''GET'') [''v1'', ''invocations''] False EpListInvocations,
      route (Some ''POST'') [''v1'', ''invocations''] False EpCreateInvocation,
      route None [''v1'', ''invocations''] True EpInvocationRoutes,
      route (Some ''GET'') [''v1'', ''audit'', ''events''] False EpListAudit,
      route None [''v1'', ''audit'', ''events''] True EpAuditRoutes]"

fun allowedDomains :: "endpoint \<Rightarrow> domain list" where
  "allowedDomains EpCreateTemplate = [DomainAdmin]"
| "allowedDomains EpListAudit = [DomainAdmin]"
| "allowedDomains EpAuditRoutes = [DomainAdmin]"
| "allowedDomains _ = [DomainClient, DomainAdmin]"

fun endpointHandler :: "apiEnv \<Rightarrow> apiRequest \<Rightarrow> endpoint \<Rightarrow> apiHandler" where
  "endpointHandler env r EpListNodes = handleListNodes env r"
| "endpointHandler env r EpNodeRoutes = handleNodeRoutes env r"
| "endpointHandler env r EpListTemplates = handleListTemplates r"
| "endpointHandler env r EpCreateTemplate = handleCreateTemplate env r"
| "endpointHandler env r EpTemplateRoutes = handleTemplateRoutes env r"
| "endpointHandler env r EpListInvocations = handleListInvocations r"
| "endpointHandler env r EpCreateInvocation = handleCreateInvocation env r"
| "endpointHandler env r EpInvocationRoutes = handleInvocationRoutes r"
| "endpointHandler env r EpListAudit = handleListAuditEvents r"
| "endpointHandler env r EpAuditRoutes = handleAuditEventRoutes r"

text \<open>\<open>withRequestID\<close>: the caller's id, or a fresh one.\<close>

definition withRequestID :: "apiEnv \<Rightarrow> apiRequest \<Rightarrow> string" where
  "withRequestID env r = (if rqRequestIdHeader r = [] then avHttpId env else rqRequestIdHeader r)"

definition requestMetaFor :: "string \<Rightarrow> identity \<Rightarrow> requestMeta" where
  "requestMetaFor reqId ident = \<lparr>rmRequestId = reqId, rmSource = ''api'', rmIdentity = ident\<rparr>"

definition requireHTTP :: "apiEnv \<Rightarrow> apiRequest \<Rightarrow> domain list \<Rightarrow> apiHandler \<Rightarrow> service \<Rightarrow> database option \<Rightarrow> apiResult" where
  "requireHTTP env r allowed h s db =
     (case authenticateHTTP (avSha env) (avTokens env) (rqAuthorization r) allowed of
        Inl e \<Rightarrow>
          (let meta = requestMetaFor (withRequestID env r) noIdentity in
           if errMsg e = ''forbidden''
           then answer (writeError meta StatusForbidden ''FORBIDDEN''
                  ''token is not allowed to access this endpoint'' []) s db
           else answer (writeError meta StatusUnauthorized ''UNAUTHORIZED'' ''missing or invalid bearer token'' []) s db)
      | Inr ident \<Rightarrow> h (requestMetaFor (withRequestID env r) ident) s db)"

text \<open>The handler of \<open>NewHandler\<close>: the value of the header X-Request-Id, and the result.\<close>

definition serveAPI :: "apiEnv \<Rightarrow> apiRequest \<Rightarrow> service \<Rightarrow> database option \<Rightarrow> string \<times> apiResult" where
  "serveAPI env r s db =
     (withRequestID env r,
      (case muxFind apiRoutes (rqMethod r) (rqEscaped r) (urlPath r) of
         MuxHandler ep \<Rightarrow> requireHTTP env r (allowedDomains ep) (endpointHandler env r ep) s db
       | MuxRedirect p \<Rightarrow> answer (Redirect p) s db
       | MuxMethodNotAllowed \<Rightarrow> answer MethodNotAllowed s db
       | MuxNotFound \<Rightarrow> answer PageNotFound s db))"

end
