(* ===== verification/HttpProps.thy ===== *)
theory HttpProps
  imports HttpApi
begin

text \<open>
  What the HTTP API guarantees, over \<open>serveAPI\<close>: who may call what, what a call can make nodes do,
  which trace it leaves, and what it answers.
\<close>

section \<open>Lemmas\<close>

lemma acceptInvocation_templates [simp]:
  "templates (acceptInvocation f meta req plan s) = templates s"
  "templateNameIDs (acceptInvocation f meta req plan s) = templateNameIDs s"
  by (simp_all add: acceptInvocation_def Let_def recordAuditStart_def)

lemma updateInvocation_names [simp]: "templateNameIDs (updateInvocation i g s) = templateNameIDs s"
  by (simp add: updateInvocation_def split: option.split)

lemma finishInvocation_templates [simp]:
  "templates (finishInvocation i rs e t0 t1 s) = templates s"
  "templateNameIDs (finishInvocation i rs e t0 t1 s) = templateNameIDs s"
  by (simp_all add: finishInvocation_def Let_def finishAudit_def split: option.split)

lemma createInvocation_templates:
  "createInvocation d f meta req order ce t0 t1 s db = (res, s', msgs, db') \<Longrightarrow>
   templates s' = templates s \<and> templateNameIDs s' = templateNameIDs s"
  by (auto simp: createInvocation_def executeInvocation_def Let_def case_prod_beta beginInvocation_def
      split: sum.splits if_splits)

text \<open>The three kinds of requests: one that sends nothing, a transparent execution, an invocation.\<close>

definition quiet :: "requestMeta \<Rightarrow> service \<Rightarrow> database option \<Rightarrow> service \<Rightarrow> sent \<Rightarrow> database option \<Rightarrow> bool" where
  "quiet meta s db s' msgs db' \<longleftrightarrow> msgs = [] \<and> db' = db \<and>
     (idDomain (rmIdentity meta) \<noteq> DomainAdmin \<longrightarrow>
        templates s' = templates s \<and> templateNameIDs s' = templateNameIDs s)"

definition invoked ::
  "apiEnv \<Rightarrow> requestMeta \<Rightarrow> service \<Rightarrow> database option \<Rightarrow> service \<Rightarrow> sent \<Rightarrow> database option \<Rightarrow> bool" where
  "invoked env meta s db s' msgs db' \<longleftrightarrow> (\<exists>req order res.
     createInvocation (avDeps env) (avFresh env) meta req order (avCtxErr env) (avStarted env)
       (avFinished env) s db = (res, s', msgs, db') \<and>
     (order = dedupe (cqNodeIds req) \<or> order = avOrder env (dedupe (cqNodeIds req))))"

definition executed ::
  "apiEnv \<Rightarrow> requestMeta \<Rightarrow> service \<Rightarrow> database option \<Rightarrow> service \<Rightarrow> sent \<Rightarrow> database option \<Rightarrow> bool" where
  "executed env meta s db s' msgs db' \<longleftrightarrow> s' = s \<and> (\<exists>node t params timeout res.
     execTemplate (avDeps env) (avShowAny env) (fiRequest (avFresh env)) meta node t params timeout s db =
       (res, msgs, db'))"

text \<open>The route of the transparent execution.\<close>

definition execRoute :: "apiRequest \<Rightarrow> bool" where
  "execRoute r \<longleftrightarrow> (let parts = splitOn slash (subPath r ''/v1/nodes/'')
     in length parts = 4 \<and> parts ! 1 = ''command-templates'' \<and> parts ! 3 = ''invoke'')"

lemma quiet_answer [simp]: "answer rep s db = (rep', s', msgs, db') \<Longrightarrow> quiet meta s db s' msgs db'"
  by (auto simp: answer_def quiet_def)

lemma quiet_refl [simp]: "quiet meta s db s [] db"
  by (simp add: quiet_def)

lemma runBuiltin_cases:
  "runBuiltin env node action shape ps meta s db = (rep, s', msgs, db') \<Longrightarrow>
   quiet meta s db s' msgs db' \<or> invoked env meta s db s' msgs db'"
  unfolding runBuiltin_def directInvokeBuiltin_def invoked_def
  by (auto simp: answer_def Let_def case_prod_beta directInvokeRequest_def split: sum.splits)
    (metis surjective_pairing createInvocationRequest.select_convs(3))+

lemma runInvocation_cases:
  "runInvocation env adj r meta s db = (rep, s', msgs, db') \<Longrightarrow>
   quiet meta s db s' msgs db' \<or> invoked env meta s db s' msgs db'"
  unfolding runInvocation_def invoked_def
  by (auto simp: answer_def Let_def case_prod_beta split: sum.splits) (metis surjective_pairing)

lemma handleExecTemplate_cases:
  "handleExecTemplate env r node t meta s db = (rep, s', msgs, db') \<Longrightarrow>
   quiet meta s db s' msgs db' \<or> executed env meta s db s' msgs db'"
  unfolding handleExecTemplate_def executed_def
  by (auto simp: answer_def Let_def case_prod_beta split: sum.splits) (metis surjective_pairing)+

lemma nodeRoutes_cases:
  assumes "handleNodeRoutes env r meta s db = (rep, s', msgs, db')"
  shows "quiet meta s db s' msgs db' \<or> invoked env meta s db s' msgs db' \<and> \<not> execRoute r \<or>
    executed env meta s db s' msgs db' \<and> execRoute r"
proof -
  let ?parts = "splitOn slash (subPath r ''/v1/nodes/'')"
  consider (quiet) "quiet meta s db s' msgs db'"
    | (builtin) node action shape ps where "runBuiltin env node action shape ps meta s db = (rep, s', msgs, db')"
        "length ?parts \<noteq> 4"
    | (exec) node t where "handleExecTemplate env r node t meta s db = (rep, s', msgs, db')" "execRoute r"
    using assms
    unfolding handleNodeRoutes_def Let_def handleGetNode_def handleCapabilities_def handleGetNodeConfig_def
      handlePatchNodeConfig_def handleAction_def execRoute_def
    by (auto split: option.splits if_splits)
  then show ?thesis
  proof cases
    case builtin
    then show ?thesis using runBuiltin_cases by (auto simp: execRoute_def Let_def)
  next
    case exec
    then show ?thesis using handleExecTemplate_cases by blast
  qed blast
qed


lemma createTemplate_client:
  "idDomain (rmIdentity meta) \<noteq> DomainAdmin \<Longrightarrow> createTemplate f meta req s = (Inl adminRequired, s)"
  by (simp add: createTemplate_def normalizeMeta_def)

lemma updateTemplate_client:
  "idDomain (rmIdentity meta) \<noteq> DomainAdmin \<Longrightarrow> updateTemplate f meta i patch s = (Inl adminRequired, s)"
  by (simp add: updateTemplate_def normalizeMeta_def)

lemma handleCreateTemplate_quiet:
  "handleCreateTemplate env r meta s db = (rep, s', msgs, db') \<Longrightarrow> quiet meta s db s' msgs db'"
  unfolding handleCreateTemplate_def quiet_def
  by (auto simp: answer_def createTemplate_client split: sum.splits prod.splits)

lemma handleUpdateTemplate_quiet:
  "handleUpdateTemplate env r i meta s db = (rep, s', msgs, db') \<Longrightarrow> quiet meta s db s' msgs db'"
  unfolding handleUpdateTemplate_def quiet_def
  by (auto simp: answer_def updateTemplate_client split: sum.splits prod.splits)

lemma templateRoutes_cases:
  assumes "handleTemplateRoutes env r meta s db = (rep, s', msgs, db')"
  shows "quiet meta s db s' msgs db' \<or> invoked env meta s db s' msgs db'"
proof -
  consider (quiet) "quiet meta s db s' msgs db'"
    | (update) i where "handleUpdateTemplate env r i meta s db = (rep, s', msgs, db')"
    | (invoke) i where "handleInvokeTemplate env r i meta s db = (rep, s', msgs, db')"
    using assms unfolding handleTemplateRoutes_def Let_def
    by (auto split: option.splits sum.splits if_splits)
  then show ?thesis
    using handleUpdateTemplate_quiet runInvocation_cases by cases (auto simp: handleInvokeTemplate_def)
qed

lemma cancelInvocation_templates:
  "templates (snd (cancelInvocation i s)) = templates s"
  "templateNameIDs (snd (cancelInvocation i s)) = templateNameIDs s"
  by (simp_all add: cancelInvocation_def Let_def split: option.split)

lemma invocationRoutes_quiet:
  "handleInvocationRoutes r meta s db = (rep, s', msgs, db') \<Longrightarrow> quiet meta s db s' msgs db'"
  using cancelInvocation_templates [of "trimSuffix (subPath r ''/v1/invocations/'') '':cancel''" s]
  unfolding handleInvocationRoutes_def Let_def
  by (auto simp: answer_def quiet_def split: sum.splits prod.splits if_splits)

lemma endpoint_cases:
  assumes "endpointHandler env r ep meta s db = (rep, s', msgs, db')"
  shows "quiet meta s db s' msgs db' \<or>
    invoked env meta s db s' msgs db' \<and> (ep = EpNodeRoutes \<longrightarrow> \<not> execRoute r) \<or>
    executed env meta s db s' msgs db' \<and> ep = EpNodeRoutes \<and> execRoute r"
proof (cases ep)
  case EpListNodes
  with assms show ?thesis
    by (auto simp: handleListNodes_def split: if_splits option.splits)
next
  case EpNodeRoutes
  with nodeRoutes_cases assms show ?thesis by auto
next
  case EpCreateTemplate
  with handleCreateTemplate_quiet assms show ?thesis by auto
next
  case EpTemplateRoutes
  with templateRoutes_cases assms show ?thesis by auto
next
  case EpCreateInvocation
  with runInvocation_cases assms show ?thesis by (auto simp: handleCreateInvocation_def)
next
  case EpInvocationRoutes
  with invocationRoutes_quiet assms show ?thesis by auto
qed (use assms in \<open>auto simp: handleListTemplates_def handleListInvocations_def handleListAuditEvents_def
  handleAuditEventRoutes_def split: sum.splits\<close>)

lemma authenticate_weaken:
  "authenticateHTTP sha c h (allowedDomains ep) = Inr i \<Longrightarrow>
   authenticateHTTP sha c h [DomainClient, DomainAdmin] = Inr i"
  by (cases ep) (auto simp: authenticateHTTP_def split: sum.splits option.splits if_splits)

text \<open>A served request is refused, or its handler runs for the caller that the token names.\<close>

lemma serveAPI_cases:
  assumes "serveAPI env r s db = (rid, rep, s', msgs, db')"
  shows "s' = s \<and> msgs = [] \<and> db' = db \<or>
    (\<exists>ep ident. muxFind apiRoutes (rqMethod r) (rqEscaped r) (urlPath r) = MuxHandler ep \<and>
      authenticateHTTP (avSha env) (avTokens env) (rqAuthorization r) (allowedDomains ep) = Inr ident \<and>
      endpointHandler env r ep (requestMetaFor rid ident) s db = (rep, s', msgs, db'))"
  using assms
  by (auto simp: serveAPI_def requireHTTP_def answer_def Let_def split: muxResult.splits sum.splits if_splits)

text \<open>What a transparent execution sends.\<close>

lemma execTemplate_sent:
  assumes run: "execTemplate d sa i meta node ref ps timeout s db = (res, msgs, db')"
    and sent: "(st, m) \<in> set msgs"
  shows "\<exists>t args rec. resolveTemplate ref s = Inr t \<and> ctEnabled t \<and>
    allowRisk (idDomain (rmIdentity meta)) (ctRiskLevel t) = None \<and>
    validateParams (ctParamsSchema t) ps = ParamsOk \<and>
    matchesTargetOS (ctTargetOS t) (nodeOS (regLookup (sdReg d) node)) \<and>
    regLookup (sdReg d) node = Some rec \<and> nodeTypeOf rec = ''agent'' \<and> status rec = StatusOnline \<and>
    st = routeStream rec \<and>
    (m = toolRequestMsg rec (rmRequestId (normalizeMeta i meta)) ''run_process''
           (processPayload (teCommand (ctExecutor t)) args
             (normalizeTimeout timeout (ctDefaultTimeoutSec t) (ctMaxTimeoutSec t)) (ctMaxOutputBytes t)) \<or>
     m = CancelRequest (rmRequestId (normalizeMeta i meta)))"
proof -
  have ident: "rmIdentity (normalizeMeta i meta) = rmIdentity meta" by (simp add: normalizeMeta_def Let_def)
  obtain t where t: "resolveTemplate ref s = Inr t"
    using run sent by (cases "resolveTemplate ref s") (auto simp: execTemplate_def Let_def)
  have ok: "ctEnabled t" "allowRisk (idDomain (rmIdentity meta)) (ctRiskLevel t) = None"
    "paramError (validateParams (ctParamsSchema t) ps) = None"
    "matchesTargetOS (ctTargetOS t) (nodeOS (regLookup (sdReg d) node))"
    using run sent t by (auto simp: execTemplate_def Let_def ident split: if_splits option.splits)
  obtain command args where c: "renderTemplateCommand (sdEngine d) t ps = Inr (command, args)"
    using run sent t ok
    by (cases "renderTemplateCommand (sdEngine d) t ps") (auto simp: execTemplate_def Let_def ident)
  have cmd: "command = teCommand (ctExecutor t)"
    using c by (auto simp: renderTemplateCommand_def split: sum.splits)
  have "(st, m) \<in> set (fst (snd (invokeToolWithRequest d (rmRequestId (normalizeMeta i meta)) node ''run_process''
      (processPayload command args (normalizeTimeout timeout (ctDefaultTimeoutSec t) (ctMaxTimeoutSec t))
        (ctMaxOutputBytes t)) db)))"
    using run sent t ok c
    by (auto simp: execTemplate_def Let_def ident case_prod_beta split: sum.splits option.splits)
  from invokeTool_sent [OF this] t ok cmd show ?thesis by (auto simp: paramError_ok)
qed


lemma finishInvocation_audit:
  assumes "map_of (audits s) e = Some a"
  shows "\<exists>dc t. map_of (audits (finishInvocation i rs ce t0 t1 s)) e = Some (a\<lparr>auDecision := dc, auFinishedAt := t\<rparr>)"
proof -
  have id: "\<exists>dc t. a = a\<lparr>auDecision := dc, auFinishedAt := t\<rparr>"
    by (rule exI [of _ "auDecision a"], rule exI [of _ "auFinishedAt a"]) simp
  with assms show ?thesis
    unfolding finishInvocation_def Let_def finishAudit_def by (simp split: option.split add: id) blast
qed

lemma beginInvocation_audits [simp]: "audits (beginInvocation i t s) = audits s"
  by (simp add: beginInvocation_def)

lemma invoked_sent:
  assumes run: "invoked env meta s db s' msgs db'" and sent: "(st, ToolRequest q) \<in> set msgs"
    and order: "\<And>ts. set (avOrder env ts) \<subseteq> set ts" and reg: "rmRequestId meta \<noteq> []"
  shows "\<exists>a n rec. map_of (audits s') (fiEvent (avFresh env)) = Some a \<and>
    auRequestId a = rmRequestId meta \<and> auSubjectId a = subjectID (rmIdentity meta) \<and>
    auTokenType a = idDomain (rmIdentity meta) \<and> n \<in> set (auTargetNodeIds a) \<and>
    regLookup (sdReg (avDeps env)) n = Some rec \<and> trTargetHost q = hostname rec \<and> st = routeStream rec"
proof -
  let ?f = "avFresh env"
  let ?m = "normalizeMeta (fiRequest ?f) meta"
  have m: "rmRequestId ?m = rmRequestId meta" "rmIdentity ?m = rmIdentity meta"
    using reg by (simp_all add: normalizeMeta_def Let_def)
  from run obtain req order res where
    c: "createInvocation (avDeps env) ?f meta req order (avCtxErr env) (avStarted env) (avFinished env) s db =
      (res, s', msgs, db')"
    and o: "order = dedupe (cqNodeIds req) \<or> order = avOrder env (dedupe (cqNodeIds req))"
    unfolding invoked_def by blast
  from createInvocation_sent [of st "ToolRequest q" "avDeps env" ?f meta req order "avCtxErr env"
      "avStarted env" "avFinished env" s db] c sent
  obtain plan n db0 where p: "preparePlan ?m req s = Inr plan" and n: "n \<in> set order"
    and e: "(st, ToolRequest q) \<in> set (fst (snd (executeTarget (avDeps env) (fiObject ?f) n plan db0)))" by auto
  have tg: "epTargets plan = dedupe (cqNodeIds req)" using p by (cases rule: preparePlan_cases) auto
  have n': "n \<in> set (epTargets plan)" using n o order tg by auto
  have sync: "\<not> cqAsync req" using c p sent by (auto simp: createInvocation_def Let_def)
  let ?i = "fiObject ?f"
  let ?s1 = "acceptInvocation ?f ?m req plan s"
  obtain rs where s': "s' = finishInvocation ?i rs (avCtxErr env) (avStarted env) (avFinished env)
      (beginInvocation ?i (avStarted env) ?s1)"
    using c p sync by (auto simp: createInvocation_def executeInvocation_def Let_def case_prod_beta)
  have "\<exists>a. map_of (audits ?s1) (fiEvent ?f) = Some a \<and> auRequestId a = rmRequestId meta \<and>
      auSubjectId a = subjectID (rmIdentity meta) \<and> auTokenType a = idDomain (rmIdentity meta) \<and>
      auTargetNodeIds a = epTargets plan"
    by (simp add: acceptInvocation_def Let_def recordAuditStart_def newInvocation_def m)
  then obtain a where a: "map_of (audits s') (fiEvent ?f) = Some a" "auRequestId a = rmRequestId meta"
      "auSubjectId a = subjectID (rmIdentity meta)" "auTokenType a = idDomain (rmIdentity meta)"
      "auTargetNodeIds a = epTargets plan"
    using finishInvocation_audit [of "beginInvocation ?i (avStarted env) ?s1"] unfolding s' by force
  with n' target_requests [OF e] show ?thesis by metis
qed

text \<open>What a caller without the admin token may have sent.\<close>

definition readonlyRequest :: "svcDeps \<Rightarrow> service \<Rightarrow> toolRequest \<Rightarrow> bool" where
  "readonlyRequest d s q \<longleftrightarrow> trToolName q \<in> set readonlyTools \<or>
     trToolName q = ''run_process'' \<and> (\<exists>i t params args timeout n.
        map_of (templates s) i = Some t \<and> ctEnabled t \<and> ctRiskLevel t = riskReadonly \<and>
        validateParams (ctParamsSchema t) params = ParamsOk \<and>
        matchesTargetOS (ctTargetOS t) (nodeOS (regLookup (sdReg d) n)) \<and>
        trArgsJson q = processPayload (teCommand (ctExecutor t)) args timeout (ctMaxOutputBytes t))"

lemma executed_readonly:
  assumes run: "executed env meta s db s' msgs db'" and client: "idDomain (rmIdentity meta) \<noteq> DomainAdmin"
    and sent: "(st, ToolRequest q) \<in> set msgs"
  shows "readonlyRequest (avDeps env) s q"
proof -
  from run obtain node tpl ps timeout res where
    x: "execTemplate (avDeps env) (avShowAny env) (fiRequest (avFresh env)) meta node tpl ps timeout s db =
      (res, msgs, db')" unfolding executed_def by blast
  from execTemplate_sent [OF x sent] obtain t args rec where t: "resolveTemplate tpl s = Inr t" "ctEnabled t"
    "allowRisk (idDomain (rmIdentity meta)) (ctRiskLevel t) = None"
    "validateParams (ctParamsSchema t) ps = ParamsOk"
    "matchesTargetOS (ctTargetOS t) (nodeOS (regLookup (sdReg (avDeps env)) node))"
    and q: "ToolRequest q = toolRequestMsg rec (rmRequestId (normalizeMeta (fiRequest (avFresh env)) meta))
      ''run_process'' (processPayload (teCommand (ctExecutor t)) args
        (normalizeTimeout timeout (ctDefaultTimeoutSec t) (ctMaxTimeoutSec t)) (ctMaxOutputBytes t))" by auto
  from q have "trToolName q = ''run_process''" "trArgsJson q = processPayload (teCommand (ctExecutor t)) args
        (normalizeTimeout timeout (ctDefaultTimeoutSec t) (ctMaxTimeoutSec t)) (ctMaxOutputBytes t)"
    by (simp_all add: toolRequestMsg_def)
  moreover have "ctRiskLevel t = riskReadonly" using t(3) client by (simp add: allowRisk_None)
  moreover obtain i where "map_of (templates s) i = Some t" using resolveTemplate_stored [OF t(1)] by blast
  ultimately show ?thesis using t(2,4,5) unfolding readonlyRequest_def by blast
qed

lemma invoked_readonly:
  assumes run: "invoked env meta s db s' msgs db'" and client: "idDomain (rmIdentity meta) \<noteq> DomainAdmin"
    and sent: "(st, ToolRequest q) \<in> set msgs"
  shows "readonlyRequest (avDeps env) s q"
  using run client_sends_readonly [OF _ client sent] unfolding invoked_def readonlyRequest_def by blast

lemma direct_plan:
  assumes "preparePlan meta (directInvokeRequest node action ps) s = Inr plan"
  shows "epTemplate plan = None" and "epTargets plan = dedupe [node]" and "epParams plan = ps"
proof -
  have b: "trimSpace actionTypeBuiltin = actionTypeBuiltin" unfolding actionType_defs by code_simp
  show "epTemplate plan = None" "epTargets plan = dedupe [node]" "epParams plan = ps"
    using assms unfolding preparePlan_def directInvokeRequest_def
    by (auto simp: b planBuiltin_def Let_def split: if_splits sum.splits option.splits)
qed

text \<open>A direct call runs its plan on its one target, or on none.\<close>

lemma directInvoke_run:
  assumes plan: "preparePlan (normalizeMeta (fiRequest (avFresh env)) meta)
      (directInvokeRequest node action ps) s = Inr plan"
  shows "directInvokeBuiltin env meta node action ps s db =
    (let i = fiObject (avFresh env); d = avDeps env;
         s1 = beginInvocation i (avStarted env) (acceptInvocation (avFresh env)
                (normalizeMeta (fiRequest (avFresh env)) meta) (directInvokeRequest node action ps) plan s);
         (rs, msgs, db') = runTargets d i plan (dedupe [node]) db
     in (Inr (case rs of [] \<Rightarrow> None | x # xs \<Rightarrow> Some x),
         finishInvocation i rs (avCtxErr env) (avStarted env) (avFinished env) s1, msgs, db'))"
proof -
  have sync: "\<not> cqAsync (directInvokeRequest node action ps)" by (simp add: directInvokeRequest_def)
  have one: "sort_key irNodeId (fst (runTargets d i plan (dedupe [node]) db)) =
      fst (runTargets d i plan (dedupe [node]) db)" for d i
    by (simp add: runTargets_results dedupe_def Let_def)
  show ?thesis
    using sync by (simp add: directInvokeBuiltin_def createInvocation_def plan executeInvocation_def Let_def
        case_prod_beta one)
qed

section \<open>Examples\<close>

definition exApi :: "catalog \<Rightarrow> apiEnv" where
  "exApi c = \<lparr>avSha = (\<lambda>s. s), avTokens = c, avDeps = exDeps (Answer (ToolResponse ''x'' (JRaw ''ok''))),
     avHttpId = ''http-1'', avFresh = exFresh, avOrder = (\<lambda>ts. ts), avCtxErr = None, avStarted = 1,
     avFinished = 2, avShowAny = (\<lambda>_. [])\<rparr>"

definition exNoTokens :: catalog where
  "exNoTokens = \<lparr>httpTokens = [], registrationTokens = []\<rparr>"

definition exCall :: "string \<Rightarrow> string \<Rightarrow> apiRequest" where
  "exCall escaped auth = \<lparr>rqMethod = ''POST'', rqEscaped = escaped, rqQuery = [], rqAuthorization = auth,
     rqRequestIdHeader = ''same'', rqContentLength = 0, rqBody = Inl (ErrText ''EOF'')\<rparr>"

abbreviation exActionCall :: apiRequest where
  "exActionCall \<equiv> exCall ''/v1/nodes/a/actions/sys.hardware'' ''Bearer c1''"

abbreviation exExecCall :: apiRequest where
  "exExecCall \<equiv> exCall ''/v1/nodes/a/command-templates/t1/invoke'' ''Bearer c1''"

definition exReady :: service where
  "exReady = (exService riskReadonly)\<lparr>templates := [(''t1'', (exTemplate riskReadonly)\<lparr>ctParamsSchema := [(''type'', JStr ''object'')]\<rparr>)]\<rparr>"

lemma exRoutes:
  "muxFind apiRoutes ''POST'' ''/v1/nodes/a/actions/sys.hardware'' ''/v1/nodes/a/actions/sys.hardware'' =
     MuxHandler EpNodeRoutes"
  "muxFind apiRoutes ''POST'' ''/v1/nodes/a/command-templates/t1/invoke''
     ''/v1/nodes/a/command-templates/t1/invoke'' = MuxHandler EpNodeRoutes"
  by code_simp+

lemma exPaths:
  "urlPath exActionCall = ''/v1/nodes/a/actions/sys.hardware''"
  "urlPath exExecCall = ''/v1/nodes/a/command-templates/t1/invoke''"
  "splitOn slash (subPath exActionCall ''/v1/nodes/'') = [''a'', ''actions'', ''sys.hardware'']"
  "splitOn slash (subPath exExecCall ''/v1/nodes/'') = [''a'', ''command-templates'', ''t1'', ''invoke'']"
  "pathUnescape ''a'' = Some ''a''" "pathUnescape ''t1'' = Some ''t1''"
  by code_simp+

lemma exSubPaths: "subPath exActionCall ''/v1/nodes/'' \<noteq> []" "subPath exExecCall ''/v1/nodes/'' \<noteq> []"
  using exPaths(3,4) by auto


lemma exAuth:
  assumes "newCatalog (\<lambda>s. s) [''c1''] [''a1''] [''g1''] [''p1''] = Inr c"
  shows "authenticateHTTP (\<lambda>s. s) c ''Bearer c1'' [DomainClient, DomainAdmin] =
    Inr (identityFor (\<lambda>s. s) DomainClient 0 ''c1'')"
proof -
  have "bearerToken ''Bearer c1'' = Inr ''c1''" "trimSpace ''c1'' = ''c1''" by code_simp+
  then show ?thesis unfolding http_identity [OF assms] by (simp add: identityFor_def)
qed

abbreviation exCaller :: requestMeta where
  "exCaller \<equiv> requestMetaFor ''same'' (identityFor (\<lambda>s. s) DomainClient 0 ''c1'')"

lemma exServed:
  assumes "newCatalog (\<lambda>s. s) [''c1''] [''a1''] [''g1''] [''p1''] = Inr c"
  shows "serveAPI (exApi c) exActionCall s db =
      (''same'', handleAction (exApi c) exActionCall ''a'' ''sys.hardware'' exCaller s db)"
    and "serveAPI (exApi c) exExecCall s db =
      (''same'', handleExecTemplate (exApi c) exExecCall ''a'' ''t1'' exCaller s db)"
proof -
  have f: "rqMethod (exCall e a) = ''POST''" "rqEscaped (exCall e a) = e" "rqAuthorization (exCall e a) = a"
    "withRequestID (exApi c) (exCall e a) = ''same''" "avSha (exApi c) = (\<lambda>s. s)" "avTokens (exApi c) = c" for e a
    by (simp_all add: exCall_def withRequestID_def exApi_def)
  show "serveAPI (exApi c) exActionCall s db =
      (''same'', handleAction (exApi c) exActionCall ''a'' ''sys.hardware'' exCaller s db)"
    by (simp add: serveAPI_def f exPaths exRoutes requireHTTP_def exAuth [OF assms] handleNodeRoutes_def exSubPaths)
  show "serveAPI (exApi c) exExecCall s db =
      (''same'', handleExecTemplate (exApi c) exExecCall ''a'' ''t1'' exCaller s db)"
    by (simp add: serveAPI_def f exPaths exRoutes requireHTTP_def exAuth [OF assms] handleNodeRoutes_def exSubPaths)
qed

lemma exCaller_meta: "normalizeMeta (fiRequest exFresh) exCaller = exCaller"
  by (simp add: normalizeMeta_def requestMetaFor_def)

lemma exDirect_plan:
  assumes "node = ''a'' \<and> ts = [''a''] \<or> node = '' '' \<and> ts = []"
  shows "preparePlan exCaller (directInvokeRequest node ''sys.hardware'' []) s = Inr (exPlan\<lparr>epTargets := ts\<rparr>)"
proof -
  have n: "normalizeAction ''sys.hardware'' = ''sys.hardware''" "trimSpace ''builtin'' = ''builtin''"
    "dedupe [''a''] = [''a'']" "dedupe ['' ''] = []" by code_simp+
  have b: "builtinSpecFor ''sys.hardware'' = Inr \<lparr>bsRiskLevel = riskReadonly,
      bsMarshal = (\<lambda>_. (''get_hardware_info'', JText (JObj []))), bsTransform = Inr\<rparr>"
    by (simp add: builtinSpecFor_def n)
  show ?thesis
    using assms by (auto simp: preparePlan_def directInvokeRequest_def n actionTypeBuiltin_def planBuiltin_def b
        allowRisk_def exPlan_def normalizeTimeout_def)
qed

lemma exAction_sent:
  assumes "newCatalog (\<lambda>s. s) [''c1''] [''a1''] [''g1''] [''p1''] = Inr c"
  shows "\<exists>rep s' db' q. serveAPI (exApi c) exActionCall newService None = (''same'', rep, s', [(1, ToolRequest q)], db')"
proof -
  have p: "preparePlan (normalizeMeta (fiRequest (avFresh (exApi c))) exCaller)
      (directInvokeRequest ''a'' ''sys.hardware'' []) newService = Inr (exPlan\<lparr>epTargets := [''a'']\<rparr>)"
    using exDirect_plan [of "''a''" "[''a'']"] exCaller_meta by (simp add: exApi_def)
  have b: "decodeJSONMap exActionCall = Inr []" by (simp add: decodeJSONMap_def exCall_def)
  have d: "dedupe [''a''] = [''a'']" by code_simp
  have e: "avDeps (exApi c) = exDeps (Answer (ToolResponse ''x'' (JRaw ''ok'')))" by (simp add: exApi_def)
  have "fst (snd (snd (snd (serveAPI (exApi c) exActionCall newService None)))) =
      [(1, toolRequestMsg (exRecord ''a'' 1) (fiObject (avFresh (exApi c))) ''get_hardware_info'' (JText (JObj [])))]"
    by (simp add: exServed [OF assms] handleAction_def runBuiltin_def b directInvoke_run [OF p] Let_def case_prod_beta d
        e exTarget_sent)
  moreover have "fst (serveAPI (exApi c) exActionCall newService None) = ''same''" by (simp add: exServed [OF assms])
  ultimately show ?thesis unfolding toolRequestMsg_def by (metis prod.collapse)
qed

lemma exExec_sent:
  assumes "newCatalog (\<lambda>s. s) [''c1''] [''a1''] [''g1''] [''p1''] = Inr c"
  shows "\<exists>rep s' db' q. serveAPI (exApi c) exExecCall exReady None = (''same'', rep, s', [(1, ToolRequest q)], db')"
proof -
  have t: "resolveTemplate ''t1'' exReady = Inr ((exTemplate riskReadonly)\<lparr>ctParamsSchema := [(''type'', JStr ''object'')]\<rparr>)"
    by (simp add: resolveTemplate_def exReady_def exService_def)
  have v: "validateParams [(''type'', JStr ''object'')] [] = ParamsOk"
    by (simp add: validateParams_def validateSchema_def schemaProps_def requiredNames_def List.map_filter_def)
  have n: "regLookup (sdReg (exDeps aw)) ''a'' = Some (exRecord ''a'' 1)" for aw by (rule exDeps_nodes)
  have f: "nodeTypeOf (exRecord ''a'' 1) = ''agent''" "status (exRecord ''a'' 1) = StatusOnline"
    "routeStream (exRecord ''a'' k) = k" for k by (simp_all add: exRecord_def)
  have env: "sdEnv (exDeps aw) q h = exEnv aw" "sdEngine (exDeps aw) = \<lparr>parseTemplate = (\<lambda>_. None), executeTemplateText = (\<lambda>s _. Inr s)\<rparr>"
    for aw q h by (simp_all add: exDeps_def)
  have m: "fst (snd (invokeToolWithRequest (exDeps (Answer (ToolResponse x r))) i ''a'' tool args db)) =
      [(1, toolRequestMsg (exRecord ''a'' 1) i tool args)]" for x r i tool args db
    by (simp add: invokeTool_online [OF n f(1,2)] Let_def env exEnv_def routerSend_def f(3))
  have c: "renderTemplateCommand \<lparr>parseTemplate = (\<lambda>_. None), executeTemplateText = (\<lambda>s _. Inr s)\<rparr>
      ((exTemplate riskReadonly)\<lparr>ctParamsSchema := [(''type'', JStr ''object'')]\<rparr>) [] = Inr (''/bin/ls'', [])"
    by (simp add: renderTemplateCommand_def exTemplate_def)
  have g: "ctEnabled (exTemplate riskReadonly)" "ctRiskLevel (exTemplate riskReadonly) = riskReadonly"
    "ctTargetOS (exTemplate riskReadonly) = []" by (simp_all add: exTemplate_def)
  have x: "\<exists>q. fst (snd (execTemplate (exDeps (Answer (ToolResponse ''x'' (JRaw ''ok'')))) sa (fiRequest exFresh) exCaller ''a'' ''t1'' [] 0 exReady None)) =
      [(1, ToolRequest q)]" for sa
    by (simp add: execTemplate_def t exCaller_meta c env m case_prod_beta Let_def v g allowRisk_None
        matchesTargetOS_def toolRequestMsg_def split: sum.split option.split)
  have "\<exists>q. fst (snd (snd (snd (serveAPI (exApi c) exExecCall exReady None)))) = [(1, ToolRequest q)]"
  proof -
    have "rqContentLength exExecCall = 0" "avFresh (exApi c) = exFresh"
      "avDeps (exApi c) = exDeps (Answer (ToolResponse ''x'' (JRaw ''ok'')))"
      by (simp_all add: exApi_def exCall_def)
    with x show ?thesis by (simp add: exServed [OF assms] handleExecTemplate_def case_prod_beta)
  qed
  moreover have "fst (serveAPI (exApi c) exExecCall exReady None) = ''same''" by (simp add: exServed [OF assms])
  ultimately show ?thesis by (metis prod.collapse)
qed

section \<open>Properties\<close>





text \<open>
  Property C6: the route that runs a template directly leaves no trace in the service, and lets the
  caller choose the id under which the tool request is sent: whatever header X-Request-Id holds.
\<close>

theorem http_exec_untraced:
  assumes serve: "serveAPI env r s db = (rid, rep, s', msgs, db')"
    and sent: "(st, ToolRequest q) \<in> set msgs" and route: "execRoute r"
    and ep: "muxFind apiRoutes (rqMethod r) (rqEscaped r) (urlPath r) = MuxHandler EpNodeRoutes"
    and header: "rqRequestIdHeader r \<noteq> []"
  shows "s' = s \<and> trToolName q = ''run_process'' \<and> trRequestId q = rqRequestIdHeader r"
  using serveAPI_cases [OF serve]
proof (elim disjE exE conjE)
  fix ep' ident
  assume run: "endpointHandler env r ep' (requestMetaFor rid ident) s db = (rep, s', msgs, db')"
    and ep': "muxFind apiRoutes (rqMethod r) (rqEscaped r) (urlPath r) = MuxHandler ep'"
  let ?m = "requestMetaFor rid ident"
  have rid: "rid = rqRequestIdHeader r" using serve header by (simp add: serveAPI_def withRequestID_def)
  from endpoint_cases [OF run] route sent ep ep' have "executed env ?m s db s' msgs db'"
    by (auto simp: quiet_def)
  then obtain node tpl ps timeout res where
    x: "execTemplate (avDeps env) (avShowAny env) (fiRequest (avFresh env)) ?m node tpl ps timeout s db =
      (res, msgs, db')" and s: "s' = s" unfolding executed_def by blast
  have "rmRequestId (normalizeMeta (fiRequest (avFresh env)) ?m) = rid"
    using header rid by (simp add: normalizeMeta_def requestMetaFor_def)
  with execTemplate_sent [OF x sent] s rid show ?thesis by (auto simp: toolRequestMsg_def)
qed (use sent in simp_all)


theorem http_exec_untraced_witness:
  "\<exists>c rep db' q. serveAPI (exApi c) exExecCall exReady None = (''same'', rep, exReady, [(1, ToolRequest q)], db') \<and>
     trRequestId q = ''same''"
proof -
  obtain c where c: "newCatalog (\<lambda>s. s) [''c1''] [''a1''] [''g1''] [''p1''] = Inr c"
    using exampleCatalog by blast
  obtain rep s' db' q where s: "serveAPI (exApi c) exExecCall exReady None = (''same'', rep, s', [(1, ToolRequest q)], db')"
    using exExec_sent [OF c] by blast
  have f: "rqMethod exExecCall = ''POST''" "rqEscaped exExecCall = ''/v1/nodes/a/command-templates/t1/invoke''"
    "rqRequestIdHeader exExecCall = ''same''" by (simp_all add: exCall_def)
  have m: "(1, ToolRequest q) \<in> set [(1, ToolRequest q)]" by simp
  have r: "execRoute exExecCall" by (simp add: execRoute_def exPaths)
  have ep: "muxFind apiRoutes (rqMethod exExecCall) (rqEscaped exExecCall) (urlPath exExecCall) = MuxHandler EpNodeRoutes"
    unfolding exPaths f(1,2) by (rule exRoutes)
  have h: "rqRequestIdHeader exExecCall \<noteq> []" by (simp add: f)
  from http_exec_untraced [OF s m r ep h] have x: "s' = exReady" "trRequestId q = ''same''" unfolding f(3) by blast+
  from s x(2) show ?thesis unfolding x(1) by blast
qed

lemma authenticate_token:
  "bearerToken h = Inr t \<Longrightarrow> authenticateHTTP sha c h allowed =
    (case map_of (httpTokens c) (tokenFingerprint sha t) of
       None \<Rightarrow> Inl (ErrText ''unauthorized'')
     | Some i \<Rightarrow> if allowed = [] \<or> idDomain i \<in> set allowed then Inr i else Inl (ErrText ''forbidden''))"
  by (simp add: authenticateHTTP_def split: option.split)

lemma bearerToken_not_forbidden: "bearerToken h = Inl e \<Longrightarrow> errMsg e \<noteq> ''forbidden''"
  by (auto simp: bearerToken_def Let_def split: if_splits)

lemma allowedDomains_client: "DomainClient \<in> set (allowedDomains ep) \<longleftrightarrow> ep \<notin> {EpCreateTemplate, EpListAudit, EpAuditRoutes}"
  by (cases ep) (simp_all add: domain_defs)

lemma allowedDomains_admin: "DomainAdmin \<in> set (allowedDomains ep)" "allowedDomains ep \<noteq> []"
  by (cases ep; simp)+

text \<open>
  Property C7: who may call an endpoint.  With an accepted configuration, a request to an
  endpoint is answered 401 unless its bearer token is one of the client or admin tokens; a client
  token is answered 403 at the creation of templates and at the audit trail; neither changes or sends
  anything; in every other case the endpoint's handler runs for the identity of the token.
\<close>

theorem http_access:
  assumes cat: "newCatalog (avSha env) cl ad ag px = Inr (avTokens env)"
    and ep: "muxFind apiRoutes (rqMethod r) (rqEscaped r) (urlPath r) = MuxHandler ep"
  shows "((\<forall>t \<in> set cl \<union> set ad. \<forall>token. bearerToken (rqAuthorization r) = Inr token \<longrightarrow>
        tokenFingerprint (avSha env) token \<noteq> fpOf (avSha env) t) \<longrightarrow>
      (\<exists>e. serveAPI env r s db = (withRequestID env r, Reply StatusUnauthorized (ErrorBody e), s, [], db))) \<and>
    (\<forall>token j. bearerToken (rqAuthorization r) = Inr token \<longrightarrow> j < length cl \<longrightarrow>
        tokenFingerprint (avSha env) token = fpOf (avSha env) (cl ! j) \<longrightarrow>
      (if ep \<in> {EpCreateTemplate, EpListAudit, EpAuditRoutes}
       then \<exists>e. serveAPI env r s db = (withRequestID env r, Reply StatusForbidden (ErrorBody e), s, [], db)
       else serveAPI env r s db = (withRequestID env r, endpointHandler env r ep (requestMetaFor
         (withRequestID env r) (identityFor (avSha env) DomainClient j (trimSpace (cl ! j)))) s db))) \<and>
    (\<forall>token j. bearerToken (rqAuthorization r) = Inr token \<longrightarrow> j < length ad \<longrightarrow>
        tokenFingerprint (avSha env) token = fpOf (avSha env) (ad ! j) \<longrightarrow>
      serveAPI env r s db = (withRequestID env r, endpointHandler env r ep (requestMetaFor
         (withRequestID env r) (identityFor (avSha env) DomainAdmin j (trimSpace (ad ! j)))) s db))"
proof (intro conjI impI allI)
  let ?auth = "authenticateHTTP (avSha env) (avTokens env) (rqAuthorization r) (allowedDomains ep)"
  have run: "serveAPI env r s db = (withRequestID env r,
      requireHTTP env r (allowedDomains ep) (endpointHandler env r ep) s db)"
    using ep by (simp add: serveAPI_def)
  {
    assume no: "\<forall>t \<in> set cl \<union> set ad. \<forall>token. bearerToken (rqAuthorization r) = Inr token \<longrightarrow>
        tokenFingerprint (avSha env) token \<noteq> fpOf (avSha env) t"
    have "\<exists>e. ?auth = Inl e \<and> errMsg e \<noteq> ''forbidden''"
    proof (cases "bearerToken (rqAuthorization r)")
      case (Inl e)
      then show ?thesis using bearerToken_not_forbidden by (auto simp: authenticateHTTP_def)
    next
      case (Inr t)
      have "map_of (httpTokens (avTokens env)) (tokenFingerprint (avSha env) t) \<noteq> Some i" for i
        unfolding newCatalog_http [OF cat] using no Inr by (metis UnCI nth_mem)
      then have "map_of (httpTokens (avTokens env)) (tokenFingerprint (avSha env) t) = None" by fastforce
      then show ?thesis by (simp add: authenticate_token [OF Inr])
    qed
    then show "\<exists>e. serveAPI env r s db = (withRequestID env r, Reply StatusUnauthorized (ErrorBody e), s, [], db)"
      unfolding run by (auto simp: requireHTTP_def answer_def Let_def writeError_def)
  }
  fix token j
  assume b: "bearerToken (rqAuthorization r) = Inr token"
  {
    assume j: "j < length cl" "tokenFingerprint (avSha env) token = fpOf (avSha env) (cl ! j)"
    then have "map_of (httpTokens (avTokens env)) (tokenFingerprint (avSha env) token) =
        Some (identityFor (avSha env) DomainClient j (trimSpace (cl ! j)))"
      unfolding newCatalog_http [OF cat] by blast
    then have "?auth = (if DomainClient \<in> set (allowedDomains ep)
        then Inr (identityFor (avSha env) DomainClient j (trimSpace (cl ! j))) else Inl (ErrText ''forbidden''))"
      by (simp add: authenticate_token [OF b] allowedDomains_admin identityFor_def)
    then show "if ep \<in> {EpCreateTemplate, EpListAudit, EpAuditRoutes}
       then \<exists>e. serveAPI env r s db = (withRequestID env r, Reply StatusForbidden (ErrorBody e), s, [], db)
       else serveAPI env r s db = (withRequestID env r, endpointHandler env r ep (requestMetaFor
         (withRequestID env r) (identityFor (avSha env) DomainClient j (trimSpace (cl ! j)))) s db)"
      unfolding run allowedDomains_client
      by (simp add: requireHTTP_def answer_def Let_def writeError_def del: insert_iff)
  }
  assume j: "j < length ad" "tokenFingerprint (avSha env) token = fpOf (avSha env) (ad ! j)"
  then have "map_of (httpTokens (avTokens env)) (tokenFingerprint (avSha env) token) =
      Some (identityFor (avSha env) DomainAdmin j (trimSpace (ad ! j)))"
    unfolding newCatalog_http [OF cat] by blast
  then have "?auth = Inr (identityFor (avSha env) DomainAdmin j (trimSpace (ad ! j)))"
    by (simp add: authenticate_token [OF b] allowedDomains_admin identityFor_def)
  then show "serveAPI env r s db = (withRequestID env r, endpointHandler env r ep (requestMetaFor
         (withRequestID env r) (identityFor (avSha env) DomainAdmin j (trimSpace (ad ! j)))) s db)"
    unfolding run by (simp add: requireHTTP_def)
qed

theorem http_access_witness:
  "\<exists>c. newCatalog (\<lambda>s. s) [''c1''] [''a1''] [''g1''] [''p1''] = Inr c \<and>
     serveAPI (exApi c) exActionCall newService None =
       (''same'', endpointHandler (exApi c) exActionCall EpNodeRoutes exCaller newService None)"
proof -
  obtain c where c: "newCatalog (\<lambda>s. s) [''c1''] [''a1''] [''g1''] [''p1''] = Inr c"
    using exampleCatalog by blast
  have e: "avSha (exApi c) = (\<lambda>s. s)" "avTokens (exApi c) = c" "rqAuthorization exActionCall = ''Bearer c1''"
    "rqMethod exActionCall = ''POST''" "rqEscaped exActionCall = ''/v1/nodes/a/actions/sys.hardware''"
    "withRequestID (exApi c) exActionCall = ''same''"
    by (simp_all add: exApi_def exCall_def withRequestID_def)
  have b: "bearerToken ''Bearer c1'' = Inr ''c1''" "trimSpace ''c1'' = ''c1''" by code_simp+
  have c': "newCatalog (avSha (exApi c)) [''c1''] [''a1''] [''g1''] [''p1''] = Inr (avTokens (exApi c))"
    using c by (simp add: e)
  have ep: "muxFind apiRoutes (rqMethod exActionCall) (rqEscaped exActionCall) (urlPath exActionCall) = MuxHandler EpNodeRoutes"
    unfolding exPaths e(4,5) by (rule exRoutes)
  from http_access [OF c' ep, of newService None, THEN conjunct2, THEN conjunct1, rule_format, of "''c1''" 0] c
  show ?thesis by (auto simp: e b)
qed

lemma pageOf_paginate: "pageOf items cursor limit idFn = paginate items cursor (nat limit) idFn"
  using cursorStart_le [of idFn cursor items] by (simp add: pageOf_def paginate_def Let_def min_def)

lemma buildNode_id [simp]: "nrId (buildNode rec) = hostname rec"
  by (simp add: buildNode_def Let_def)

text \<open>
  Property C29: the listing of the nodes.  It holds exactly the registered agents that pass the
  filters, once each, sorted by host name; a client that follows the cursors from the first page
  gets all of them.
\<close>

theorem http_nodes_listed:
  assumes reg: "regInv (sdReg (avDeps env))" and named: "regLookup (sdReg (avDeps env)) [] = None"
    and sel: "queryGet r ''label_selector'' = []"
    and limit: "parsePositiveIntQuery r ''limit'' 50 200 = Some limit"
  defines "items \<equiv> listedNodes (sdReg (avDeps env)) (queryGet r ''hostname'') (queryGet r ''status'')"
  shows "handleListNodes env r meta s db = (Reply StatusOK (NodesBody
      (paginate items (queryGet r ''cursor'') (nat limit) nrId)), s, [], db) \<and>
    sorted (List.map nrId items) \<and> distinct (List.map nrId items) \<and>
    (\<forall>h. h \<in> nrId ` set items \<longleftrightarrow> (\<exists>rec. regLookup (sdReg (avDeps env)) h = Some rec \<and>
       nodeTypeOf rec = ''agent'' \<and> (queryGet r ''hostname'' = [] \<or> h = queryGet r ''hostname'') \<and>
       (queryGet r ''status'' = [] \<or> statusStr (status rec) = queryGet r ''status''))) \<and>
    concat (List.map pgItems (fetchPages (Suc (length items)) [] items (nat limit) nrId)) = items"
proof -
  let ?m = "records (sdReg (avDeps env))"
  have wf: "wfMap ?m" and host: "\<And>h rec. (h, rec) \<in> set ?m \<Longrightarrow> hostname rec = h"
    using reg by (auto simp: regInv_def recordsInv_def)
  have hosts: "List.map hostname (regAll (sdReg (avDeps env))) = List.map fst ?m"
    using host by (auto simp: regAll_def)
  have dist: "distinct (List.map nrId items)"
  proof -
    have "distinct (List.map hostname (filter P (regAll (sdReg (avDeps env)))))" for P
      by (rule distinct_map_filter) (simp add: hosts wf)
    moreover have "mset (List.map nrId (sort_key nrId (List.map buildNode xs))) = mset (List.map hostname xs)" for xs
      by (simp add: mset_map image_mset.compositionality comp_def)
    note mset_eq_imp_distinct_iff [OF this]
    ultimately show ?thesis by (simp only: items_def listedNodes_def)
  qed
  have mem: "h \<in> nrId ` set items \<longleftrightarrow> (\<exists>rec. regLookup (sdReg (avDeps env)) h = Some rec \<and>
       nodeTypeOf rec = ''agent'' \<and> (queryGet r ''hostname'' = [] \<or> h = queryGet r ''hostname'') \<and>
       (queryGet r ''status'' = [] \<or> statusStr (status rec) = queryGet r ''status''))" for h
    using wf host by (fastforce simp: items_def listedNodes_def regAll_def regLookup_def image_iff)
  have ne: "[] \<notin> nrId ` set items" using named mem by auto
  have pos: "0 < nat limit"
    using limit by (auto simp: parsePositiveIntQuery_def Let_def split: if_splits option.splits)
  have "handleListNodes env r meta s db = (Reply StatusOK (NodesBody
      (paginate items (queryGet r ''cursor'') (nat limit) nrId)), s, [], db)"
    using sel limit by (simp add: handleListNodes_def pageOf_paginate items_def answer_def)
  moreover have "sorted (List.map nrId items)" by (simp add: items_def listedNodes_def)
  ultimately show ?thesis
    using dist mem fetchPages_drop [OF dist ne pos, of "[]" "Suc (length items)"]
    by (simp add: pageStart_def del: fetchPages.simps)
qed


theorem http_nodes_listed_witness:
  "\<exists>items. handleListNodes (exApi exNoTokens) (exCall ''/v1/nodes'' []) exCaller newService None =
      (Reply StatusOK (NodesBody (paginate items [] 50 nrId)), newService, [], None) \<and> ''b'' \<in> nrId ` set items"
proof -
  let ?q = "exCall ''/v1/nodes'' []"
  have d: "sdReg (avDeps (exApi exNoTokens)) = regRegister (exRecord ''b'' 2) (regRegister (exRecord ''a'' 1) regNew)"
    by (simp add: exApi_def exDeps_def)
  have i: "regInv (sdReg (avDeps (exApi exNoTokens)))"
    by (simp add: d regInv_def recordsInv_def regRegister_def regNew_def exRecord_def Let_def)
  have n: "regLookup (sdReg (avDeps (exApi exNoTokens))) [] = None"
    by (simp add: d regLookup_def regRegister_def regNew_def exRecord_def Let_def)
  have q: "queryGet ?q k = []" for k by (simp add: queryGet_def exCall_def)
  have l: "parsePositiveIntQuery ?q ''limit'' 50 200 = Some 50" by (simp add: parsePositiveIntQuery_def q)
  have m: "\<exists>rec. regLookup (sdReg (avDeps (exApi exNoTokens))) ''b'' = Some rec \<and> nodeTypeOf rec = ''agent''"
    by (simp add: d regLookup_def regRegister_def regNew_def exRecord_def Let_def)
  from http_nodes_listed [OF i n q l, of exCaller newService None] m show ?thesis unfolding q by auto
qed

text \<open>
  What \<open>POST /v1/nodes/{id}/actions/{action}\<close> answers.  When the request is admitted and
  the node is an online agent, the arguments of the action go out as one tool request over the node's
  stream; the reply is the shaped result with status 200, or the error of the call with the status
  that belongs to its code.
\<close>

theorem http_action_spec:
  assumes plan: "preparePlan (normalizeMeta (fiRequest (avFresh env)) meta)
      (directInvokeRequest node action ps) s = Inr plan"
    and body: "decodeJSONMap r = Inr ps" and name: "trimSpace node \<noteq> []"
    and node: "regLookup (sdReg (avDeps env)) (trimSpace node) = Some rec" "nodeTypeOf rec = ''agent''"
      "status rec = StatusOnline"
    and spec: "builtinSpecFor (epAction plan) = Inr spec"
  shows "\<exists>msgs label res s' db'. routerSend rec (fiObject (avFresh env)) (fst (bsMarshal spec ps))
        (snd (bsMarshal spec ps)) (ceSendErr (sdEnv (avDeps env) (fiObject (avFresh env)) (trimSpace node)))
        (ceAwait (sdEnv (avDeps env) (fiObject (avFresh env)) (trimSpace node))) = (msgs, label, res) \<and>
    handleAction env r node action meta s db =
      ((case res of
          Inl e \<Rightarrow> writeInvocationError meta (classifyInvokeError (trimSpace node) e)
        | Inr x \<Rightarrow> Reply StatusOK (DataBody (projr (bsTransform spec (decodeResult x))))),
       s', List.map (Pair (routeStream rec)) msgs, db')"
proof -
  let ?i = "fiObject (avFresh env)" and ?n = "trimSpace node"
  note p = direct_plan [OF plan]
  obtain msgs label res where r: "routerSend rec ?i (fst (bsMarshal spec ps)) (snd (bsMarshal spec ps))
      (ceSendErr (sdEnv (avDeps env) ?i ?n)) (ceAwait (sdEnv (avDeps env) ?i ?n)) = (msgs, label, res)"
    by (metis surj_pair)
  have dd: "dedupe [node] = [?n]" using name by (simp add: dedupe_def Let_def)
  have x: "\<exists>db1. invokeToolWithRequest (avDeps env) ?i ?n (fst (bsMarshal spec ps)) (snd (bsMarshal spec ps)) db =
      (map_sum id decodeResult res, List.map (Pair (routeStream rec)) msgs, db1)"
    by (simp add: invokeTool_online [OF node] Let_def r)
  then obtain db1 where x: "invokeToolWithRequest (avDeps env) ?i ?n (fst (bsMarshal spec ps))
      (snd (bsMarshal spec ps)) db =
      (map_sum id decodeResult res, List.map (Pair (routeStream rec)) msgs, db1)" by blast
  obtain v where v: "bsTransform spec (projr (map_sum id decodeResult res)) = Inr v"
    using builtin_transform_ok [OF spec] by blast
  have e: "executeBuiltin (avDeps env) ?i ?n plan db =
      ((case res of Inl e \<Rightarrow> Inl (classifyInvokeError ?n e) | Inr y \<Rightarrow> Inr v),
       List.map (Pair (routeStream rec)) msgs, db1)"
    using v by (cases res) (simp_all add: executeBuiltin_def spec p(3) x case_prod_beta)
  have "\<exists>b. fst (runTargets (avDeps env) ?i plan (dedupe [node]) db) = [b] \<and>
      fst (snd (runTargets (avDeps env) ?i plan (dedupe [node]) db)) = List.map (Pair (routeStream rec)) msgs \<and>
      (case res of Inl e \<Rightarrow> irError b = Some (classifyInvokeError ?n e)
       | Inr y \<Rightarrow> irError b = None \<and> irData b = v)"
    by (cases res) (simp_all add: dd executeTarget_def p(1) e Let_def)
  then obtain b where b: "fst (runTargets (avDeps env) ?i plan (dedupe [node]) db) = [b]"
    "fst (snd (runTargets (avDeps env) ?i plan (dedupe [node]) db)) = List.map (Pair (routeStream rec)) msgs"
    "case res of Inl e \<Rightarrow> irError b = Some (classifyInvokeError ?n e) | Inr y \<Rightarrow> irError b = None \<and> irData b = v"
    by blast
  have "fst (handleAction env r node action meta s db) = (case res of
        Inl e \<Rightarrow> writeInvocationError meta (classifyInvokeError ?n e)
      | Inr y \<Rightarrow> Reply StatusOK (DataBody (projr (bsTransform spec (decodeResult y)))))"
    using b v by (cases res) (simp_all add: handleAction_def runBuiltin_def body directInvoke_run [OF plan] Let_def
        case_prod_beta builtinReply_def)
  moreover have "fst (snd (snd (handleAction env r node action meta s db))) = List.map (Pair (routeStream rec)) msgs"
    using b by (simp add: handleAction_def runBuiltin_def body directInvoke_run [OF plan] Let_def case_prod_beta)
  ultimately show ?thesis using r by (metis prod.collapse)
qed

theorem http_action_spec_witness:
  "\<exists>s' q db'. handleAction (exApi exNoTokens) exActionCall ''a'' ''sys.hardware'' exCaller newService None =
      (Reply StatusOK (DataBody (JStr ''ok'')), s', [(1, ToolRequest q)], db') \<and> trToolName q = ''get_hardware_info''"
proof -
  let ?r = "exRecord ''a'' 1"
  have p: "preparePlan (normalizeMeta (fiRequest (avFresh (exApi exNoTokens))) exCaller)
      (directInvokeRequest ''a'' ''sys.hardware'' []) newService = Inr (exPlan\<lparr>epTargets := [''a'']\<rparr>)"
    using exDirect_plan [of "''a''" "[''a'']"] exCaller_meta by (simp add: exApi_def)
  have b: "decodeJSONMap exActionCall = Inr []" by (simp add: decodeJSONMap_def exCall_def)
  have t: "trimSpace ''a'' = ''a''" "normalizeAction ''sys.hardware'' = ''sys.hardware''" by code_simp+
  have l: "regLookup (sdReg (avDeps (exApi exNoTokens))) (trimSpace ''a'') = Some ?r"
    using exDeps_nodes(1) by (simp add: t exApi_def)
  have f: "nodeTypeOf ?r = ''agent''" "status ?r = StatusOnline" "routeStream (exRecord ''a'' k) = k" for k
    by (simp_all add: exRecord_def)
  have sp: "builtinSpecFor (epAction (exPlan\<lparr>epTargets := [''a'']\<rparr>)) = Inr \<lparr>bsRiskLevel = riskReadonly,
      bsMarshal = (\<lambda>_. (''get_hardware_info'', JText (JObj []))), bsTransform = Inr\<rparr>"
    by (simp add: builtinSpecFor_def t exPlan_def)
  have env: "ceSendErr (sdEnv (avDeps (exApi exNoTokens)) i n) = None"
    "ceAwait (sdEnv (avDeps (exApi exNoTokens)) i n) = Answer (ToolResponse ''x'' (JRaw ''ok''))" for i n
    by (simp_all add: exApi_def exDeps_def exEnv_def)
  have ne: "trimSpace ''a'' \<noteq> []" by (simp add: t)
  from http_action_spec [OF p b ne l f(1,2) sp, of None] show ?thesis
    by (auto simp: env routerSend_def f(3) toolRequestMsg_def)
qed

text \<open>
  An action on a node whose name is blank is answered as a success.  It reaches no
  node, and the invocation that is stored for it has failed; yet the reply has status 200 and the
  empty object as data.
\<close>

theorem http_blank_node_action:
  assumes plan: "preparePlan (normalizeMeta (fiRequest (avFresh env)) meta)
      (directInvokeRequest node action ps) s = Inr plan"
    and body: "decodeJSONMap r = Inr ps" and blank: "trimSpace node = []" and ctx: "avCtxErr env = None"
  shows "\<exists>s' v. handleAction env r node action meta s db = (Reply StatusOK (DataBody (JObj [])), s', [], db) \<and>
    getInvocation (fiObject (avFresh env)) s' = Inr v \<and> ivStatus v = statusFailed"
proof -
  let ?i = "fiObject (avFresh env)"
  let ?s1 = "beginInvocation ?i (avStarted env) (acceptInvocation (avFresh env)
      (normalizeMeta (fiRequest (avFresh env)) meta) (directInvokeRequest node action ps) plan s)"
  have dd: "dedupe [node] = []" using blank by (simp add: dedupe_def Let_def)
  have "handleAction env r node action meta s db = (Reply StatusOK (DataBody (JObj [])),
      finishInvocation ?i [] None (avStarted env) (avFinished env) ?s1, [], db)"
    by (simp add: handleAction_def runBuiltin_def body directInvoke_run [OF plan] dd builtinReply_def ctx Let_def)
  moreover have "\<exists>v. map_of (invocations (finishInvocation ?i [] None (avStarted env) (avFinished env) ?s1)) ?i = Some v \<and>
      ivStatus v = statusFailed"
  proof -
    have "\<exists>v. map_of (invocations ?s1) ?i = Some v"
      by (simp add: beginInvocation_def updateInvocation_def acceptInvocation_def Let_def recordAuditStart_def
          newInvocation_def)
    then obtain v where v: "map_of (invocations ?s1) ?i = Some v" by blast
    have fa: "invocations (finishAudit i dc t x) = invocations x" for i dc t x
      by (simp add: finishAudit_def split: option.split)
    show ?thesis
      by (simp add: finishInvocation_def Let_def fa updateInvocation_map [OF v] summarizeInvocationStatus_def)
  qed
  ultimately show ?thesis by (auto simp: getInvocation_def)
qed


theorem http_blank_node_action_witness:
  "\<exists>s' v. handleAction (exApi exNoTokens) exActionCall '' '' ''sys.hardware'' exCaller newService None =
      (Reply StatusOK (DataBody (JObj [])), s', [], None) \<and>
    getInvocation ''t1'' s' = Inr v \<and> ivStatus v = statusFailed"
proof -
  have p: "preparePlan (normalizeMeta (fiRequest (avFresh (exApi exNoTokens))) exCaller)
      (directInvokeRequest '' '' ''sys.hardware'' []) newService = Inr (exPlan\<lparr>epTargets := []\<rparr>)"
    using exDirect_plan [of "'' ''" "[]"] exCaller_meta by (simp add: exApi_def)
  have b: "decodeJSONMap exActionCall = Inr []" by (simp add: decodeJSONMap_def exCall_def)
  have t: "trimSpace '' '' = []" by code_simp
  have e: "avCtxErr (exApi exNoTokens) = None" "fiObject (avFresh (exApi exNoTokens)) = ''t1''" by (simp_all add: exApi_def exFresh_def)
  from http_blank_node_action [OF p b t e(1)] show ?thesis by (simp only: e)
qed

end
