(* ===== verification/AgentGuard.thy ===== *)
theory AgentGuard
  imports GoPath
begin

text \<open>
  \<open>sysplane-agent/fileops/guard.go\<close>: which paths the file tools of an agent may touch.  The guard
  cleans the path, resolves its symbolic links when that works (\<open>filepath.EvalSymlinks\<close>, the
  argument \<open>ev\<close>, is \<open>None\<close> on an error) and compares prefixes that end in a separator, the
  blocked ones first.
\<close>

record pathGuard =
  pgAllowed :: "string list"
  pgBlocked :: "string list"

definition newPathGuard :: "string list \<Rightarrow> string list \<Rightarrow> pathGuard" where
  "newPathGuard allowed blocked =
     \<lparr>pgAllowed = List.map (\<lambda>p. dirForm (clean p)) allowed,
      pgBlocked = List.map (\<lambda>p. dirForm (clean p)) blocked\<rparr>"

definition guardError :: "string \<Rightarrow> string \<Rightarrow> goerr" where
  "guardError path what = ErrText (''fileops: path '' @ quoteStr path @ what)"

text \<open>The path that is compared.\<close>

definition resolvedPath :: "(string \<Rightarrow> string option) \<Rightarrow> string \<Rightarrow> string" where
  "resolvedPath ev path = (case ev (clean path) of Some real \<Rightarrow> real | None \<Rightarrow> clean path)"

definition guardCheck :: "pathGuard \<Rightarrow> (string \<Rightarrow> string option) \<Rightarrow> string \<Rightarrow> goerr option" where
  "guardCheck g ev path =
     (let candidate = dirForm (resolvedPath ev path) in
      if \<exists>b \<in> set (pgBlocked g). hasPrefix candidate b then Some (guardError path '' is blocked'')
      else if pgAllowed g = [] then None
      else if \<exists>a \<in> set (pgAllowed g). hasPrefix candidate a then None
      else Some (guardError path '' is not in allowed paths''))"

section \<open>Properties\<close>

text \<open>A path lies at or below a directory: componentwise, after cleaning.\<close>

definition within :: "string \<Rightarrow> string \<Rightarrow> bool" where
  "within dir path \<longleftrightarrow> prefix (comps (clean dir)) (comps path)"

lemma guard_prefix:
  assumes "isAbs d" and "isAbs r" and "clean r = r"
  shows "hasPrefix (dirForm r) (dirForm (clean d)) \<longleftrightarrow> within d r"
  using dirForm_prefix [of "clean d" r] assms by (simp add: within_def)

text \<open>
  Property C24: the guard decides by directories, not by strings.  For absolute configured paths and a
  path that resolves to a clean absolute path, access is granted exactly when the resolved path
  lies in no blocked directory and, if any directory is allowed, in an allowed one; a sibling
  whose name merely starts with the name of a listed directory is unaffected.
\<close>

theorem guardCheck_spec:
  assumes "\<forall>d \<in> set (allowed @ blocked). isAbs d"
    and "isAbs (resolvedPath ev path)" and "clean (resolvedPath ev path) = resolvedPath ev path"
  shows "(guardCheck (newPathGuard allowed blocked) ev path = None) =
    ((\<forall>b \<in> set blocked. \<not> within b (resolvedPath ev path)) \<and>
     (allowed = [] \<or> (\<exists>a \<in> set allowed. within a (resolvedPath ev path))))"
proof -
  have "hasPrefix (dirForm (resolvedPath ev path)) (dirForm (clean d)) \<longleftrightarrow> within d (resolvedPath ev path)"
    if "d \<in> set allowed \<union> set blocked" for d
    using guard_prefix [OF _ assms(2,3), of d] assms(1) that by auto
  then show ?thesis
    by (auto simp: guardCheck_def newPathGuard_def Let_def)
qed

theorem guardCheck_spec_witness:
  "guardCheck (newPathGuard [] [''/proc'']) (\<lambda>_. None) ''/proc2/x'' = None \<and>
   guardCheck (newPathGuard [] [''/proc'']) (\<lambda>_. None) ''/a/../proc/x'' \<noteq> None"
proof -
  have r: "resolvedPath (\<lambda>_. None) ''/proc2/x'' = ''/proc2/x''"
    "resolvedPath (\<lambda>_. None) ''/a/../proc/x'' = ''/proc/x''" by code_simp+
  have c: "isAbs ''/proc2/x''" "clean ''/proc2/x'' = ''/proc2/x''" "isAbs ''/proc/x''"
    "clean ''/proc/x'' = ''/proc/x''" by code_simp+
  have w: "\<not> within ''/proc'' ''/proc2/x''" "within ''/proc'' ''/proc/x''"
    unfolding within_def by code_simp+
  have a: "\<forall>d \<in> set ([] @ [''/proc'']). isAbs d" by code_simp
  show ?thesis
    using guardCheck_spec [OF a, of "\<lambda>_. None" "''/proc2/x''"]
      guardCheck_spec [OF a, of "\<lambda>_. None" "''/a/../proc/x''"] r c w by simp
qed

text \<open>
  A file that does not exist yet is not protected from links.  When the links of a path
  cannot be resolved, the decision depends on its spelling alone, so a new file below a link that
  leads out of the allowed directory is accepted although the directory it will be created in is
  refused.
\<close>

theorem guard_new_file_escapes:
  "guardCheck (newPathGuard [''/data''] [''/etc''])
     (\<lambda>p. if p = ''/data/link'' then Some ''/etc'' else None) ''/data/link/passwd'' = None \<and>
   guardCheck (newPathGuard [''/data''] [''/etc''])
     (\<lambda>p. if p = ''/data/link'' then Some ''/etc'' else None) ''/data/link'' \<noteq> None"
  by code_simp

end
