(* ===== verification/AgentFiles.thy ===== *)
theory AgentFiles
  imports AgentGuard GoJson
begin

text \<open>
  The file tools of the agent (\<open>internal/sysplane-agent/fileops/readfile.go\<close>, \<open>writefile.go\<close>).  A file is
  its bytes; the operating system is an argument (\<open>os.Stat\<close>, \<open>os.Open\<close>, \<open>Seek\<close>).  \<open>ctx\<close> gives the error
  of the context at the n-th check.  A tool returns its result record; the JSON text that is sent is the
  encoding of that record.  The first read, which probes for binary content, ignores its error, as the
  source does; a device that fails in the middle of a scan by lines is not modelled.
\<close>

section \<open>Scanning lines\<close>

text \<open>
  \<open>bufio.Scanner\<close> with \<open>ScanLines\<close>: the lines without their ends, the last one only if it is not
  empty; scanning stops at a line that does not fit into the buffer of \<open>maxTok\<close> bytes.
\<close>

definition newline :: char where "newline = CHR 0x0A"

definition dropCR :: "string \<Rightarrow> string" where
  "dropCR l = (if l \<noteq> [] \<and> last l = CHR 0x0D then butlast l else l)"

definition rawLines :: "string \<Rightarrow> string list" where
  "rawLines s = (let ps = splitOn newline s in if last ps = [] then butlast ps else ps)"

definition maxScanTokenSize :: nat where "maxScanTokenSize = 64 * 1024"

definition tooLong :: goerr where "tooLong = ErrText ''bufio.Scanner: token too long''"

definition scanLines :: "nat \<Rightarrow> string \<Rightarrow> string list \<times> goerr option" where
  "scanLines maxTok s =
     (let ok = takeWhile (\<lambda>l. length l < maxTok) (rawLines s)
      in (List.map dropCR ok, if length ok < length (rawLines s) then Some tooLong else None))"

section \<open>read_file\<close>

record readFileParams =
  rpPath :: string
  rpEncoding :: string
  rpOffset :: int
  rpLength :: int
  rpHead :: int
  rpTail :: int
  rpMaxLines :: int

record readFileResult =
  rsPath :: string
  rsContent :: string
  rsEncoding :: string
  rsLines :: nat
  rsTruncated :: bool
  rsIsBinary :: bool
  rsSizeBytes :: int

definition joinLines :: "string list \<Rightarrow> string" where
  "joinLines ls = joinOn newline ls"

text \<open>The loop of \<open>ReadFile\<close>: the lines read and whether a limit stopped it.\<close>

fun readLoop :: "(nat \<Rightarrow> goerr option) \<Rightarrow> int \<Rightarrow> int \<Rightarrow> string list \<Rightarrow> string list \<Rightarrow> goerr + string list \<times> bool" where
  "readLoop ctx head maxLines acc [] = Inr (acc, False)"
| "readLoop ctx head maxLines acc (l # ls) =
     (case ctx (length acc) of
        Some e \<Rightarrow> Inl e
      | None \<Rightarrow>
          (let acc' = acc @ [l] in
           if head > 0 \<and> int (length acc') \<ge> head then Inr (acc', True)
           else if maxLines > 0 \<and> int (length acc') \<ge> maxLines then Inr (acc', True)
           else readLoop ctx head maxLines acc' ls))"

definition readLines ::
  "(nat \<Rightarrow> goerr option) \<Rightarrow> readFileParams \<Rightarrow> string \<Rightarrow> int \<Rightarrow> goerr + readFileResult" where
  "readLines ctx p content sizeBytes =
     (let (ls, err) = scanLines maxScanTokenSize content in
      case readLoop ctx (rpHead p) (rpMaxLines p) [] ls of
        Inl e \<Rightarrow> Inl e
      | Inr (out, truncated) \<Rightarrow>
          (case (if truncated then None else err) of
             Some e \<Rightarrow> Inl (ErrWrap ''read_file: scan: '' e)
           | None \<Rightarrow> Inr \<lparr>rsPath = rpPath p, rsContent = joinLines out, rsEncoding = ''text'',
               rsLines = length out, rsTruncated = truncated, rsIsBinary = False,
               rsSizeBytes = sizeBytes\<rparr>))"

text \<open>The ring buffer of \<open>readTail\<close>.\<close>

fun ringLoop :: "(nat \<Rightarrow> goerr option) \<Rightarrow> nat \<Rightarrow> string list \<Rightarrow> nat \<Rightarrow> string list \<Rightarrow> goerr + string list \<times> nat" where
  "ringLoop ctx n ring idx [] = Inr (ring, idx)"
| "ringLoop ctx n ring idx (l # ls) =
     (case ctx idx of
        Some e \<Rightarrow> Inl e
      | None \<Rightarrow> ringLoop ctx n (ring[idx mod n := l]) (Suc idx) ls)"

definition ringLines :: "nat \<Rightarrow> string list \<Rightarrow> nat \<Rightarrow> string list" where
  "ringLines n ring cnt =
     (if cnt \<le> n then take cnt ring
      else drop (cnt mod n) ring @ take (cnt mod n) ring)"

definition readTail ::
  "(nat \<Rightarrow> goerr option) \<Rightarrow> string \<Rightarrow> string \<Rightarrow> nat \<Rightarrow> int \<Rightarrow> goerr + readFileResult" where
  "readTail ctx path content n sizeBytes =
     (let (ls, err) = scanLines maxScanTokenSize content in
      case ringLoop ctx n (replicate n []) 0 ls of
        Inl e \<Rightarrow> Inl e
      | Inr (ring, cnt) \<Rightarrow>
          (case err of
             Some e \<Rightarrow> Inl (ErrWrap ''read_file tail: '' e)
           | None \<Rightarrow> Inr \<lparr>rsPath = path, rsContent = joinLines (ringLines n ring cnt),
               rsEncoding = ''text'', rsLines = length (ringLines n ring cnt),
               rsTruncated = cnt > n, rsIsBinary = False, rsSizeBytes = sizeBytes\<rparr>))"

text \<open>
  \<open>readRange\<close>: \<open>seekErr\<close> is an error of seeking to the offset, \<open>ioErr\<close> one of the read other than the end
  of the file, \<open>ctxErr\<close> the context's error at its check.
\<close>

definition readRange ::
  "goerr option \<Rightarrow> goerr option \<Rightarrow> goerr option \<Rightarrow> readFileParams \<Rightarrow> string \<Rightarrow> int \<Rightarrow> goerr + readFileResult" where
  "readRange ctxErr seekErr ioErr p content sizeBytes =
     (if rpOffset p < 0 then Inl (ErrText ''read_file: offset must be >= 0'')
      else case seekErr of Some e \<Rightarrow> Inl (ErrWrap ''read_file: seek offset: '' e) | None \<Rightarrow>
        (let len = (if rpLength p \<le> 0 then 4096 else rpLength p);
             remaining = (if sizeBytes - rpOffset p < 0 then 0 else sizeBytes - rpOffset p);
             readLen = (if remaining < len then remaining else len);
             buf = take (nat readLen) (drop (nat (rpOffset p)) content)
         in case ioErr of
              Some e \<Rightarrow> Inl (ErrWrap ''read_file: read range: '' e)
            | None \<Rightarrow>
                (case ctxErr of
                   Some e \<Rightarrow> Inl e
                 | None \<Rightarrow> Inr \<lparr>rsPath = rpPath p, rsContent = buf, rsEncoding = ''utf-8'',
                     rsLines = length (filter (\<lambda>c. c = newline) buf) + 1,
                     rsTruncated = rpOffset p + int (length buf) < sizeBytes,
                     rsIsBinary = False, rsSizeBytes = sizeBytes\<rparr>)))"

text \<open>What the operating system says of a path, and the errors along the way.\<close>

record osView =
  ovLinks :: "string \<Rightarrow> string option"
  ovStat :: "string \<Rightarrow> goerr + bool \<times> int"
  ovOpen :: "string \<Rightarrow> goerr + string"
  ovSeek :: "goerr option"
  ovSeekOffset :: "goerr option"
  ovRead :: "goerr option"

definition binaryCheckBytes :: nat where "binaryCheckBytes = 512"

definition decodeReadParams :: "jtext \<Rightarrow> readFileParams option" where
  "decodeReadParams args =
     (case decodeObject args of None \<Rightarrow> None | Some m \<Rightarrow>
       (case (decodeStr (jget m ''path''), decodeStr (jget m ''encoding''), decodeInt (jget m ''offset''),
              decodeInt (jget m ''length''), decodeInt (jget m ''head''), decodeInt (jget m ''tail''),
              decodeInt (jget m ''max_lines'')) of
          (Some path, Some enc, Some off, Some len, Some h1, Some t1, Some ml) \<Rightarrow>
            Some \<lparr>rpPath = path, rpEncoding = enc, rpOffset = off, rpLength = len, rpHead = h1, rpTail = t1, rpMaxLines = ml\<rparr>
        | _ \<Rightarrow> None))"

definition readFile ::
  "(nat \<Rightarrow> goerr option) \<Rightarrow> osView \<Rightarrow> pathGuard \<Rightarrow> int \<Rightarrow> jtext \<Rightarrow> goerr + readFileResult" where
  "readFile ctx os g maxFileSizeMB args =
     (case decodeReadParams args of
        None \<Rightarrow> Inl (ErrWrap ''read_file: invalid args: '' (unmarshalError ''read_file''))
      | Some p \<Rightarrow>
      (case guardCheck g (ovLinks os) (rpPath p) of
        Some e \<Rightarrow> Inl e
      | None \<Rightarrow>
      (case ovStat os (rpPath p) of
        Inl e \<Rightarrow> Inl (ErrWrap ''read_file: '' e)
      | Inr (isDir, sizeBytes) \<Rightarrow>
      if isDir then Inl (ErrText (''read_file: '' @ quoteStr (rpPath p) @ '' is a directory''))
      else (case ovOpen os (rpPath p) of
        Inl e \<Rightarrow> Inl (ErrWrap ''read_file: '' e)
      | Inr content \<Rightarrow>
      if CHR 0x00 \<in> set (take binaryCheckBytes content)
      then Inr \<lparr>rsPath = rpPath p, rsContent = [], rsEncoding = ''text'', rsLines = 0,
             rsTruncated = False, rsIsBinary = True, rsSizeBytes = sizeBytes\<rparr>
      else (let maxBytes = wrap64 (maxFileSizeMB * 1024 * 1024) in
        if sizeBytes > maxBytes
        then Inl (ErrText (''read_file: file size '' @ showInt sizeBytes @ '' bytes exceeds limit '' @
                showInt maxBytes @ '' bytes''))
        else (case ovSeek os of
          Some e \<Rightarrow> Inl (ErrWrap ''read_file: seek: '' e)
        | None \<Rightarrow>
            if rpOffset p > 0 \<or> rpLength p > 0 then readRange (ctx 0) (ovSeekOffset os) (ovRead os) p content sizeBytes
            else if rpTail p > 0 then readTail ctx (rpPath p) content (nat (rpTail p)) sizeBytes
            else readLines ctx p content sizeBytes))))))"

section \<open>write_file\<close>

record writeFileParams =
  wpPath :: string
  wpContent :: string
  wpOverwrite :: bool

record writeFileResult =
  wrPath :: string
  wrBytesWritten :: nat
  wrCreated :: bool

definition decodeWriteParams :: "jtext \<Rightarrow> writeFileParams option" where
  "decodeWriteParams args =
     (case decodeObject args of None \<Rightarrow> None | Some m \<Rightarrow>
       (case (decodeStr (jget m ''path''), decodeStr (jget m ''content''), decodeBool (jget m ''overwrite'')) of
          (Some path, Some content, Some ow) \<Rightarrow>
            Some \<lparr>wpPath = path, wpContent = content, wpOverwrite = ow\<rparr>
        | _ \<Rightarrow> None))"

text \<open>
  Files by path; \<open>openErr\<close> is an error of \<open>os.OpenFile\<close> other than that an existing file is not to be
  overwritten, \<open>writeErr\<close> an error of the write with the number of bytes written before it.
\<close>

type_synonym files = "string \<Rightarrow> string option"

definition writeFile ::
  "goerr option \<Rightarrow> (string \<Rightarrow> string option) \<Rightarrow> pathGuard \<Rightarrow> goerr option \<Rightarrow> (nat \<times> goerr) option \<Rightarrow>
   jtext \<Rightarrow> files \<Rightarrow> (goerr + writeFileResult) \<times> files" where
  "writeFile ctxErr links g openErr writeErr args fs =
     (case decodeWriteParams args of
        None \<Rightarrow> (Inl (ErrWrap ''write_file: invalid args: '' (unmarshalError ''write_file'')), fs)
      | Some p \<Rightarrow>
      (case guardCheck g links (wpPath p) of
        Some e \<Rightarrow> (Inl e, fs)
      | None \<Rightarrow>
      (case ctxErr of
        Some e \<Rightarrow> (Inl e, fs)
      | None \<Rightarrow>
      (let created = (fs (wpPath p) = None) in
       case (if openErr = None \<and> \<not> wpOverwrite p \<and> \<not> created
             then Some (ErrText (''open '' @ wpPath p @ '': file exists'')) else openErr) of
         Some e \<Rightarrow> (Inl (ErrWrap ''write_file: '' e), fs)
       | None \<Rightarrow>
           (case writeErr of
              Some (n, e) \<Rightarrow>
                (Inl (ErrWrap ''write_file: '' e), fs(wpPath p \<mapsto> take n (wpContent p)))
            | None \<Rightarrow>
                (Inr \<lparr>wrPath = clean (wpPath p), wrBytesWritten = length (wpContent p), wrCreated = created\<rparr>,
                 fs(wpPath p \<mapsto> wpContent p)))))))"

section \<open>Lemmas\<close>

lemma scanLines_short:
  assumes "\<forall>l \<in> set (rawLines s). length l < m"
  shows "scanLines m s = (List.map dropCR (rawLines s), None)"
proof -
  have tw: "takeWhile (\<lambda>l. length l < m) (rawLines s) = rawLines s"
    using assms by (simp add: takeWhile_eq_all_conv)
  show ?thesis by (simp only: scanLines_def Let_def tw less_irrefl if_False)
qed

text \<open>The number of lines the limits of a request allow.\<close>

definition lineLimit :: "int \<Rightarrow> int \<Rightarrow> nat option" where
  "lineLimit head maxLines =
     (if head > 0 \<and> maxLines > 0 then Some (nat (min head maxLines))
      else if head > 0 then Some (nat head)
      else if maxLines > 0 then Some (nat maxLines) else None)"

lemma readLoop_None:
  "\<forall>n. ctx n = None \<Longrightarrow> lineLimit h m = None \<Longrightarrow> readLoop ctx h m acc ls = Inr (acc @ ls, False)"
  by (induction ls arbitrary: acc) (auto simp: lineLimit_def split: if_splits)

lemma lineLimit_stop:
  "lineLimit h m = Some k \<Longrightarrow> (h > 0 \<and> int n \<ge> h \<or> m > 0 \<and> int n \<ge> m) \<longleftrightarrow> k \<le> n"
  by (auto simp: lineLimit_def min_def split: if_splits)

lemma readLoop_Some:
  assumes "\<forall>n. ctx n = None" and "lineLimit h m = Some k"
  shows "length acc < k \<Longrightarrow>
    readLoop ctx h m acc ls = Inr (take k (acc @ ls), k \<le> length acc + length ls)"
proof (induction ls arbitrary: acc)
  case Nil
  then show ?case by simp
next
  case (Cons l ls)
  note stop = lineLimit_stop [OF assms(2), of "Suc (length acc)"]
  show ?case
  proof (cases "k \<le> Suc (length acc)")
    case True
    then have k: "k = Suc (length acc)" using Cons.prems by simp
    have "readLoop ctx h m acc (l # ls) = Inr (acc @ [l], True)"
      using stop True assms(1) by (auto simp: Let_def)
    then show ?thesis using k by simp
  next
    case False
    then have "readLoop ctx h m acc (l # ls) = readLoop ctx h m (acc @ [l]) ls"
      using stop assms(1) by (auto simp: Let_def)
    also have "\<dots> = Inr (take k ((acc @ [l]) @ ls), k \<le> length (acc @ [l]) + length ls)"
      using False by (intro Cons.IH) simp
    finally show ?thesis by simp
  qed
qed

text \<open>The ring holds the last lines seen, each at its number modulo the size.\<close>

definition ringInv :: "nat \<Rightarrow> string list \<Rightarrow> string list \<Rightarrow> bool" where
  "ringInv n ring seen \<longleftrightarrow> length ring = n \<and>
     (\<forall>j < length seen. length seen \<le> j + n \<longrightarrow> ring ! (j mod n) = seen ! j)"

lemma mod_apart: "(j::nat) < k \<Longrightarrow> k < j + n \<Longrightarrow> j mod n \<noteq> k mod n"
proof
  assume "j < k" "k < j + n" "j mod n = k mod n"
  then have "(k - j) mod n = 0" by (metis mod_eq_dvd_iff_nat less_or_eq_imp_le dvd_imp_mod_0)
  then show False using \<open>j < k\<close> \<open>k < j + n\<close> by (auto dest: mod_0_imp_dvd nat_dvd_not_less)
qed

lemma ringInv_step:
  assumes "0 < n" and inv0: "ringInv n ring seen"
  shows "ringInv n (ring[length seen mod n := l]) (seen @ [l])"
proof -
  have "ring[length seen mod n := l] ! (j mod n) = (seen @ [l]) ! j"
    if "j < Suc (length seen)" "Suc (length seen) \<le> j + n" for j
  proof (cases "j = length seen")
    case True
    then show ?thesis using assms by (simp add: ringInv_def)
  next
    case False
    then have "j < length seen" using that by simp
    moreover have "j mod n \<noteq> length seen mod n" using mod_apart [of j "length seen" n] \<open>j < length seen\<close> that by simp
    ultimately show ?thesis using inv0 that by (simp add: ringInv_def nth_append)
  qed
  then show ?thesis using inv0 by (simp add: ringInv_def)
qed

lemma ringLoop_inv:
  assumes "0 < n" and "\<forall>i. ctx i = None"
  shows "ringInv n ring seen \<Longrightarrow>
    \<exists>ring'. ringLoop ctx n ring (length seen) ls = Inr (ring', length (seen @ ls)) \<and> ringInv n ring' (seen @ ls)"
proof (induction ls arbitrary: ring seen)
  case Nil
  then show ?case by simp
next
  case (Cons l ls)
  from Cons.IH [OF ringInv_step [OF assms(1) Cons.prems, of l]] show ?case
    using assms(2) by simp
qed

lemma ringLines_last:
  assumes "0 < n" and "ringInv n ring seen"
  shows "ringLines n ring (length seen) = drop (length seen - n) seen"
proof (cases "length seen \<le> n")
  case True
  then show ?thesis using assms by (auto simp: ringLines_def ringInv_def intro!: nth_equalityI)
next
  case False
  define r where "r = length seen mod n"
  have rn: "r < n" and len: "length ring = n" using assms by (auto simp: r_def ringInv_def)
  have "(drop r ring @ take r ring) ! i = drop (length seen - n) seen ! i" if "i < n" for i
  proof -
    have "(length seen - n + i) mod n = (r + i) mod n"
      using False by (simp add: r_def mod_add_left_eq le_mod_geq)
    moreover have "(drop r ring @ take r ring) ! i = ring ! ((r + i) mod n)"
      using that rn len by (auto simp: nth_append mod_if le_mod_geq)
        (metis Nat.add_diff_assoc2 add.commute diff_diff_left not_le_imp_less order.strict_implies_order)
    moreover have "ring ! ((length seen - n + i) mod n) = seen ! (length seen - n + i)"
      using assms False that by (simp add: ringInv_def)
    ultimately show ?thesis using False that by simp
  qed
  then have "drop r ring @ take r ring = drop (length seen - n) seen"
    using rn len False by (intro nth_equalityI) auto
  then show ?thesis using False by (simp add: ringLines_def r_def)
qed

lemma readTail_lines:
  assumes "0 < n" and "\<forall>i. ctx i = None" and "\<forall>l \<in> set (rawLines s). length l < maxScanTokenSize"
  defines "L \<equiv> List.map dropCR (rawLines s)"
  shows "readTail ctx path s n sz = Inr \<lparr>rsPath = path,
    rsContent = joinLines (drop (length L - n) L), rsEncoding = ''text'', rsLines = length (drop (length L - n) L),
    rsTruncated = length L > n, rsIsBinary = False, rsSizeBytes = sz\<rparr>"
proof -
  have "ringInv n (replicate n []) []" by (simp add: ringInv_def)
  from ringLoop_inv [OF assms(1,2) this, of L] obtain ring where
    r: "ringLoop ctx n (replicate n []) 0 L = Inr (ring, length L)" "ringInv n ring L" by auto
  show ?thesis
    using scanLines_short [OF assms(3)] r ringLines_last [OF assms(1) r(2)]
    by (simp add: readTail_def L_def)
qed

section \<open>Properties\<close>

text \<open>A text file that the guard admits, within the size limit, read without an error of the system.\<close>

definition readable :: "osView \<Rightarrow> pathGuard \<Rightarrow> int \<Rightarrow> string \<Rightarrow> string \<Rightarrow> int \<Rightarrow> bool" where
  "readable os g mb path content sz \<longleftrightarrow>
     guardCheck g (ovLinks os) path = None \<and> ovStat os path = Inr (False, sz) \<and>
     ovOpen os path = Inr content \<and> CHR 0x00 \<notin> set (take binaryCheckBytes content) \<and>
     sz \<le> wrap64 (mb * 1024 * 1024) \<and> ovSeek os = None \<and> ovSeekOffset os = None \<and> ovRead os = None"

lemma readFile_readable:
  assumes "decodeReadParams args = Some p" and "readable os g mb (rpPath p) content sz"
  shows "readFile ctx os g mb args =
    (if rpOffset p > 0 \<or> rpLength p > 0 then readRange (ctx 0) None None p content sz
     else if rpTail p > 0 then readTail ctx (rpPath p) content (nat (rpTail p)) sz
     else readLines ctx p content sz)"
  using assms by (simp add: readFile_def readable_def Let_def)

definition textResult :: "string \<Rightarrow> string list \<Rightarrow> bool \<Rightarrow> int \<Rightarrow> readFileResult" where
  "textResult path ls trunc sz = \<lparr>rsPath = path, rsContent = joinLines ls, rsEncoding = ''text'',
     rsLines = length ls, rsTruncated = trunc, rsIsBinary = False, rsSizeBytes = sz\<rparr>"

lemma readLines_lines:
  assumes "\<forall>i. ctx i = None" and "\<forall>l \<in> set (rawLines s). length l < maxScanTokenSize"
  defines "L \<equiv> List.map dropCR (rawLines s)"
  shows "readLines ctx p s sz = Inr (case lineLimit (rpHead p) (rpMaxLines p) of
      None \<Rightarrow> textResult (rpPath p) L False sz
    | Some k \<Rightarrow> textResult (rpPath p) (take k L) (k \<le> length L) sz)"
proof (cases "lineLimit (rpHead p) (rpMaxLines p)")
  case None
  then show ?thesis
    using scanLines_short [OF assms(2)] readLoop_None [OF assms(1) None, of "[]" L]
    by (simp add: readLines_def L_def textResult_def)
next
  case (Some k)
  then have "0 < k" by (auto simp: lineLimit_def split: if_splits)
  then show ?thesis
    using scanLines_short [OF assms(2)] readLoop_Some [OF assms(1) Some, of "[]" L] Some
    by (simp add: readLines_def L_def textResult_def)
qed

lemma writeFile_changed:
  assumes "snd (writeFile ctxErr links g openErr writeErr args fs) path \<noteq> fs path"
  shows "ctxErr = None \<and> guardCheck g links path = None"
proof (cases "decodeWriteParams args")
  case None
  then show ?thesis using assms by (simp add: writeFile_def)
next
  case (Some w)
  have ok: "guardCheck g links (wpPath w) = None \<and> ctxErr = None"
    using assms Some
    by (cases "guardCheck g links (wpPath w)"; cases ctxErr) (simp_all add: writeFile_def)
  moreover have "path = wpPath w"
    using assms Some ok by (auto simp: writeFile_def Let_def split: option.splits if_splits)
  ultimately show ?thesis by simp
qed

lemma writeFile_cancelled [simp]: "snd (writeFile (Some e) links g openErr writeErr args fs) = fs"
  by (rule ext) (metis writeFile_changed option.distinct(1))


definition demoOS :: "string \<Rightarrow> osView" where
  "demoOS content = \<lparr>ovLinks = Some, ovStat = (\<lambda>_. Inr (False, int (length content))),
     ovOpen = (\<lambda>_. Inr content), ovSeek = None, ovSeekOffset = None, ovRead = None\<rparr>"


definition rangeArgs :: "string \<Rightarrow> int \<Rightarrow> int \<Rightarrow> jtext" where
  "rangeArgs path off len =
     JText (JObj [(''path'', JStr path), (''offset'', JNum (of_int off)), (''length'', JNum (of_int len))])"

lemma decodeReadParams_range:
  assumes "isInt64 off" and "isInt64 len"
  shows "decodeReadParams (rangeArgs path off len) = Some \<lparr>rpPath = path, rpEncoding = [], rpOffset = off,
    rpLength = len, rpHead = 0, rpTail = 0, rpMaxLines = 0\<rparr>"
  using assms by (simp add: decodeReadParams_def rangeArgs_def floatToInt64_of_int)

lemma readFile_range:
  assumes "readable os g mb path content (int (length content))" and "ctx 0 = None"
    and "isInt64 off" and "isInt64 len" and "0 \<le> off" and "0 < len"
  shows "readFile ctx os g mb (rangeArgs path off len) = Inr
    \<lparr>rsPath = path, rsContent = take (nat len) (drop (nat off) content), rsEncoding = ''utf-8'',
     rsLines = length (filter (\<lambda>c. c = newline) (take (nat len) (drop (nat off) content))) + 1,
     rsTruncated = off + len < int (length content), rsIsBinary = False, rsSizeBytes = int (length content)\<rparr>"
proof -
  define p where "p = \<lparr>rpPath = path, rpEncoding = [], rpOffset = off, rpLength = len, rpHead = 0, rpTail = 0, rpMaxLines = 0\<rparr>"
  define remaining where "remaining = (if int (length content) - off < 0 then 0 else int (length content) - off)"
  have buf: "take (nat (if remaining < len then remaining else len)) (drop (nat off) content) =
      take (nat len) (drop (nat off) content)"
    using assms(5,6) by (simp add: remaining_def)
  have tr: "(off + int (length (take (nat len) (drop (nat off) content))) < int (length content)) =
      (off + len < int (length content))"
    using assms(5,6) by (auto simp: min_def)
  have "readFile ctx os g mb (rangeArgs path off len) = readRange None None None p content (int (length content))"
    using readFile_readable [of "rangeArgs path off len" p, OF _ ] decodeReadParams_range [OF assms(3,4), of path]
      assms(1,2,6) by (simp add: p_def)
  also have "\<dots> = Inr
    \<lparr>rsPath = path, rsContent = take (nat len) (drop (nat off) content), rsEncoding = ''utf-8'',
     rsLines = length (filter (\<lambda>c. c = newline) (take (nat len) (drop (nat off) content))) + 1,
     rsTruncated = off + len < int (length content), rsIsBinary = False, rsSizeBytes = int (length content)\<rparr>"
    unfolding readRange_def using assms(5,6) buf tr
    by (simp add: p_def Let_def remaining_def [symmetric] del: take_take length_take)
  finally show ?thesis .
qed

lemma concat_chunks:
  "concat (List.map (\<lambda>i. take n (drop (i * n) s)) [0..<k]) = take (k * n) s"
proof (induction k)
  case (Suc k)
  have "take (k * n + n) s = take (k * n) s @ take n (drop (k * n) s)" by (rule take_add)
  then show ?case using Suc.IH by (simp add: add.commute)
qed simp

text \<open>
  Reading a file piece by piece.  Requests for consecutive ranges of \<open>n\<close> bytes all
  succeed, their contents put together are the file up to where they reach, and a piece is marked
  \<open>truncated\<close> exactly when the file goes on after it: asking until a piece comes back unmarked
  returns the whole file.
\<close>

theorem read_file_ranges:
  assumes "readable os g mb path content (int (length content))" and "ctx 0 = None"
    and "0 < n" and "\<forall>i < k. isInt64 (int (i * n))" and "isInt64 (int n)"
    and "piece = (\<lambda>i. readFile ctx os g mb (rangeArgs path (int (i * n)) (int n)))"
  shows "(\<forall>i < k. \<exists>r. piece i = Inr r \<and> rsTruncated r = (Suc i * n < length content)) \<and>
    concat (List.map (\<lambda>i. rsContent (projr (piece i))) [0..<k]) = take (k * n) content"
proof -
  have piece: "piece i = Inr \<lparr>rsPath = path, rsContent = take n (drop (i * n) content), rsEncoding = ''utf-8'',
     rsLines = length (filter (\<lambda>c. c = newline) (take n (drop (i * n) content))) + 1,
     rsTruncated = Suc i * n < length content, rsIsBinary = False, rsSizeBytes = int (length content)\<rparr>"
    if "i < k" for i
  proof -
    have "(int (i * n) + int n < int (length content)) = (Suc i * n < length content)"
      by (simp add: add.commute flip: of_nat_add of_nat_mult)
    then show ?thesis
      using readFile_range [of os g mb path content ctx "int (i * n)" "int n"] that assms(1-5)
      by (simp add: assms(6) del: of_nat_mult)
  qed
  have m: "List.map (\<lambda>i. rsContent (projr (piece i))) [0..<k] = List.map (\<lambda>i. take n (drop (i * n) content)) [0..<k]"
    by (rule map_cong) (simp_all add: piece)
  show ?thesis unfolding m using piece by (simp add: concat_chunks)
qed

theorem read_file_ranges_witness:
  "concat (List.map (\<lambda>i. rsContent (projr (readFile (\<lambda>_. None) (demoOS ''abcde'') (newPathGuard [] []) 1
     (rangeArgs ''/f'' (int (i * 2)) (int 2))))) [0..<3]) = ''abcde''"
proof -
  have r: "readable (demoOS ''abcde'') (newPathGuard [] []) 1 ''/f'' ''abcde'' (int (length ''abcde''))" by code_simp
  have "\<forall>i < 3. isInt64 (int (i * 2))" "isInt64 (int 2)" by (auto simp: isInt64_def)
  then show ?thesis using read_file_ranges [OF r, of "\<lambda>_. None" 2 3] by simp
qed

text \<open>
  What \<open>write_file\<close> may change.  No file but the named one ever changes, and that one
  only after the guard has admitted it and if it did not exist or \<open>overwrite\<close> was given; success
  means that it holds exactly the content sent, with its length and whether it was created
  reported; a failed write leaves a prefix of the content or the file as it was.
\<close>

theorem write_file_spec:
  assumes "writeFile ctxErr links g openErr writeErr args fs = (res, fs')"
  shows "fs' = fs \<and> isl res \<or>
    (\<exists>p n. decodeWriteParams args = Some p \<and> guardCheck g links (wpPath p) = None \<and> ctxErr = None \<and>
       openErr = None \<and> (wpOverwrite p \<or> fs (wpPath p) = None) \<and> fs' = fs(wpPath p \<mapsto> take n (wpContent p)) \<and>
       (isl res \<or>
        length (wpContent p) \<le> n \<and> res = Inr \<lparr>wrPath = clean (wpPath p),
          wrBytesWritten = length (wpContent p), wrCreated = (fs (wpPath p) = None)\<rparr>))"
proof (cases "decodeWriteParams args")
  case None
  then show ?thesis using assms by (auto simp: writeFile_def)
next
  case (Some p)
  then show ?thesis
  proof (cases "guardCheck g links (wpPath p) = None \<and> ctxErr = None \<and> openErr = None \<and>
      (wpOverwrite p \<or> fs (wpPath p) = None)")
    case True
    show ?thesis
    proof (cases writeErr)
      case None
      then show ?thesis
        using True assms Some by (auto simp: writeFile_def Let_def intro!: exI [of _ "length (wpContent p)"])
    next
      case (Some ne)
      then show ?thesis
        using True assms \<open>decodeWriteParams args = Some p\<close>
        by (cases ne) (auto simp: writeFile_def Let_def intro!: exI [of _ "fst ne"])
    qed
  next
    case False
    then show ?thesis
      using assms Some by (auto simp: writeFile_def Let_def split: option.splits if_splits)
  qed
qed

theorem write_file_spec_witness:
  "snd (writeFile None Some (newPathGuard [] []) None None
      (JText (JObj [(''path'', JStr ''/f''), (''content'', JStr ''new'')])) [''/f'' \<mapsto> ''old'']) = [''/f'' \<mapsto> ''old'']"
proof -
  have d: "decodeWriteParams (JText (JObj [(''path'', JStr ''/f''), (''content'', JStr ''new'')])) =
      Some \<lparr>wpPath = ''/f'', wpContent = ''new'', wpOverwrite = False\<rparr>" by code_simp
  show ?thesis
    using write_file_spec [OF surjective_pairing, of None Some "newPathGuard [] []" None None
        "JText (JObj [(''path'', JStr ''/f''), (''content'', JStr ''new'')])" "[''/f'' \<mapsto> ''old'']"]
    by (simp add: d)
qed

text \<open>
  A written file reads back.  When \<open>write_file\<close> has succeeded, a \<open>read_file\<close> of a range
  that covers the content returns exactly what was sent, complete and untruncated, provided that it
  looks like text and is within the size limit.
\<close>

theorem write_read_roundtrip:
  assumes "decodeWriteParams wargs = Some w"
    and "writeFile ctxErr links g openErr writeErr wargs fs = (Inr r, fs')"
    and "ovLinks os = links" and "ovOpen os = (\<lambda>q. case fs' q of Some c \<Rightarrow> Inr c | None \<Rightarrow> Inl e)"
    and "ovStat os = (\<lambda>q. case fs' q of Some c \<Rightarrow> Inr (False, int (length c)) | None \<Rightarrow> Inl e)"
    and "ovSeek os = None" and "ovSeekOffset os = None" and "ovRead os = None" and "ctx 0 = None"
    and "CHR 0x00 \<notin> set (take binaryCheckBytes (wpContent w))"
    and "int (length (wpContent w)) \<le> wrap64 (mb * 1024 * 1024)"
    and "int (length (wpContent w)) \<le> len" and "0 < len" and "isInt64 len"
  shows "\<exists>d. readFile ctx os g mb (rangeArgs (wpPath w) 0 len) = Inr d \<and> rsContent d = wpContent w \<and>
    \<not> rsTruncated d \<and> rsSizeBytes d = int (length (wpContent w))"
proof -
  have "guardCheck g links (wpPath w) = None \<and> fs' = fs(wpPath w \<mapsto> wpContent w)"
    using assms(1,2) by (auto simp: writeFile_def Let_def split: option.splits if_splits)
  then have "readable os g mb (wpPath w) (wpContent w) (int (length (wpContent w)))"
    using assms(3-11) by (simp add: readable_def)
  from readFile_range [of os g mb "wpPath w" "wpContent w" ctx 0 len, OF this assms(9) _ assms(14) _ assms(13)]
  have "readFile ctx os g mb (rangeArgs (wpPath w) 0 len) = Inr
    \<lparr>rsPath = wpPath w, rsContent = take (nat len) (wpContent w), rsEncoding = ''utf-8'',
     rsLines = length (filter (\<lambda>c. c = newline) (take (nat len) (wpContent w))) + 1,
     rsTruncated = len < int (length (wpContent w)), rsIsBinary = False,
     rsSizeBytes = int (length (wpContent w))\<rparr>"
    by (simp add: isInt64_def)
  then show ?thesis using assms(12) by auto
qed

theorem write_read_roundtrip_witness:
  "\<exists>d. readFile (\<lambda>_. None) ((demoOS [])\<lparr>ovOpen := (\<lambda>q. if q = ''/f'' then Inr ''new'' else Inl (ErrText [])),
       ovStat := (\<lambda>q. if q = ''/f'' then Inr (False, 3) else Inl (ErrText []))\<rparr>) (newPathGuard [] []) 1
       (rangeArgs ''/f'' 0 10) = Inr d \<and> rsContent d = ''new''"
proof -
  define w where "w = \<lparr>wpPath = ''/f'', wpContent = ''new'', wpOverwrite = False\<rparr>"
  define os where "os = (demoOS [])\<lparr>ovOpen := (\<lambda>q. if q = ''/f'' then Inr ''new'' else Inl (ErrText [])),
       ovStat := (\<lambda>q. if q = ''/f'' then Inr (False, 3) else Inl (ErrText []))\<rparr>"
  define wargs where "wargs = JText (JObj [(''path'', JStr ''/f''), (''content'', JStr ''new'')])"
  have d: "decodeWriteParams wargs = Some w" unfolding wargs_def w_def by code_simp
  have g: "guardCheck (newPathGuard [] []) Some ''/f'' = None" by code_simp
  have "writeFile None Some (newPathGuard [] []) None None wargs Map.empty = (Inr
      \<lparr>wrPath = clean ''/f'', wrBytesWritten = 3, wrCreated = True\<rparr>, [''/f'' \<mapsto> ''new''])"
    using d g by (simp add: writeFile_def w_def)
  note rt = write_read_roundtrip [OF d this, of os "ErrText []" "\<lambda>_. None" 1 10]
  have os: "ovLinks os = Some" "ovSeek os = None" "ovSeekOffset os = None" "ovRead os = None"
    "ovOpen os = (\<lambda>q. case [''/f'' \<mapsto> ''new''] q of Some c \<Rightarrow> Inr c | None \<Rightarrow> Inl (ErrText []))"
    "ovStat os = (\<lambda>q. case [''/f'' \<mapsto> ''new''] q of Some c \<Rightarrow> Inr (False, int (length c)) | None \<Rightarrow> Inl (ErrText []))"
    by (auto simp: os_def demoOS_def)
  have "\<exists>d. readFile (\<lambda>_. None) os (newPathGuard [] []) 1 (rangeArgs ''/f'' 0 10) = Inr d \<and> rsContent d = ''new''"
    using rt os by (auto simp: w_def wrap64_def isInt64_def binaryCheckBytes_def)
  then show ?thesis by (simp only: os_def)
qed

end
