(* ===== verification/AgentExec.thy ===== *)
theory AgentExec
  imports AgentFiles
begin

text \<open>
  \<open>internal/sysplane-agent/cmdexec/process.go\<close>: the tool that runs a program.  The operating system
  is an argument (\<open>osExec\<close>): the pipes, the start of the process, what the process writes (the
  pieces in which \<open>io.Copy\<close> delivers them), how it ends.  Besides its result a run returns
  the processes it has started.  The two copies and \<open>cmd.Wait\<close> run concurrently; the model takes
  the pieces that the copies have read before the pipes were closed.
\<close>

section \<open>The bounded buffer\<close>

record limitBuffer =
  lbLimit :: int
  lbBuf :: string
  lbTruncated :: bool

definition lbWrite :: "limitBuffer \<Rightarrow> string \<Rightarrow> limitBuffer" where
  "lbWrite b p =
     (if lbLimit b \<le> 0 then b
      else let remaining = lbLimit b - int (length (lbBuf b)) in
        if remaining > 0
        then (if int (length p) > remaining
              then b\<lparr>lbBuf := lbBuf b @ take (nat remaining) p, lbTruncated := True\<rparr>
              else b\<lparr>lbBuf := lbBuf b @ p\<rparr>)
        else b\<lparr>lbTruncated := True\<rparr>)"

definition newBuffer :: "int \<Rightarrow> limitBuffer" where
  "newBuffer n = \<lparr>lbLimit = n, lbBuf = [], lbTruncated = False\<rparr>"

section \<open>Running a program\<close>

record runParams =
  rqCommand :: string
  rqArgs :: "string list"
  rqDir :: string
  rqTimeoutSec :: int
  rqMaxOutput :: int

record runResult =
  rrCommand :: string
  rrArgs :: "string list"
  rrStdout :: string
  rrStderr :: string
  rrExitCode :: int
  rrSuccess :: bool
  rrTruncated :: bool
  rrDurationMs :: int

definition decodeRunParams :: "jtext \<Rightarrow> runParams option" where
  "decodeRunParams args =
     (case decodeObject args of None \<Rightarrow> None | Some m \<Rightarrow>
       (case (decodeStr (jget m ''command''), decodeStrs (jget m ''args''), decodeStr (jget m ''dir''),
              decodeInt (jget m ''timeout_sec''), decodeInt (jget m ''max_output_bytes'')) of
          (Some c, Some a, Some d, Some t, Some mo) \<Rightarrow>
            Some \<lparr>rqCommand = c, rqArgs = a, rqDir = d, rqTimeoutSec = t, rqMaxOutput = mo\<rparr>
        | _ \<Rightarrow> None))"

text \<open>The end of a process: it exited with a code, or waiting for it failed otherwise.\<close>

datatype waitResult = WaitOk | WaitExit int | WaitError goerr

record procSpec =
  psCommand :: string
  psArgs :: "string list"
  psDir :: string
  psTimeout :: "int option"

record procRun =
  prStdout :: "string list"
  prStderr :: "string list"
  prWait :: waitResult
  prCtxErr :: "goerr option"
  prMillis :: int

record osExec =
  oxStdoutPipe :: "goerr option"
  oxStderrPipe :: "goerr option"
  oxStart :: "procSpec \<Rightarrow> goerr + procRun"

type_synonym runner = "string list"

definition newRunner :: "string list \<Rightarrow> runner" where
  "newRunner allowedCommands =
     List.map clean (filter (\<lambda>c. c \<noteq> []) (List.map trimSpace allowedCommands))"

definition defaultMaxOutputBytes :: int where "defaultMaxOutputBytes = 256 * 1024"

definition errRun :: "string \<Rightarrow> goerr" where
  "errRun what = ErrText (''run_process: '' @ what)"

definition procResult :: "procSpec \<Rightarrow> int \<Rightarrow> procRun \<Rightarrow> goerr + runResult" where
  "procResult spec maxOut r =
     (let out = foldl lbWrite (newBuffer maxOut) (prStdout r);
          err = foldl lbWrite (newBuffer maxOut) (prStderr r);
          res = (\<lambda>code ok. \<lparr>rrCommand = psCommand spec, rrArgs = psArgs spec, rrStdout = lbBuf out,
                   rrStderr = lbBuf err, rrExitCode = code, rrSuccess = ok,
                   rrTruncated = (lbTruncated out \<or> lbTruncated err), rrDurationMs = prMillis r\<rparr>)
      in case prWait r of
           WaitOk \<Rightarrow> Inr (res 0 True)
         | w \<Rightarrow>
             (case prCtxErr r of
                Some e \<Rightarrow> Inl e
              | None \<Rightarrow>
                  (case w of
                     WaitExit code \<Rightarrow> Inr (res code False)
                   | WaitError e \<Rightarrow> Inl (ErrWrap (''run_process: wait '' @ psCommand spec @ '': '') e)
                   | WaitOk \<Rightarrow> Inr (res 0 True))))"

definition runProcess ::
  "osExec \<Rightarrow> runner \<Rightarrow> jtext \<Rightarrow> (goerr + runResult) \<times> procSpec list" where
  "runProcess os allowed args =
     (case decodeRunParams args of
        None \<Rightarrow> (Inl (ErrWrap ''run_process: invalid args: '' (unmarshalError ''run_process'')), [])
      | Some p \<Rightarrow>
          (let command = clean (trimSpace (rqCommand p)) in
           if command = [] \<or> command = ''.'' then (Inl (errRun ''command is required''), [])
           else if \<not> isAbs command then (Inl (errRun ''command must be an absolute path''), [])
           else if allowed = [] then (Inl (errRun ''command execution is disabled on this agent''), [])
           else if command \<notin> set allowed
           then (Inl (errRun (''command '' @ quoteStr command @ '' is not in security.allowed_commands'')), [])
           else
             (let maxOut = (if rqMaxOutput p \<le> 0 then defaultMaxOutputBytes else rqMaxOutput p);
                  spec = \<lparr>psCommand = command, psArgs = rqArgs p, psDir = rqDir p,
                    psTimeout = (if rqTimeoutSec p > 0 then Some (wrap64 (rqTimeoutSec p * 10 ^ 9)) else None)\<rparr>
              in case oxStdoutPipe os of
                   Some e \<Rightarrow> (Inl (ErrWrap ''run_process: stdout pipe: '' e), [])
                 | None \<Rightarrow>
                 (case oxStderrPipe os of
                   Some e \<Rightarrow> (Inl (ErrWrap ''run_process: stderr pipe: '' e), [])
                 | None \<Rightarrow>
                 (case oxStart os spec of
                   Inl e \<Rightarrow> (Inl (ErrWrap (''run_process: start '' @ command @ '': '') e), [])
                 | Inr r \<Rightarrow> (procResult spec maxOut r, [spec]))))))"

section \<open>Properties\<close>

definition lbOk :: "limitBuffer \<Rightarrow> string \<Rightarrow> bool" where
  "lbOk b s \<longleftrightarrow> lbBuf b = take (nat (lbLimit b)) s \<and> lbTruncated b = (int (length s) > lbLimit b)"

lemma lbWrite_ok:
  assumes "lbLimit b > 0" and "lbOk b s" and "p \<noteq> []"
  shows "lbOk (lbWrite b p) (s @ p) \<and> lbLimit (lbWrite b p) = lbLimit b"
proof (cases "int (length s) < lbLimit b")
  case True
  then have "lbBuf b = s" "\<not> lbTruncated b" using assms by (auto simp: lbOk_def)
  then show ?thesis
    using True assms(1) by (auto simp: lbWrite_def lbOk_def Let_def take_all nat_diff_distrib')
next
  case False
  then have "int (length (lbBuf b)) = lbLimit b" using assms by (auto simp: lbOk_def min_def)
  then show ?thesis
    using False assms by (auto simp: lbWrite_def lbOk_def Let_def)
qed

lemma foldl_lbWrite:
  assumes "\<forall>p \<in> set ps. p \<noteq> []"
  shows "lbLimit b > 0 \<Longrightarrow> lbOk b s \<Longrightarrow> lbOk (foldl lbWrite b ps) (s @ concat ps) \<and>
    lbLimit (foldl lbWrite b ps) = lbLimit b"
  using assms
proof (induction ps arbitrary: b s)
  case (Cons p ps)
  have "lbOk (lbWrite b p) (s @ p)" "lbLimit (lbWrite b p) = lbLimit b"
    using lbWrite_ok Cons.prems by auto
  then show ?case using Cons.IH [of "lbWrite b p" "s @ p"] Cons.prems by simp
qed simp

lemma newBuffer_ok: "n > 0 \<Longrightarrow> lbOk (newBuffer n) []" "lbLimit (newBuffer n) = n"
  by (simp_all add: newBuffer_def lbOk_def)

lemma buffered:
  assumes "n > 0" and "\<forall>p \<in> set ps. p \<noteq> []"
  shows "lbBuf (foldl lbWrite (newBuffer n) ps) = take (nat n) (concat ps)"
    and "lbTruncated (foldl lbWrite (newBuffer n) ps) = (int (length (concat ps)) > n)"
  using foldl_lbWrite [OF assms(2), of "newBuffer n" "[]"] newBuffer_ok assms(1) by (auto simp: lbOk_def)

lemma runProcess_started:
  assumes "runProcess os allowed args = (res, started)" and "spec \<in> set started"
  obtains p where "decodeRunParams args = Some p" "started = [spec]"
    "psCommand spec = clean (trimSpace (rqCommand p))" "psArgs spec = rqArgs p" "psDir spec = rqDir p"
    "isAbs (psCommand spec)" "psCommand spec \<in> set allowed"
  using assms by (auto simp: runProcess_def Let_def split: option.splits if_splits sum.splits)

text \<open>
  An agent runs only the programs its configuration lists.  Whatever the arguments, at
  most one process is started; its program is an absolute path without detours that is the cleaned
  form of a configured command, and its arguments and directory are those of the request.  With no
  command configured nothing is ever started.
\<close>

theorem run_process_whitelist:
  assumes "spec \<in> set (snd (runProcess os (newRunner commands) args))"
  shows "snd (runProcess os (newRunner commands) args) = [spec] \<and> isAbs (psCommand spec) \<and>
    ''..'' \<notin> set (comps (psCommand spec)) \<and>
    (\<exists>c \<in> set commands. trimSpace c \<noteq> [] \<and> psCommand spec = clean (trimSpace c)) \<and>
    (\<exists>p. decodeRunParams args = Some p \<and> psCommand spec = clean (trimSpace (rqCommand p)) \<and>
       psArgs spec = rqArgs p \<and> psDir spec = rqDir p)"
proof -
  from runProcess_started [OF surjective_pairing assms] obtain p where
    p: "decodeRunParams args = Some p" "snd (runProcess os (newRunner commands) args) = [spec]"
      "psCommand spec = clean (trimSpace (rqCommand p))" "psArgs spec = rqArgs p" "psDir spec = rqDir p"
      "isAbs (psCommand spec)" "psCommand spec \<in> set (newRunner commands)" by blast
  have "''..'' \<notin> set (comps (psCommand spec))"
    using p(3,6) clean_no_dots [of "trimSpace (rqCommand p)"] by simp
  then show ?thesis using p by (auto simp: newRunner_def)
qed

definition demoExec :: "string list \<Rightarrow> waitResult \<Rightarrow> osExec" where
  "demoExec pieces w = \<lparr>oxStdoutPipe = None, oxStderrPipe = None,
     oxStart = (\<lambda>_. Inr \<lparr>prStdout = pieces, prStderr = [], prWait = w, prCtxErr = None, prMillis = 1\<rparr>)\<rparr>"

definition demoRun :: jtext where
  "demoRun = JText (JObj [(''command'', JStr '' /bin/../bin/ls''), (''args'', JArr [JStr ''-l''])])"

theorem run_process_whitelist_witness:
  "\<exists>spec. snd (runProcess (demoExec [''x''] WaitOk) (newRunner [''/bin/ls '']) demoRun) = [spec] \<and>
     psCommand spec = ''/bin/ls''"
proof -
  define spec where "spec = \<lparr>psCommand = ''/bin/ls'', psArgs = [''-l''], psDir = [], psTimeout = None\<rparr>"
  have s: "snd (runProcess (demoExec [''x''] WaitOk) (newRunner [''/bin/ls '']) demoRun) = [spec]"
    unfolding spec_def by code_simp
  then have m: "spec \<in> set (snd (runProcess (demoExec [''x''] WaitOk) (newRunner [''/bin/ls '']) demoRun))" by simp
  have "trimSpace ''/bin/ls '' = ''/bin/ls''" "clean ''/bin/ls'' = ''/bin/ls''" by code_simp+
  then show ?thesis using run_process_whitelist [OF m] by auto
qed

text \<open>
  What \<open>run_process\<close> reports.  A result holds the first bytes of each output up to the
  requested limit (256 KiB if none is given), however the output was cut into pieces, is marked
  truncated exactly when one of them was longer, and is a success exactly when the process ended
  with code 0 as far as \<open>cmd.Wait\<close> tells.
\<close>

theorem run_process_result:
  assumes "runProcess os allowed args = (Inr r, started)"
    and "\<forall>spec pr. oxStart os spec = Inr pr \<longrightarrow> [] \<notin> set (prStdout pr) \<union> set (prStderr pr)"
  shows "\<exists>p spec pr n. decodeRunParams args = Some p \<and> started = [spec] \<and> oxStart os spec = Inr pr \<and>
    n = (if rqMaxOutput p \<le> 0 then 256 * 1024 else rqMaxOutput p) \<and>
    rrStdout r = take (nat n) (concat (prStdout pr)) \<and> rrStderr r = take (nat n) (concat (prStderr pr)) \<and>
    rrTruncated r = (int (length (concat (prStdout pr))) > n \<or> int (length (concat (prStderr pr))) > n) \<and>
    (case prWait pr of WaitOk \<Rightarrow> rrSuccess r \<and> rrExitCode r = 0
      | WaitExit code \<Rightarrow> \<not> rrSuccess r \<and> rrExitCode r = code \<and> prCtxErr pr = None
      | WaitError e \<Rightarrow> False)"
proof -
  from assms(1) obtain p spec pr n where
    p: "decodeRunParams args = Some p" "started = [spec]" "oxStart os spec = Inr pr"
      "n = (if rqMaxOutput p \<le> 0 then defaultMaxOutputBytes else rqMaxOutput p)"
      "procResult spec n pr = Inr r"
    by (auto simp: runProcess_def Let_def split: option.splits if_splits sum.splits)
  have n: "n > 0" using p(4) by (simp add: defaultMaxOutputBytes_def split: if_splits)
  have ne: "\<forall>q \<in> set (prStdout pr). q \<noteq> []" "\<forall>q \<in> set (prStderr pr). q \<noteq> []"
    using assms(2) p(3) by (metis UnCI)+
  note b = buffered [OF n ne(1)] buffered [OF n ne(2)]
  have "rrStdout r = take (nat n) (concat (prStdout pr)) \<and> rrStderr r = take (nat n) (concat (prStderr pr)) \<and>
    rrTruncated r = (int (length (concat (prStdout pr))) > n \<or> int (length (concat (prStderr pr))) > n) \<and>
    (case prWait pr of WaitOk \<Rightarrow> rrSuccess r \<and> rrExitCode r = 0
      | WaitExit code \<Rightarrow> \<not> rrSuccess r \<and> rrExitCode r = code \<and> prCtxErr pr = None
      | WaitError e \<Rightarrow> False)"
    using p(5) by (cases "prWait pr"; cases "prCtxErr pr") (auto simp: procResult_def Let_def b)
  then show ?thesis using p by (auto simp: defaultMaxOutputBytes_def)
qed

theorem run_process_result_witness:
  "\<exists>r started. runProcess (demoExec [''ab'', ''cd''] (WaitExit 2)) (newRunner [''/bin/ls''])
       (JText (JObj [(''command'', JStr ''/bin/ls''), (''max_output_bytes'', JNum (of_int 3))])) = (Inr r, started) \<and>
     rrStdout r = ''abc'' \<and> rrTruncated r \<and> \<not> rrSuccess r \<and> rrExitCode r = 2"
proof -
  define os where "os = demoExec [''ab'', ''cd''] (WaitExit 2)"
  define args where "args = JText (JObj [(''command'', JStr ''/bin/ls''), (''max_output_bytes'', JNum (of_int 3))])"
  define p where "p = \<lparr>rqCommand = ''/bin/ls'', rqArgs = [], rqDir = [], rqTimeoutSec = 0, rqMaxOutput = 3\<rparr>"
  have d: "decodeRunParams args = Some p"
    unfolding p_def args_def by (simp add: decodeRunParams_def floatToInt64_of_int isInt64_def del: of_int_numeral)
  have c: "clean (trimSpace ''/bin/ls'') = ''/bin/ls''" "''/bin/ls'' \<in> set (newRunner [''/bin/ls''])"
    "newRunner [''/bin/ls''] \<noteq> []" "isAbs ''/bin/ls''" by code_simp+
  obtain r started where r: "runProcess os (newRunner [''/bin/ls'']) args = (Inr r, started)"
    using d c by (simp add: runProcess_def p_def os_def demoExec_def procResult_def Let_def)
  have "\<forall>spec pr. oxStart os spec = Inr pr \<longrightarrow> [] \<notin> set (prStdout pr) \<union> set (prStderr pr)"
    by (auto simp: os_def demoExec_def)
  from run_process_result [OF r this] have "rrStdout r = ''abc'' \<and> rrTruncated r \<and> \<not> rrSuccess r \<and> rrExitCode r = 2"
    by (auto simp: d p_def os_def demoExec_def)
  then show ?thesis using r unfolding os_def args_def by blast
qed

end
