(* ===== verification/AgentConfig.thy ===== *)
theory AgentConfig
  imports AgentExec
begin

text \<open>
  The configuration of the agent (\<open>internal/sysplane-agent/config/config.go\<close>) and the two tools that
  read and replace its security section at run time (\<open>handleGetConfig\<close>, \<open>handleSetConfig\<close> of
  \<open>internal/sysplane-agent/agent.go\<close>).  YAML is a third-party package: its two functions are arguments,
  and a decoded YAML document is a value of the type \<open>json\<close>.  A slice is a list, so the model does not tell
  a nil slice from an empty one.
\<close>

section \<open>The configuration\<close>

record tlsFiles =
  tfCertFile :: string
  tfKeyFile :: string
  tfCAFile :: string

record upstreamConfig =
  ucAddress :: string
  ucToken :: string
  ucTLS :: tlsFiles

record security =
  seAllowedPaths :: "string list"
  seBlockedPaths :: "string list"
  seMaxFileSizeMB :: int
  seAllowPrivilegedPorts :: bool
  seAllowedPorts :: "int list"
  seAllowedCommands :: "string list"

record loggingConfig =
  lgLevel :: string
  lgFormat :: string

record agentConfig =
  acUpstream :: upstreamConfig
  acSecurity :: security
  acLogging :: loggingConfig
  acToolTimeoutSec :: int
  acReconnectMaxDelaySec :: int
  acHostname :: string
  acConfigPath :: string

definition securityDefaults :: "security \<Rightarrow> security" where
  "securityDefaults s = s
     \<lparr>seMaxFileSizeMB := (if seMaxFileSizeMB s \<le> 0 then 100 else seMaxFileSizeMB s),
      seBlockedPaths := (if seBlockedPaths s = [] then [''/proc'', ''/sys'', ''/dev''] else seBlockedPaths s)\<rparr>"

definition agentDefaults :: "agentConfig \<Rightarrow> agentConfig" where
  "agentDefaults c = c
     \<lparr>acToolTimeoutSec := (if acToolTimeoutSec c \<le> 0 then 25 else acToolTimeoutSec c),
      acReconnectMaxDelaySec := (if acReconnectMaxDelaySec c \<le> 0 then 5 else acReconnectMaxDelaySec c),
      acSecurity := securityDefaults (acSecurity c),
      acLogging := \<lparr>lgLevel = (if lgLevel (acLogging c) = [] then ''info'' else lgLevel (acLogging c)),
        lgFormat = (if lgFormat (acLogging c) = [] then ''json'' else lgFormat (acLogging c))\<rparr>\<rparr>"

text \<open>The loop over the commands: the first bad one gives the error; \<open>prefix\<close> and the texts differ between
  the two places that have it.\<close>

fun checkCommands :: "string \<Rightarrow> string \<Rightarrow> string \<Rightarrow> string list \<Rightarrow> goerr option" where
  "checkCommands blank before after [] = None"
| "checkCommands blank before after (c # cs) =
     (let command = trimSpace c in
      if command = [] then Some (ErrText blank)
      else if \<not> isAbs command then Some (ErrText (before @ quoteStr command @ after))
      else checkCommands blank before after cs)"

definition agentValidate :: "agentConfig \<Rightarrow> goerr option" where
  "agentValidate c =
     (if ucAddress (acUpstream c) = [] then Some (ErrText ''upstream.address is required'')
      else if ucToken (acUpstream c) = [] then Some (ErrText ''upstream.token is required'')
      else checkCommands ''security.allowed_commands must not contain empty values''
             ''security.allowed_commands value '' '' must be an absolute path''
             (seAllowedCommands (acSecurity c)))"

definition agentLoad ::
  "(string \<Rightarrow> goerr + string) \<Rightarrow> (string \<Rightarrow> goerr + agentConfig) \<Rightarrow> string \<Rightarrow> goerr + agentConfig" where
  "agentLoad readBytes unmarshal path =
     (case readBytes path of
        Inl e \<Rightarrow> Inl (ErrWrap (''agent config: read '' @ path @ '': '') e)
      | Inr data \<Rightarrow>
      (case unmarshal data of
        Inl e \<Rightarrow> Inl (ErrWrap (''agent config: parse '' @ path @ '': '') e)
      | Inr c0 \<Rightarrow>
          (let c = agentDefaults c0 in
           case agentValidate c of
             Some e \<Rightarrow> Inl (ErrWrap ''agent config: '' e)
           | None \<Rightarrow> Inr (c\<lparr>acConfigPath := path\<rparr>))))"

section \<open>The security section as JSON and YAML\<close>

fun decodeInts :: "json \<Rightarrow> int list option" where
  "decodeInts JNull = Some []"
| "decodeInts (JArr xs) = those (List.map decodeInt xs)"
| "decodeInts _ = None"

definition decodeSecurity :: "jtext \<Rightarrow> security option" where
  "decodeSecurity args =
     (case decodeObject args of None \<Rightarrow> None | Some m \<Rightarrow>
       (case (decodeStrs (jget m ''allowed_paths''), decodeStrs (jget m ''blocked_paths''),
              decodeInt (jget m ''max_file_size_mb''), decodeBool (jget m ''allow_privileged_ports''),
              decodeInts (jget m ''allowed_ports''), decodeStrs (jget m ''allowed_commands'')) of
          (Some ap, Some bp, Some mx, Some priv, Some ports, Some cmds) \<Rightarrow>
            Some \<lparr>seAllowedPaths = ap, seBlockedPaths = bp, seMaxFileSizeMB = mx,
              seAllowPrivilegedPorts = priv, seAllowedPorts = ports, seAllowedCommands = cmds\<rparr>
        | _ \<Rightarrow> None))"

definition securityMap :: "security \<Rightarrow> jobj" where
  "securityMap s =
     [(''allowed_paths'', JArr (List.map JStr (seAllowedPaths s))),
      (''blocked_paths'', JArr (List.map JStr (seBlockedPaths s))),
      (''max_file_size_mb'', JNum (of_int (seMaxFileSizeMB s))),
      (''allow_privileged_ports'', JBool (seAllowPrivilegedPorts s)),
      (''allowed_ports'', JArr (List.map (\<lambda>n. JNum (of_int n)) (seAllowedPorts s))),
      (''allowed_commands'', JArr (List.map JStr (seAllowedCommands s)))]"

definition handleGetConfig :: "security \<Rightarrow> goerr + jtext" where
  "handleGetConfig s = Inr (JText (JObj (securityMap s)))"

text \<open>The file system and the YAML package as seen by \<open>persistSecurityConfig\<close>.\<close>

record yamlEnv =
  yeRead :: "goerr + string"
  yeUnmarshal :: "string \<Rightarrow> goerr + jobj"
  yeMarshal :: "jobj \<Rightarrow> goerr + string"
  yeWrite :: "goerr option"

text \<open>The new content of the file, or an error and what became of the file.\<close>

definition persistSecurityConfig :: "yamlEnv \<Rightarrow> security \<Rightarrow> string \<Rightarrow> goerr option \<times> string" where
  "persistSecurityConfig env sec file =
     (case yeRead env of
        Inl e \<Rightarrow> (Some e, file)
      | Inr data \<Rightarrow>
      (case yeUnmarshal env data of
        Inl e \<Rightarrow> (Some e, file)
      | Inr raw \<Rightarrow>
      (case yeMarshal env (AList.update ''security'' (JObj (securityMap sec)) raw) of
        Inl e \<Rightarrow> (Some e, file)
      | Inr out \<Rightarrow> (case yeWrite env of Some e \<Rightarrow> (Some e, file) | None \<Rightarrow> (None, out)))))"

text \<open>The answer, the security settings from now on and the configuration file.\<close>

definition handleSetConfig ::
  "yamlEnv \<Rightarrow> string \<Rightarrow> jtext \<Rightarrow> security \<Rightarrow> string \<Rightarrow> (goerr + jtext) \<times> security \<times> string" where
  "handleSetConfig env configPath args cur file =
     (case decodeSecurity args of
        None \<Rightarrow> (Inl (ErrWrap ''invalid security config: '' (unmarshalError ''security'')), cur, file)
      | Some new \<Rightarrow>
      (case checkCommands ''allowed_commands must not contain empty values'' ''allowed_commands: ''
              '' must be an absolute path'' (seAllowedCommands new) of
        Some e \<Rightarrow> (Inl e, cur, file)
      | None \<Rightarrow>
          (let (err, file') = (if configPath \<noteq> [] then persistSecurityConfig env new file else (None, file)) in
           case err of
             Some e \<Rightarrow> (Inl (ErrWrap ''persist config: '' e), cur, file')
           | None \<Rightarrow> (Inr (JText (JObj (securityMap new))), new, file'))))"

section \<open>Properties\<close>

lemma checkCommands_None:
  "checkCommands b x y cs = None \<longleftrightarrow> (\<forall>c \<in> set cs. isAbs (trimSpace c))"
  by (induction cs) (auto simp: Let_def isAbs_def hasPrefix_def)

text \<open>A configuration the agent can run with.\<close>

definition securityOk :: "security \<Rightarrow> bool" where
  "securityOk s \<longleftrightarrow> seMaxFileSizeMB s > 0 \<and> seBlockedPaths s \<noteq> [] \<and>
     (\<forall>c \<in> set (seAllowedCommands s). isAbs (trimSpace c))"

definition configOk :: "agentConfig \<Rightarrow> bool" where
  "configOk c \<longleftrightarrow> ucAddress (acUpstream c) \<noteq> [] \<and> ucToken (acUpstream c) \<noteq> [] \<and>
     acToolTimeoutSec c > 0 \<and> acReconnectMaxDelaySec c > 0 \<and> securityOk (acSecurity c) \<and>
     lgLevel (acLogging c) \<noteq> [] \<and> lgFormat (acLogging c) \<noteq> []"

lemma agentDefaults_idem: "agentDefaults (agentDefaults c) = agentDefaults c"
  by (simp add: agentDefaults_def securityDefaults_def)

lemma agentValidate_None:
  "agentValidate c = None \<longleftrightarrow> ucAddress (acUpstream c) \<noteq> [] \<and> ucToken (acUpstream c) \<noteq> [] \<and>
     (\<forall>cmd \<in> set (seAllowedCommands (acSecurity c)). isAbs (trimSpace cmd))"
  by (simp add: agentValidate_def checkCommands_None)

lemma agentDefaults_kept:
  "acUpstream (agentDefaults c) = acUpstream c"
  "seAllowedCommands (acSecurity (agentDefaults c)) = seAllowedCommands (acSecurity c)"
  by (simp_all add: agentDefaults_def securityDefaults_def)

lemma agentDefaults_ok: "agentValidate (agentDefaults c) = None \<Longrightarrow> configOk (agentDefaults c)"
  unfolding agentValidate_None configOk_def securityOk_def
  by (simp add: agentDefaults_def securityDefaults_def)

lemma agentDefaults_id: "configOk c \<Longrightarrow> agentDefaults c = c"
  unfolding configOk_def securityOk_def by (simp add: agentDefaults_def securityDefaults_def)

lemma configOk_path: "configOk (c\<lparr>acConfigPath := path\<rparr>) = configOk c"
  by (simp add: configOk_def)

text \<open>
  A loaded configuration is complete.  When the file can be read and parsed, loading succeeds
  exactly when the upstream has an address and a token and every allowed command is an absolute
  path; the result then has every default filled in, what the file said of the upstream is
  kept, and a configuration that was complete is not changed.
\<close>

theorem agentLoad_spec:
  assumes "readBytes path = Inr bytes" and "unmarshal bytes = Inr c0"
  shows "(case agentLoad readBytes unmarshal path of
       Inl _ \<Rightarrow> ucAddress (acUpstream c0) = [] \<or> ucToken (acUpstream c0) = [] \<or>
         (\<exists>cmd \<in> set (seAllowedCommands (acSecurity c0)). \<not> isAbs (trimSpace cmd))
     | Inr c \<Rightarrow> configOk c \<and> acConfigPath c = path \<and> acUpstream c = acUpstream c0 \<and>
         (configOk c0 \<longrightarrow> c = c0\<lparr>acConfigPath := path\<rparr>))"
proof (cases "agentValidate (agentDefaults c0)")
  case None
  then show ?thesis
    using agentDefaults_ok [OF None] agentDefaults_id [of c0] assms
    by (simp add: agentLoad_def agentDefaults_kept configOk_path)
next
  case (Some e)
  then have "\<not> (ucAddress (acUpstream c0) \<noteq> [] \<and> ucToken (acUpstream c0) \<noteq> [] \<and>
     (\<forall>cmd \<in> set (seAllowedCommands (acSecurity c0)). isAbs (trimSpace cmd)))"
    using agentValidate_None [of "agentDefaults c0"] by (simp add: agentDefaults_kept)
  then show ?thesis using Some assms by (auto simp: agentLoad_def)
qed

definition demoConfig :: agentConfig where
  "demoConfig = \<lparr>acUpstream = \<lparr>ucAddress = ''c:1'', ucToken = ''t'', ucTLS = \<lparr>tfCertFile = [], tfKeyFile = [], tfCAFile = []\<rparr>\<rparr>,
     acSecurity = \<lparr>seAllowedPaths = [], seBlockedPaths = [], seMaxFileSizeMB = 0, seAllowPrivilegedPorts = False,
       seAllowedPorts = [], seAllowedCommands = []\<rparr>,
     acLogging = \<lparr>lgLevel = [], lgFormat = []\<rparr>, acToolTimeoutSec = 0, acReconnectMaxDelaySec = 0,
     acHostname = [], acConfigPath = []\<rparr>"

theorem agentLoad_spec_witness:
  "\<exists>c. agentLoad (\<lambda>_. Inr []) (\<lambda>_. Inr demoConfig) ''/etc/a.yaml'' = Inr c \<and> configOk c"
  using agentLoad_spec [of "\<lambda>_. Inr []" "''/etc/a.yaml''" "[]" "\<lambda>_. Inr demoConfig" demoConfig]
  by (cases "agentLoad (\<lambda>_. Inr []) (\<lambda>_. Inr demoConfig) ''/etc/a.yaml''") (simp_all add: demoConfig_def)

section \<open>Replacing the security section\<close>

lemma those_map_Some: "(\<And>x. x \<in> set xs \<Longrightarrow> f x = Some (g x)) \<Longrightarrow> those (List.map f xs) = Some (List.map g xs)"
  by (induction xs) auto

lemma decodeStrs_JStr: "decodeStrs (JArr (List.map JStr xs)) = Some xs"
  using those_map_Some [of xs "decodeStr \<circ> JStr" id] by simp

lemma decodeInts_JNum:
  assumes "\<forall>n \<in> set ns. isInt64 n"
  shows "decodeInts (JArr (List.map (\<lambda>n. JNum (of_int n)) ns)) = Some ns"
  using those_map_Some [of ns "decodeInt \<circ> (\<lambda>n. JNum (of_int n))" id] assms
  by (simp add: floatToInt64_of_int)

definition securityInts :: "security \<Rightarrow> bool" where
  "securityInts s \<longleftrightarrow> isInt64 (seMaxFileSizeMB s) \<and> (\<forall>n \<in> set (seAllowedPorts s). isInt64 n)"

lemma decodeSecurity_map:
  assumes "securityInts s"
  shows "decodeSecurity (JText (JObj (securityMap s))) = Some s"
proof -
  have "jget (securityMap s) ''allowed_paths'' = JArr (List.map JStr (seAllowedPaths s))"
    "jget (securityMap s) ''blocked_paths'' = JArr (List.map JStr (seBlockedPaths s))"
    "jget (securityMap s) ''max_file_size_mb'' = JNum (of_int (seMaxFileSizeMB s))"
    "jget (securityMap s) ''allow_privileged_ports'' = JBool (seAllowPrivilegedPorts s)"
    "jget (securityMap s) ''allowed_ports'' = JArr (List.map (\<lambda>n. JNum (of_int n)) (seAllowedPorts s))"
    "jget (securityMap s) ''allowed_commands'' = JArr (List.map JStr (seAllowedCommands s))"
    by (simp_all add: securityMap_def)
  then show ?thesis
    using assms decodeInts_JNum [of "seAllowedPorts s"]
    by (simp add: decodeSecurity_def decodeStrs_JStr securityInts_def decodeInt_int del: decodeStrs.simps decodeInts.simps decodeInt.simps)
qed


definition demoMap :: "security \<Rightarrow> jobj" where
  "demoMap sec = AList.update ''security'' (JObj (securityMap sec)) [(''hostname'', JStr ''h'')]"

definition demoYaml :: "security \<Rightarrow> yamlEnv" where
  "demoYaml sec = \<lparr>yeRead = Inr ''old'',
     yeUnmarshal = (\<lambda>t. if t = ''new'' then Inr (demoMap sec) else Inr [(''hostname'', JStr ''h'')]),
     yeMarshal = (\<lambda>m. if m = demoMap sec then Inr ''new'' else Inl CtxCanceled), yeWrite = None\<rparr>"


end
