(* ===== verification/ProxyRegistry.thy ===== *)
theory ProxyRegistry
  imports AgentRegistry
begin

text \<open>
  Package \<open>sysplane-proxy/registry\<close>: the registry of the nodes connected to a proxy.  It has
  the operations of center's registry without the gauge and without callbacks.
\<close>

definition pregNew :: records where
  "pregNew = []"

definition pregRegister :: "agentRecord \<Rightarrow> records \<Rightarrow> records" where
  "pregRegister rec m = AList.update (hostname rec) rec m"

definition pregUnregister :: "string \<Rightarrow> records \<Rightarrow> records" where
  "pregUnregister h m = AList.delete h m"

definition pregUnregisterByStream :: "streamId \<Rightarrow> records \<Rightarrow> records \<times> string list" where
  "pregUnregisterByStream s m =
     (filter (\<lambda>(h, rec). routeStream rec \<noteq> s) m,
      List.map fst (filter (\<lambda>(h, rec). routeStream rec = s) m))"

definition pregLookup :: "records \<Rightarrow> string \<Rightarrow> agentRecord option" where
  "pregLookup m h = map_of m h"

definition pregAll :: "records \<Rightarrow> agentRecord list" where
  "pregAll m = List.map snd m"

definition pregUpdateHeartbeat :: "int \<Rightarrow> string \<Rightarrow> records \<Rightarrow> records" where
  "pregUpdateHeartbeat now h m =
     (case map_of m h of
        None \<Rightarrow> m
      | Some rec \<Rightarrow> AList.update h (rec\<lparr>lastHeartbeat := now, status := StatusOnline\<rparr>) m)"

definition pregCheckOffline :: "int \<Rightarrow> int \<Rightarrow> records \<Rightarrow> records" where
  "pregCheckOffline now timeout m =
     List.map (\<lambda>(h, rec). (h, if status rec = StatusOnline \<and> now - lastHeartbeat rec > timeout
                         then rec\<lparr>status := StatusOffline\<rparr> else rec)) m"

text \<open>The background checker: a pass at each tick until the context ends (\<open>None\<close>).\<close>

fun pregStartOfflineChecker :: "int \<Rightarrow> int option list \<Rightarrow> records \<Rightarrow> records" where
  "pregStartOfflineChecker timeout [] m = m"
| "pregStartOfflineChecker timeout (None # ts) m = m"
| "pregStartOfflineChecker timeout (Some now # ts) m = pregStartOfflineChecker timeout ts (pregCheckOffline now timeout m)"

lemma recordsInv_new [simp]: "recordsInv pregNew"
  by (simp add: recordsInv_def pregNew_def)

lemma recordsInv_wf: "recordsInv m \<Longrightarrow> wfMap m"
  by (simp add: recordsInv_def)

lemma recordsInv_update:
  "recordsInv m \<Longrightarrow> hostname rec = h \<Longrightarrow> recordsInv (AList.update h rec m)"
  by (intro recordsInvI) (auto simp: recordsInv_wf recordsInv_lookup split: if_splits)

interpretation pr: agent_registry recordsInv pregLookup pregRegister pregUnregister
  pregUnregisterByStream pregUpdateHeartbeat pregCheckOffline
proof (unfold_locales, goal_cases)
  case (1 r h rec)
  then show ?case by (simp add: pregLookup_def recordsInv_lookup)
next
  case (2 r rec)
  show ?case by (simp add: pregLookup_def pregRegister_def fun_eq_iff)
next
  case (3 r h)
  show ?case by (simp add: pregLookup_def pregUnregister_def fun_eq_iff)
next
  case (4 r s h)
  then have "map_of (filter (\<lambda>(h, rec). routeStream rec \<noteq> s) r) h =
      (case map_of r h of None \<Rightarrow> None | Some rec \<Rightarrow> if routeStream rec \<noteq> s then Some rec else None)"
    using map_of_filter_some [of r "\<lambda>_ rec. routeStream rec \<noteq> s" h] recordsInv_wf by blast
  then show ?case by (auto simp: pregLookup_def pregUnregisterByStream_def split: option.splits)
next
  case (5 r s)
  then show ?case
    by (auto simp: pregLookup_def pregUnregisterByStream_def recordsInv_wf image_iff)
next
  case (6 r now h h')
  show ?case by (auto simp: pregLookup_def pregUpdateHeartbeat_def split: option.splits)
next
  case (7 r now timeout h)
  show ?case by (simp add: pregLookup_def pregCheckOffline_def map_of_map_values)
next
  case (8 r rec)
  then show ?case by (simp add: pregRegister_def recordsInv_update)
next
  case (9 r h)
  then show ?case
    by (intro recordsInvI) (auto simp: pregUnregister_def recordsInv_wf recordsInv_lookup split: if_splits)
next
  case (10 r s)
  then show ?case by (auto simp: recordsInv_def pregUnregisterByStream_def)
next
  case (11 r now h)
  then show ?case
    using recordsInv_lookup [of r h]
    by (auto simp: pregUpdateHeartbeat_def recordsInv_update split: option.splits)
next
  case (12 r now timeout)
  then show ?case
    by (intro recordsInvI)
      (auto simp: pregCheckOffline_def recordsInv_wf map_of_map_values recordsInv_lookup split: if_splits)
qed

end
