(* ===== verification/CenterTunnel.thy ===== *)
theory CenterTunnel
  imports TokenAuth Registry Router Store
begin

text \<open>
  \<open>sysplane-center/tunnel_svc.go\<close>: the handler \<open>Connect\<close> of the streams from agents and
  proxies, over the registry, the router and the optional store.  One \<open>Connect\<close> runs per
  stream, all of them at once, beside the offline checker; the atomic pieces of the handlers
  are the events of \<open>centerStep\<close>.  The updates of the store that the code puts into goroutines
  are jobs, run later and in any order by \<open>EvJob\<close>.
\<close>

definition registrationDomain :: "nodeType \<Rightarrow> domain" where
  "registrationDomain nt = (if nt = NODE_TYPE_PROXY then DomainProxy else DomainAgent)"

datatype grpcStatus = GrpcStatus string string

datatype connPhase = Acking | Reading

record conn =
  cnHost :: string
  cnPhase :: connPhase

datatype persistJob = JobTouch string | JobOffline string

record centerSys =
  csReg :: registry
  csRouter :: routerSys
  csDb :: "database option"
  csJobs :: "persistJob list"
  csConns :: "streamId \<Rightarrow> conn option"
  csNext :: streamId
  csOut :: "(streamId \<times> tunnelMessage) list"

definition centerInit :: "database option \<Rightarrow> centerSys" where
  "centerInit db = \<lparr>csReg = regNew, csRouter = routerInit, csDb = db, csJobs = [],
     csConns = (\<lambda>_. None), csNext = 0, csOut = []\<rparr>"

definition registeredRecord :: "int \<Rightarrow> registerRequest \<Rightarrow> streamId \<Rightarrow> agentRecord" where
  "registeredRecord now q st =
     \<lparr>hostname = rrHostname q, ip = rrIp q, os = rrOs q, agentVersion = rrAgentVersion q,
      nodeTypeOf = registrationDomain (rrNodeType q), proxyPath = rrProxyPath q,
      registeredAt = now, lastHeartbeat = now, status = StatusOnline, routeStream = st\<rparr>"

definition registeredRow :: "string \<Rightarrow> agentRecord \<Rightarrow> agentRow" where
  "registeredRow inst rec =
     \<lparr>arHostname = hostname rec, arIp = ip rec, arOs = os rec, arAgentVersion = agentVersion rec,
      arNodeType = nodeTypeOf rec, arProxyPath = proxyPath rec, arCenterId = inst,
      arStatus = ''online'', arRegisteredAt = registeredAt rec, arLastHeartbeat = lastHeartbeat rec\<rparr>"

text \<open>\<open>s.persister.UpsertAgent\<close> when there is a persister.\<close>

fun persistRecord ::
  "string \<Rightarrow> agentRecord \<Rightarrow> sqlOutcome \<Rightarrow> database option \<Rightarrow> database option \<times> goerr option" where
  "persistRecord inst rec oc None = (None, None)"
| "persistRecord inst rec oc (Some db) =
     (let (db', err) = upsertAgent (registeredRow inst rec) oc db in (Some db', err))"

definition sendOut :: "streamId \<Rightarrow> tunnelMessage \<Rightarrow> centerSys \<Rightarrow> centerSys" where
  "sendOut st m s = s\<lparr>csOut := csOut s @ [(st, m)]\<rparr>"

text \<open>
  \<open>Connect\<close> up to the acknowledgement; \<open>first\<close> is what the first \<open>Recv\<close> returned and the new
  stream gets the number \<open>csNext\<close>.
\<close>

definition centerAdmit ::
  "(string \<Rightarrow> string) \<Rightarrow> catalog \<Rightarrow> string \<Rightarrow> int \<Rightarrow> sqlOutcome \<Rightarrow> goerr + tunnelMessage \<Rightarrow>
   centerSys \<Rightarrow> centerSys \<times> grpcStatus option" where
  "centerAdmit sha tokens inst now oc first s0 =
     (let st = csNext s0; s = s0\<lparr>csNext := Suc st\<rparr> in
      case first of
        Inl e \<Rightarrow> (s, Some (GrpcStatus ''Internal'' (''recv first message: '' @ errMsg e)))
      | Inr m \<Rightarrow>
          (case getRegisterRequest m of
             None \<Rightarrow>
               (s, Some (GrpcStatus ''InvalidArgument'' ''first message must be RegisterRequest''))
           | Some q \<Rightarrow>
               (case authenticateRegistration sha tokens (registrationDomain (rrNodeType q)) (rrToken q) of
                  Inl e \<Rightarrow>
                    (sendOut st (RegisterAck False ''invalid token'') s,
                     Some (GrpcStatus ''Unauthenticated'' ''invalid token''))
                | Inr ident \<Rightarrow>
                    (let rec = registeredRecord now q st;
                         (db, err) = persistRecord inst rec oc (csDb s) in
                     case err of
                       Some e \<Rightarrow>
                         (sendOut st (RegisterAck False ''persist registration failed'') (s\<lparr>csDb := db\<rparr>),
                          Some (GrpcStatus ''Unavailable'' (''persist registration: '' @ errMsg e)))
                     | None \<Rightarrow>
                         (s\<lparr>csDb := db, csReg := regRegister rec (csReg s),
                            csConns := (csConns s)(st \<mapsto> \<lparr>cnHost = rrHostname q, cnPhase = Acking\<rparr>)\<rparr>,
                          None)))))"

text \<open>The acknowledgement: when sending it fails, the handler returns before its \<open>defer\<close>.\<close>

definition centerAck :: "streamId \<Rightarrow> conn \<Rightarrow> goerr option \<Rightarrow> centerSys \<Rightarrow> centerSys" where
  "centerAck st c err s =
     (case err of
        Some e \<Rightarrow> s\<lparr>csReg := fst (regUnregisterByStream st (csReg s)), csConns := (csConns s)(st := None)\<rparr>
      | None \<Rightarrow> sendOut st (RegisterAck True [])
                 (s\<lparr>csConns := (csConns s)(st \<mapsto> c\<lparr>cnPhase := Reading\<rparr>)\<rparr>))"

text \<open>A goroutine that updates the store, started only when there is a persister.\<close>

definition spawn :: "persistJob list \<Rightarrow> centerSys \<Rightarrow> centerSys" where
  "spawn js s = (if csDb s = None then s else s\<lparr>csJobs := csJobs s @ js\<rparr>)"

text \<open>The deferred tear-down.\<close>

definition centerHangup :: "streamId \<Rightarrow> centerSys \<Rightarrow> centerSys" where
  "centerHangup st s =
     (let (reg, removed) = regUnregisterByStream st (csReg s)
      in spawn (List.map JobOffline removed) (s\<lparr>csReg := reg, csConns := (csConns s)(st := None)\<rparr>))"

text \<open>A registration that a proxy forwards for one of its nodes.\<close>

definition centerForwarded ::
  "string \<Rightarrow> int \<Rightarrow> sqlOutcome \<Rightarrow> streamId \<Rightarrow> registerRequest \<Rightarrow> centerSys \<Rightarrow> centerSys" where
  "centerForwarded inst now oc st q s =
     (if regLookup (csReg s) (rrHostname q) \<noteq> None
      then spawn [JobTouch (rrHostname q)]
             (s\<lparr>csReg := regUpdateHeartbeat now (rrHostname q) (csReg s)\<rparr>)
      else
        (let rec = registeredRecord now q st;
             reg = regRegister rec (csReg s);
             (db, err) = persistRecord inst rec oc (csDb s)
         in s\<lparr>csDb := db, csReg := (if err = None then reg else regUnregister (rrHostname q) reg)\<rparr>))"

text \<open>One message of the read loop.\<close>

fun centerMessage ::
  "string \<Rightarrow> int \<Rightarrow> sqlOutcome \<Rightarrow> streamId \<Rightarrow> conn \<Rightarrow> tunnelMessage \<Rightarrow> centerSys \<Rightarrow> centerSys" where
  "centerMessage inst now oc st c (Heartbeat ts) s =
     spawn [JobTouch (cnHost c)]
       (sendOut st (HeartbeatAck ts) (s\<lparr>csReg := regUpdateHeartbeat now (cnHost c) (csReg s)\<rparr>))"
| "centerMessage inst now oc st c (ToolResponse i r) s =
     s\<lparr>csRouter := deliverFromMessage (ToolResponse i r) (csRouter s)\<rparr>"
| "centerMessage inst now oc st c (ErrorResponse e) s =
     s\<lparr>csRouter := deliverFromMessage (ErrorResponse e) (csRouter s)\<rparr>"
| "centerMessage inst now oc st c (RegisterRequest q) s = centerForwarded inst now oc st q s"
| "centerMessage inst now oc st c _ s = s"

text \<open>The offline checker of \<open>run.go\<close>: 90 seconds, with the callback when there is a store.\<close>

definition offlineTimeout :: int where
  "offlineTimeout = 90 * 1000000000"

definition centerSweep :: "int \<Rightarrow> centerSys \<Rightarrow> centerSys" where
  "centerSweep now s =
     (let cbs = (if csDb s = None then [] else [Some JobOffline]);
          (reg, fired) = regCheckOffline now offlineTimeout cbs (csReg s)
      in spawn (List.map (\<lambda>(h, fn). fn h) fired) (s\<lparr>csReg := reg\<rparr>))"

fun runJob :: "int \<Rightarrow> sqlOutcome \<Rightarrow> persistJob \<Rightarrow> database \<Rightarrow> database" where
  "runJob now oc (JobTouch h) db = fst (updateAgentHeartbeat now h oc db)"
| "runJob now oc (JobOffline h) db = fst (setAgentOffline h oc db)"

datatype centerEvent =
    EvAdmit int sqlOutcome "goerr + tunnelMessage"
  | EvAck streamId "goerr option"
  | EvMsg streamId int sqlOutcome tunnelMessage
  | EvHangup streamId
  | EvSweep int
  | EvJob nat int sqlOutcome
  | EvRouter routerEvent

fun centerStep ::
  "(string \<Rightarrow> string) \<Rightarrow> catalog \<Rightarrow> string \<Rightarrow> centerSys \<Rightarrow> centerEvent \<Rightarrow> centerSys option" where
  "centerStep sha tokens inst s (EvAdmit now oc first) =
     Some (fst (centerAdmit sha tokens inst now oc first s))"
| "centerStep sha tokens inst s (EvAck st err) =
     (case csConns s st of
        None \<Rightarrow> None
      | Some c \<Rightarrow> if cnPhase c = Acking then Some (centerAck st c err s) else None)"
| "centerStep sha tokens inst s (EvMsg st now oc m) =
     (case csConns s st of
        None \<Rightarrow> None
      | Some c \<Rightarrow> if cnPhase c = Reading then Some (centerMessage inst now oc st c m s) else None)"
| "centerStep sha tokens inst s (EvHangup st) =
     (case csConns s st of
        None \<Rightarrow> None
      | Some c \<Rightarrow> if cnPhase c = Reading then Some (centerHangup st s) else None)"
| "centerStep sha tokens inst s (EvSweep now) = Some (centerSweep now s)"
| "centerStep sha tokens inst s (EvJob i now oc) =
     (case csDb s of
        None \<Rightarrow> None
      | Some db \<Rightarrow>
          if i < length (csJobs s)
          then Some (s\<lparr>csDb := Some (runJob now oc (csJobs s ! i) db),
                       csJobs := take i (csJobs s) @ drop (Suc i) (csJobs s)\<rparr>)
          else None)"
| "centerStep sha tokens inst s (EvRouter e) =
     map_option (\<lambda>r. s\<lparr>csRouter := r\<rparr>) (routerStep (csRouter s) e)"

fun runCenter ::
  "(string \<Rightarrow> string) \<Rightarrow> catalog \<Rightarrow> string \<Rightarrow> centerSys \<Rightarrow> centerEvent list \<Rightarrow> centerSys option" where
  "runCenter sha tokens inst s [] = Some s"
| "runCenter sha tokens inst s (e # es) =
     (case centerStep sha tokens inst s e of
        None \<Rightarrow> None
      | Some s' \<Rightarrow> runCenter sha tokens inst s' es)"

section \<open>Every route leads to an open stream\<close>

definition centerInv :: "centerSys \<Rightarrow> bool" where
  "centerInv s \<longleftrightarrow> regInv (csReg s) \<and>
     (\<forall>h rec. regLookup (csReg s) h = Some rec \<longrightarrow> csConns s (routeStream rec) \<noteq> None)"

lemma centerInvI:
  assumes "regInv (csReg s)"
    and "\<And>h rec. regLookup (csReg s) h = Some rec \<Longrightarrow> csConns s (routeStream rec) \<noteq> None"
  shows "centerInv s"
  using assms by (simp add: centerInv_def)

lemma centerInv_reg: "centerInv s \<Longrightarrow> regInv (csReg s)"
  by (simp add: centerInv_def)

lemma centerInv_route:
  "centerInv s \<Longrightarrow> regLookup (csReg s) h = Some rec \<Longrightarrow> csConns s (routeStream rec) \<noteq> None"
  by (simp add: centerInv_def)

lemma centerInv_init: "centerInv (centerInit db)"
  by (simp add: centerInv_def centerInit_def) (simp add: regLookup_def regNew_def)

lemma spawn_fields [simp]:
  "csReg (spawn js s) = csReg s" "csConns (spawn js s) = csConns s"
  "csRouter (spawn js s) = csRouter s" "csDb (spawn js s) = csDb s" "csOut (spawn js s) = csOut s"
  by (simp_all add: spawn_def)

lemma sendOut_fields [simp]:
  "csReg (sendOut st m s) = csReg s" "csConns (sendOut st m s) = csConns s"
  "csRouter (sendOut st m s) = csRouter s" "csDb (sendOut st m s) = csDb s"
  "csJobs (sendOut st m s) = csJobs s"
  by (simp_all add: sendOut_def)

lemma registeredRecord_fields [simp]:
  "hostname (registeredRecord now q st) = rrHostname q"
  "routeStream (registeredRecord now q st) = st"
  "status (registeredRecord now q st) = StatusOnline"
  by (simp_all add: registeredRecord_def)

text \<open>A heartbeat, a sweep, a removal and a registration over an open stream keep the routes.\<close>

lemma centerInv_heartbeat:
  "centerInv s \<Longrightarrow> centerInv (s\<lparr>csReg := regUpdateHeartbeat now h (csReg s)\<rparr>)"
  by (rule centerInvI)
    (auto simp: cr.lookup_heartbeat cr.invars centerInv_reg dest: centerInv_route split: if_splits)

lemma centerInv_register:
  assumes "centerInv s" and "csConns s (routeStream rec) \<noteq> None"
  shows "centerInv (s\<lparr>csReg := regRegister rec (csReg s)\<rparr>)"
  using assms
  by (intro centerInvI)
    (auto simp: cr.lookup_register cr.invars centerInv_reg dest: centerInv_route split: if_splits)

lemma centerInv_unregister:
  "centerInv s \<Longrightarrow> centerInv (s\<lparr>csReg := regUnregister h (csReg s)\<rparr>)"
  by (rule centerInvI)
    (auto simp: cr.lookup_unregister cr.invars centerInv_reg dest: centerInv_route split: if_splits)

lemma centerInv_drop:
  assumes "centerInv s"
  shows "centerInv (s\<lparr>csReg := fst (regUnregisterByStream st (csReg s)),
           csConns := (csConns s)(st := None)\<rparr>)"
  using assms
  by (intro centerInvI)
    (auto simp: cr.dropStream_exact cr.invars centerInv_reg dest: centerInv_route)

lemma centerInv_sweep:
  assumes "centerInv s" shows "centerInv (s\<lparr>csReg := fst (regCheckOffline now timeout cbs (csReg s))\<rparr>)"
  using assms
  by (intro centerInvI)
    (auto simp: lookup_checkOffline regInv_checkOffline centerInv_reg markOffline_def
        dest: centerInv_route split: if_splits)

lemma centerInv_open:
  assumes "centerInv s" shows "centerInv (s\<lparr>csConns := (csConns s)(st \<mapsto> c)\<rparr>)"
  using assms by (simp add: centerInv_def)

text \<open>The other fields do not matter.\<close>

lemma centerInv_cong:
  "csReg s' = csReg s \<Longrightarrow> csConns s' = csConns s \<Longrightarrow> centerInv s' = centerInv s"
  by (simp add: centerInv_def)

lemma centerInv_spawn [simp]: "centerInv (spawn js s) = centerInv s"
  and centerInv_sendOut [simp]: "centerInv (sendOut st m s) = centerInv s"
  and centerInv_db [simp]: "centerInv (s\<lparr>csDb := db\<rparr>) = centerInv s"
  and centerInv_next [simp]: "centerInv (s\<lparr>csNext := n\<rparr>) = centerInv s"
  and centerInv_router [simp]: "centerInv (s\<lparr>csRouter := r\<rparr>) = centerInv s"
  and centerInv_jobs [simp]: "centerInv (s\<lparr>csJobs := j\<rparr>) = centerInv s"
  by (rule centerInv_cong; simp)+

text \<open>What admission does, in one equation for the case that it succeeds.\<close>

definition admitted ::
  "(string \<Rightarrow> string) \<Rightarrow> catalog \<Rightarrow> goerr + tunnelMessage \<Rightarrow> registerRequest \<Rightarrow> bool" where
  "admitted sha tokens first q \<longleftrightarrow> first = Inr (RegisterRequest q) \<and>
     (\<exists>ident. authenticateRegistration sha tokens (registrationDomain (rrNodeType q)) (rrToken q) = Inr ident)"

lemma centerAdmit_admitted:
  assumes "admitted sha tokens first q"
  shows "centerAdmit sha tokens inst now oc first s =
    (let st = csNext s; s1 = s\<lparr>csNext := Suc st\<rparr>; rec = registeredRecord now q st;
         (db, err) = persistRecord inst rec oc (csDb s) in
       case err of
         Some e \<Rightarrow> (sendOut st (RegisterAck False ''persist registration failed'') (s1\<lparr>csDb := db\<rparr>),
           Some (GrpcStatus ''Unavailable'' (''persist registration: '' @ errMsg e)))
       | None \<Rightarrow> (s1\<lparr>csDb := db, csReg := regRegister rec (csReg s),
           csConns := (csConns s)(st \<mapsto> \<lparr>cnHost = rrHostname q, cnPhase = Acking\<rparr>)\<rparr>, None))"
  using assms unfolding admitted_def by (auto simp: centerAdmit_def Let_def split: prod.split)

lemma centerAdmit_refused:
  assumes "\<nexists>q. admitted sha tokens first q"
  shows "snd (centerAdmit sha tokens inst now oc first s) \<noteq> None \<and>
    csReg (fst (centerAdmit sha tokens inst now oc first s)) = csReg s \<and>
    csDb (fst (centerAdmit sha tokens inst now oc first s)) = csDb s \<and>
    csConns (fst (centerAdmit sha tokens inst now oc first s)) = csConns s"
proof (cases first)
  case (Inr m)
  show ?thesis
  proof (cases "getRegisterRequest m")
    case None
    with Inr show ?thesis by (simp add: centerAdmit_def Let_def)
  next
    case (Some q)
    then have "m = RegisterRequest q" by (cases m) auto
    with assms Inr obtain e where
      "authenticateRegistration sha tokens (registrationDomain (rrNodeType q)) (rrToken q) = Inl e"
      unfolding admitted_def by (metis sum.exhaust)
    with Inr Some show ?thesis by (simp add: centerAdmit_def Let_def)
  qed
qed (simp add: centerAdmit_def Let_def)

lemma centerInv_admit:
  assumes inv: "centerInv s"
  shows "centerInv (fst (centerAdmit sha tokens inst now oc first s))"
proof (cases "\<exists>q. admitted sha tokens first q")
  case False
  then show ?thesis
    using inv centerAdmit_refused [of sha tokens first inst now oc s]
      centerInv_cong [of "fst (centerAdmit sha tokens inst now oc first s)" s] by simp
next
  case True
  then obtain q where q: "admitted sha tokens first q" by blast
  let ?rec = "registeredRecord now q (csNext s)"
  let ?c = "\<lparr>cnHost = rrHostname q, cnPhase = Acking\<rparr>"
  obtain db err where p: "persistRecord inst ?rec oc (csDb s) = (db, err)" by fastforce
  have "centerInv (s\<lparr>csConns := (csConns s)(csNext s \<mapsto> ?c)\<rparr>
      \<lparr>csReg := regRegister ?rec (csReg (s\<lparr>csConns := (csConns s)(csNext s \<mapsto> ?c)\<rparr>))\<rparr>)"
    using inv by (intro centerInv_register centerInv_open) simp_all
  then have "centerInv (s\<lparr>csReg := regRegister ?rec (csReg s),
      csConns := (csConns s)(csNext s \<mapsto> ?c)\<rparr>)" by (simp add: centerInv_def)
  with inv p show ?thesis
    by (cases err) (simp_all add: centerAdmit_admitted [OF q] Let_def centerInv_def)
qed

lemma centerInv_ack: "centerInv s \<Longrightarrow> centerInv (centerAck st c err s)"
  by (auto simp: centerAck_def centerInv_drop centerInv_open split: option.splits)

lemma centerInv_hangup: "centerInv s \<Longrightarrow> centerInv (centerHangup st s)"
  using centerInv_drop [of s st] by (simp add: centerHangup_def case_prod_beta)

lemma centerInv_forwarded:
  assumes inv: "centerInv s" and conn: "csConns s st \<noteq> None"
  shows "centerInv (centerForwarded inst now oc st q s)"
proof (cases "regLookup (csReg s) (rrHostname q)")
  case (Some rec)
  with inv show ?thesis by (simp add: centerForwarded_def centerInv_heartbeat)
next
  case None
  let ?rec = "registeredRecord now q st"
  obtain db err where p: "persistRecord inst ?rec oc (csDb s) = (db, err)" by fastforce
  have r: "centerInv (s\<lparr>csReg := regRegister ?rec (csReg s)\<rparr>)"
    using inv conn by (intro centerInv_register) simp_all
  from centerInv_unregister [OF r, of "rrHostname q"] r None p show ?thesis
    by (auto simp: centerForwarded_def Let_def centerInv_def)
qed

lemma centerInv_message:
  assumes "centerInv s" and "csConns s st \<noteq> None"
  shows "centerInv (centerMessage inst now oc st c m s)"
  using assms by (cases m) (simp_all add: centerInv_heartbeat centerInv_forwarded)

lemma centerInv_step:
  assumes inv: "centerInv s" and st: "centerStep sha tokens inst s e = Some s'"
  shows "centerInv s'"
proof (cases e)
  case (EvSweep now)
  with st inv show ?thesis
    by (auto simp: centerSweep_def Let_def case_prod_beta centerInv_sweep)
qed (use inv st in \<open>auto simp: centerInv_admit centerInv_ack centerInv_message centerInv_hangup
    split: option.splits if_splits\<close>)

lemma centerInv_run:
  "runCenter sha tokens inst s es = Some s' \<Longrightarrow> centerInv s \<Longrightarrow> centerInv s'"
  by (induction es arbitrary: s) (auto split: option.splits dest: centerInv_step)

section \<open>Properties\<close>

text \<open>A catalog with one agent token, for the examples.\<close>

definition exCatalog :: catalog where
  "exCatalog = \<lparr>httpTokens = [], registrationTokens =
     [(DomainAgent, [(tokenFingerprint (\<lambda>s. s) ''g1'', identityFor (\<lambda>s. s) DomainAgent 0 ''g1'')])]\<rparr>"

definition exRegister :: "string \<Rightarrow> registerRequest" where
  "exRegister h = \<lparr>rrHostname = h, rrIp = ''10.0.0.1'', rrOs = ''linux/amd64'', rrAgentVersion = ''1'',
     rrNodeType = NODE_TYPE_AGENT, rrProxyPath = [], rrToken = ''g1''\<rparr>"

lemma exRegister_host [simp]: "rrHostname (exRegister h) = h"
  by (simp add: exRegister_def)

lemma exRegister_admitted:
  "admitted (\<lambda>s. s) exCatalog (Inr (RegisterRequest (exRegister h))) (exRegister h)"
proof -
  have "authenticateRegistration (\<lambda>s. s) exCatalog DomainAgent ''g1'' =
      Inr (identityFor (\<lambda>s. s) DomainAgent 0 ''g1'')" by code_simp
  then show ?thesis by (simp add: admitted_def exRegister_def registrationDomain_def)
qed



lemma persistRecord_row:
  assumes "persistRecord inst rec oc db = (Some d', None)"
  shows "agentInstances d' (hostname rec) = Some (registeredRow inst rec)"
proof -
  obtain d where d: "db = Some d" using assms by (cases db) auto
  with assms have "upsertAgent (registeredRow inst rec) oc d = (d', None)"
    by (auto simp: case_prod_beta prod_eq_iff)
  then show ?thesis
    using pg.upsert_ok [of "registeredRow inst rec" oc d] by (simp add: registeredRow_def)
qed

text \<open>
  Property C22: a stream is admitted exactly when its first message is a registration whose token
  belongs to the domain of its node type and the store, when there is one, took the row.  An
  admitted node is the only change of the registry; it is recorded as online, over the new
  stream, and the store's row says so too.  A refused stream changes neither the registry nor
  the connections.
\<close>

theorem center_admission:
  assumes inv: "regInv (csReg s)" and run: "centerAdmit sha tokens inst now oc first s = (s', res)"
  shows "(res = None \<longleftrightarrow> (\<exists>q. admitted sha tokens first q \<and>
            snd (persistRecord inst (registeredRecord now q (csNext s)) oc (csDb s)) = None)) \<and>
    (case res of
       Some _ \<Rightarrow> csReg s' = csReg s \<and> csConns s' = csConns s
     | None \<Rightarrow> \<exists>q. first = Inr (RegisterRequest q) \<and>
         regLookup (csReg s') =
           (regLookup (csReg s))(rrHostname q \<mapsto> registeredRecord now q (csNext s)) \<and>
         (\<forall>d'. csDb s' = Some d' \<longrightarrow> agentInstances d' (rrHostname q) =
            Some (registeredRow inst (registeredRecord now q (csNext s)))))"
proof (cases "\<exists>q. admitted sha tokens first q")
  case False
  with run centerAdmit_refused [OF False, of inst now oc s] show ?thesis by auto
next
  case True
  then obtain q where q: "admitted sha tokens first q" by blast
  then have only: "q' = q" if "admitted sha tokens first q'" for q'
    using that by (simp add: admitted_def)
  have first: "first = Inr (RegisterRequest q)" using q by (simp add: admitted_def)
  let ?rec = "registeredRecord now q (csNext s)"
  obtain db err where p: "persistRecord inst ?rec oc (csDb s) = (db, err)" by fastforce
  have iff: "(\<exists>q. admitted sha tokens first q \<and>
      snd (persistRecord inst (registeredRecord now q (csNext s)) oc (csDb s)) = None) \<longleftrightarrow> err = None"
    using q only p by (metis snd_conv)
  show ?thesis
  proof (cases err)
    case (Some e)
    with run p have "res \<noteq> None \<and> csReg s' = csReg s \<and> csConns s' = csConns s"
      by (auto simp: centerAdmit_admitted [OF q] Let_def)
    with iff Some show ?thesis by auto
  next
    case None
    with run p have s': "res = None" "csReg s' = regRegister ?rec (csReg s)" "csDb s' = db"
      by (auto simp: centerAdmit_admitted [OF q] Let_def)
    have "agentInstances d' (rrHostname q) = Some (registeredRow inst ?rec)" if "db = Some d'" for d'
      using persistRecord_row [of inst ?rec oc "csDb s" d'] p None that by simp
    with s' iff None first inv show ?thesis by (simp add: cr.lookup_register)
  qed
qed

theorem center_admission_witness:
  "regInv (csReg (centerInit (Some emptyDb))) \<and>
   snd (centerAdmit (\<lambda>s. s) exCatalog ''c1'' 5 SqlDone (Inr (RegisterRequest (exRegister ''a'')))
     (centerInit (Some emptyDb))) = None \<and>
   snd (centerAdmit (\<lambda>s. s) exCatalog ''c1'' 5 (SqlLost ErrRouterTimeout)
     (Inr (RegisterRequest (exRegister ''a''))) (centerInit (Some emptyDb))) \<noteq> None"
proof -
  let ?s = "centerInit (Some emptyDb)"
  have i: "regInv (csReg ?s)" by (simp add: centerInit_def)
  have p: "snd (persistRecord ''c1'' (registeredRecord 5 (exRegister ''a'') n) SqlDone (csDb ?s)) = None"
    "snd (persistRecord ''c1'' (registeredRecord 5 (exRegister ''a'') n) (SqlLost ErrRouterTimeout)
       (csDb ?s)) \<noteq> None" for n
    by (simp_all add: centerInit_def upsertAgent_def registeredRow_def emptyDb_def)
  have only: "q = exRegister ''a''"
    if "admitted (\<lambda>s. s) exCatalog (Inr (RegisterRequest (exRegister ''a''))) q" for q
    using that by (simp add: admitted_def)
  note adm = center_admission [OF i surjective_pairing, THEN conjunct1]
  show ?thesis
    using i p only exRegister_admitted unfolding adm by blast
qed

text \<open>
  A registration that a proxy forwards changes at most the named node's record.
  If the node is known, only its heartbeat and online status change: its route and proxy path
  stay, even when the registration came over another stream.  If it is not known, it is
  recorded over the proxy's stream, unless the store refused the row; then it stays unknown.
\<close>

theorem center_forwarded_registration:
  assumes "regInv (csReg s)"
  shows "regLookup (csReg (centerMessage inst now oc st c (RegisterRequest q) s)) h =
    (if h \<noteq> rrHostname q then regLookup (csReg s) h
     else case regLookup (csReg s) h of
       Some rec \<Rightarrow> Some (rec\<lparr>lastHeartbeat := now, status := StatusOnline\<rparr>)
     | None \<Rightarrow> if snd (persistRecord inst (registeredRecord now q st) oc (csDb s)) = None
               then Some (registeredRecord now q st) else None)"
  using assms
  by (auto simp: centerForwarded_def Let_def cr.lookups cr.invars case_prod_beta split: option.split)

theorem center_forwarded_registration_witness:
  "regInv (regRegister (exRecord ''a'' 1) regNew) \<and>
   regLookup (csReg (centerMessage ''c1'' 9 SqlDone 2 \<lparr>cnHost = ''p'', cnPhase = Reading\<rparr>
     (RegisterRequest (exRegister ''a''))
     ((centerInit None)\<lparr>csReg := regRegister (exRecord ''a'' 1) regNew\<rparr>))) ''a''
   = Some ((exRecord ''a'' 1)\<lparr>lastHeartbeat := 9, status := StatusOnline\<rparr>)"
proof -
  let ?s = "(centerInit None)\<lparr>csReg := regRegister (exRecord ''a'' 1) regNew\<rparr>"
  have i: "regInv (regRegister (exRecord ''a'' 1) regNew)" by (intro cr.invar_register regInv_new)
  then have i': "regInv (csReg ?s)" by simp
  have "regLookup (csReg ?s) ''a'' = Some (exRecord ''a'' 1)"
    by (simp add: cr.lookup_register exRecord_def)
  with i center_forwarded_registration [OF i', of "''c1''" 9 SqlDone 2
      "\<lparr>cnHost = ''p'', cnPhase = Reading\<rparr>" "exRegister ''a''" "''a''"]
  show ?thesis by simp
qed

lemma removed_distinct:
  assumes "regInv r" shows "distinct (snd (regUnregisterByStream st r))"
  using regInv_wf [OF assms] by (simp add: regUnregisterByStream_def distinct_map_filter)

lemma distinct_singleton_list: "set xs = {x} \<Longrightarrow> distinct xs \<Longrightarrow> xs = [x]"
  by (metis distinct_card list.size(3) length_Suc_conv card.insert card.empty finite.emptyI
      empty_iff list.set_intros(1) singletonD One_nat_def length_0_conv)

text \<open>
  Property C40: the store can disagree with the registry for good.  A heartbeat and the end of
  its stream start two background updates of the same row; when the heartbeat's update runs
  last, the row says \<open>online\<close> although the node is no longer registered and nothing is left to
  correct it.
\<close>

theorem late_heartbeat_resurrects_row:
  assumes inv: "regInv (csReg s)" and conn: "csConns s st = Some c" "cnPhase c = Reading"
    and reg: "regLookup (csReg s) (cnHost c) = Some rec" "routeStream rec = st"
    and own: "\<forall>h r. regLookup (csReg s) h = Some r \<longrightarrow> routeStream r = st \<longrightarrow> h = cnHost c"
    and db: "csDb s = Some db" "agentInstances db (cnHost c) = Some row" "csJobs s = []"
  shows "\<exists>s' db'. runCenter sha tokens inst s
        [EvMsg st now oc (Heartbeat ts), EvHangup st, EvJob 1 t1 SqlDone, EvJob 0 t2 SqlDone] = Some s' \<and>
      regLookup (csReg s') (cnHost c) = None \<and> csJobs s' = [] \<and> csDb s' = Some db' \<and>
      map_option arStatus (agentInstances db' (cnHost c)) = Some ''online''"
proof -
  let ?h = "cnHost c"
  let ?r = "regUpdateHeartbeat now ?h (csReg s)"
  have r: "regInv ?r" using inv by (rule cr.invar_heartbeat)
  have "(\<exists>rec. regLookup ?r h = Some rec \<and> routeStream rec = st) \<longleftrightarrow> h = ?h" for h
  proof (cases "h = ?h")
    case True
    with reg show ?thesis by (simp add: cr.lookup_heartbeat [OF inv])
  next
    case False
    then have "regLookup ?r h = regLookup (csReg s) h" by (simp add: cr.lookup_heartbeat [OF inv])
    with own False show ?thesis by metis
  qed
  then have "set (snd (regUnregisterByStream st ?r)) = {?h}"
    unfolding cr.dropped [OF r] by blast
  then have rem: "snd (regUnregisterByStream st ?r) = [?h]"
    using removed_distinct [OF r] by (rule distinct_singleton_list)
  have gone: "regLookup (fst (regUnregisterByStream st ?r)) ?h = None"
    using reg by (simp add: cr.lookup_dropStream [OF r] cr.lookup_heartbeat [OF inv])
  obtain reg' where drop: "regUnregisterByStream st ?r = (reg', [?h])"
    using rem by (metis surjective_pairing)
  define s1 where "s1 = centerMessage inst now oc st c (Heartbeat ts) s"
  define s2 where "s2 = centerHangup st s1"
  have s1: "csReg s1 = ?r" "csDb s1 = Some db" "csJobs s1 = [JobTouch ?h]" "csConns s1 st = Some c"
    using conn db by (simp_all add: s1_def spawn_def)
  have s2: "csReg s2 = reg'" "csDb s2 = Some db" "csJobs s2 = [JobTouch ?h, JobOffline ?h]"
    using s1 by (simp_all add: s2_def centerHangup_def spawn_def drop)
  have "centerStep sha tokens inst s (EvMsg st now oc (Heartbeat ts)) = Some s1"
    "centerStep sha tokens inst s1 (EvHangup st) = Some s2"
    using conn s1(4) by (simp_all add: s1_def s2_def)
  then show ?thesis
    using s2 gone db(2) by (simp add: drop agentSql)
qed

theorem late_heartbeat_resurrects_row_witness:
  "\<exists>s' db'. runCenter (\<lambda>s. s) exCatalog ''c1''
      ((centerInit (Some (emptyDb\<lparr>agentInstances := [''a'' \<mapsto> registeredRow ''c1'' (exRecord ''a'' 1)]\<rparr>)))
        \<lparr>csReg := regRegister (exRecord ''a'' 1) regNew,
         csConns := [1 \<mapsto> \<lparr>cnHost = ''a'', cnPhase = Reading\<rparr>]\<rparr>)
      [EvMsg 1 5 SqlDone (Heartbeat 4), EvHangup 1, EvJob 1 6 SqlDone, EvJob 0 7 SqlDone] = Some s' \<and>
    regLookup (csReg s') ''a'' = None \<and> csDb s' = Some db' \<and>
    map_option arStatus (agentInstances db' ''a'') = Some ''online''"
proof -
  let ?c = "\<lparr>cnHost = ''a'', cnPhase = Reading\<rparr>"
  let ?db = "emptyDb\<lparr>agentInstances := [''a'' \<mapsto> registeredRow ''c1'' (exRecord ''a'' 1)]\<rparr>"
  let ?s = "(centerInit (Some ?db))\<lparr>csReg := regRegister (exRecord ''a'' 1) regNew,
         csConns := [1 \<mapsto> ?c]\<rparr>"
  have inv: "regInv (csReg ?s)" using cr.invar_register [OF regInv_new] by simp
  have lk: "regLookup (csReg ?s) = [''a'' \<mapsto> exRecord ''a'' 1]"
    by (simp add: cr.lookup_register exRecord_def) (simp add: regLookup_def regNew_def fun_eq_iff)
  have h: "regLookup (csReg ?s) (cnHost ?c) = Some (exRecord ''a'' 1)" "routeStream (exRecord ''a'' 1) = 1"
    using lk by (simp_all add: exRecord_def)
  have own: "h = cnHost ?c" if "regLookup (csReg ?s) h = Some r" "routeStream r = 1" for h r
    using that unfolding lk by (simp split: if_splits)
  have d: "csConns ?s 1 = Some ?c" "cnPhase ?c = Reading" "csDb ?s = Some ?db"
    "agentInstances ?db (cnHost ?c) = Some (registeredRow ''c1'' (exRecord ''a'' 1))" "csJobs ?s = []"
    by (simp_all add: centerInit_def)
  from late_heartbeat_resurrects_row [OF inv d(1,2) h _ d(3-5)] own
  show ?thesis unfolding conn.select_convs by blast
qed

end
