(* ===== verification/Dialer.thy ===== *)
theory Dialer
  imports Tunnel "HOL-Library.Word"
begin

text \<open>
  Package \<open>internal/pkg/stream\<close>: unique request ids, and the client side of a tunnel that agents and
  proxies keep open to their upstream, with registration, callbacks and reconnection with
  exponential backoff.  Durations are nanoseconds in \<open>int\<close>, wrapped at 64 bits where the code
  multiplies; what the network does is the argument \<open>dialEnv\<close>.
\<close>

section \<open>Request ids\<close>

text \<open>\<open>nanos\<close> is \<open>time.Now().UnixNano()\<close> and \<open>counter\<close> the value that \<open>globalCounter.Add(1)\<close> returns.\<close>

definition newRequestID :: "string \<Rightarrow> int \<Rightarrow> 64 word \<Rightarrow> string" where
  "newRequestID pre nanos counter =
     pre @ ''-'' @ showInt nanos @ ''-'' @ showNat (unat counter)"

section \<open>One connection\<close>

record dialerConfig =
  dcEndpoint :: string
  dcRegisterMsg :: tunnelMessage
  dcHeartbeatInterval :: int
  dcReconnectMaxDelay :: int

definition millisecond :: int where "millisecond = 1000000"

definition second :: int where "second = 1000 * millisecond"

definition newDialer :: "dialerConfig \<Rightarrow> dialerConfig" where
  "newDialer cfg =
     (let c1 = (if dcHeartbeatInterval cfg \<le> 0 then cfg\<lparr>dcHeartbeatInterval := 30 * second\<rparr> else cfg)
      in if dcReconnectMaxDelay c1 \<le> 0 then c1\<lparr>dcReconnectMaxDelay := 5 * second\<rparr> else c1)"

text \<open>What the network does during one connection: the errors of the client, of opening the stream
  and of sending the registration, the first answer, the messages that follow and the error
  that ends them.\<close>

record dialEnv =
  deClient :: "goerr option"
  deOpen :: "goerr option"
  deSend :: "goerr option"
  deAck :: "goerr + tunnelMessage"
  deMsgs :: "tunnelMessage list"
  deEnd :: goerr

text \<open>The callbacks made, each with the fact whether \<open>d.stream\<close> is set at that time.\<close>

datatype dialCallback = OnRegisterAck bool string bool | OnMessage tunnelMessage bool

fun isHeartbeatAck :: "tunnelMessage \<Rightarrow> bool" where
  "isHeartbeatAck (HeartbeatAck _) = True"
| "isHeartbeatAck _ = False"

definition runOnce :: "dialerConfig \<Rightarrow> dialEnv \<Rightarrow> goerr option \<times> dialCallback list" where
  "runOnce cfg env =
     (case deClient env of
        Some e \<Rightarrow> (Some (ErrWrap (''stream: dial '' @ dcEndpoint cfg @ '': '') e), [])
      | None \<Rightarrow>
      (case deOpen env of
        Some e \<Rightarrow> (Some (ErrWrap ''stream: open stream: '' e), [])
      | None \<Rightarrow>
      (case deSend env of
        Some e \<Rightarrow> (Some (ErrWrap ''stream: send register: '' e), [])
      | None \<Rightarrow>
      (case deAck env of
        Inl e \<Rightarrow> (Some (ErrWrap ''stream: recv ack: '' e), [])
      | Inr m \<Rightarrow>
          (case getRegisterAck m of
             None \<Rightarrow> (Some (ErrText (''stream: expected RegisterAck, got '' @ payloadType m)), [])
           | Some (success, msg) \<Rightarrow>
               if \<not> success then (None, [OnRegisterAck success msg False])
               else (Some (ErrWrap ''stream: recv: '' (deEnd env)),
                     OnRegisterAck success msg False #
                     List.map (\<lambda>m. OnMessage m True) (filter (\<lambda>m. \<not> isHeartbeatAck m) (deMsgs env))))))))"

text \<open>\<open>Send\<close> with the stream set or not; \<open>sendErr\<close> is what the stream's \<open>Send\<close> returns.\<close>

definition dialerSend :: "bool \<Rightarrow> goerr option \<Rightarrow> goerr option" where
  "dialerSend active sendErr =
     (if \<not> active then Some (ErrText ''stream: no active connection'') else sendErr)"

section \<open>Reconnection\<close>

definition nextDelay :: "int \<Rightarrow> int \<Rightarrow> int" where
  "nextDelay maxDelay delay = min (wrap64 (delay * 2)) maxDelay"

text \<open>
  \<open>Run\<close> over a sequence of connections: for each its outcome and the jitter drawn after it.
  The result is the wait before the next attempt, \<open>None\<close> for an attempt that follows at once.
\<close>

fun runWaits :: "int \<Rightarrow> int \<Rightarrow> (goerr option \<times> int) list \<Rightarrow> int option list" where
  "runWaits maxDelay delay [] = []"
| "runWaits maxDelay delay ((None, jitter) # es) = None # runWaits maxDelay delay es"
| "runWaits maxDelay delay ((Some e, jitter) # es) =
     Some (delay + jitter) # runWaits maxDelay (nextDelay maxDelay delay) es"

definition initialDelay :: int where
  "initialDelay = 200 * millisecond"

text \<open>
  The loop of \<open>Run\<close> with its context: a round has what \<open>ctx.Err\<close> gives before and after the connection
  and during the wait that follows.  The first result is \<open>None\<close> while \<open>Run\<close> has not returned.
\<close>

record dialRound =
  drBefore :: "goerr option"
  drResult :: "goerr option"
  drAfter :: "goerr option"
  drJitter :: int
  drWaiting :: "goerr option"

fun dialerRun :: "int \<Rightarrow> int \<Rightarrow> dialRound list \<Rightarrow> goerr option \<times> int option list" where
  "dialerRun maxDelay delay [] = (None, [])"
| "dialerRun maxDelay delay (r # rs) =
     (case drBefore r of
        Some e \<Rightarrow> (Some e, [])
      | None \<Rightarrow>
      (case drAfter r of
        Some e \<Rightarrow> (Some e, [])
      | None \<Rightarrow>
      (case drResult r of
        None \<Rightarrow> map_prod id (Cons None) (dialerRun maxDelay delay rs)
      | Some _ \<Rightarrow>
      (case drWaiting r of
        Some e \<Rightarrow> (Some e, [Some (delay + drJitter r)])
      | None \<Rightarrow>
          map_prod id (Cons (Some (delay + drJitter r))) (dialerRun maxDelay (nextDelay maxDelay delay) rs)))))"

text \<open>\<open>heartbeat\<close>: the messages sent, for a list of ticks with their time in milliseconds; \<open>None\<close> is the
  end of the context.  An error of \<open>Send\<close> is ignored.\<close>

fun heartbeat :: "int option list \<Rightarrow> tunnelMessage list" where
  "heartbeat [] = []"
| "heartbeat (None # ts) = []"
| "heartbeat (Some ms # ts) = Heartbeat ms # heartbeat ts"

section \<open>Lemmas\<close>

text \<open>\<open>Run\<close> ends only with its context, and its waits are those of \<open>runWaits\<close>.\<close>

definition roundErrs :: "dialRound \<Rightarrow> goerr option set" where
  "roundErrs r = {drBefore r, drAfter r, drWaiting r}"

lemma dialerRun_end:
  "fst (dialerRun m d rs) = Some e \<Longrightarrow> \<exists>r \<in> set rs. Some e \<in> roundErrs r"
  by (induction m d rs rule: dialerRun.induct) (auto simp: roundErrs_def split: option.splits)

lemma dialerRun_waits:
  "\<forall>r \<in> set rs. roundErrs r = {None} \<Longrightarrow>
   dialerRun m d rs = (None, runWaits m d (List.map (\<lambda>r. (drResult r, drJitter r)) rs))"
  by (induction m d rs rule: dialerRun.induct) (auto simp: roundErrs_def split: option.splits)

lemma runOnce_callbacks:
  assumes "runOnce cfg env = (res, cbs)"
  shows "cbs = [] \<or> (\<exists>ok msg rest. cbs = OnRegisterAck ok msg False # rest \<and>
    (\<forall>cb \<in> set rest. \<exists>m. cb = OnMessage m True \<and> \<not> isHeartbeatAck m \<and> m \<in> set (deMsgs env)))"
  using assms
  by (auto simp: runOnce_def split: option.splits sum.splits if_splits) blast+

lemma runOnce_none:
  "fst (runOnce cfg env) = None \<longleftrightarrow> deClient env = None \<and> deOpen env = None \<and> deSend env = None \<and>
     (\<exists>msg. deAck env = Inr (RegisterAck False msg))"
proof -
  have "getRegisterAck m = Some (ok, msg) \<longleftrightarrow> m = RegisterAck ok msg" for m ok msg
    by (cases m) auto
  then show ?thesis
    by (auto simp: runOnce_def split: option.splits sum.splits if_splits)
qed

lemma nextDelay_range:
  assumes "0 < delay" and "delay \<le> maxDelay" and "maxDelay < 2 ^ 62"
  shows "delay \<le> nextDelay maxDelay delay \<and> nextDelay maxDelay delay \<le> maxDelay"
proof -
  have "wrap64 (delay * 2) = delay * 2" using assms by (intro wrap64_id) (simp add: isInt64_def)
  with assms show ?thesis by (simp add: nextDelay_def)
qed

lemma runWaits_bounds:
  assumes "0 < delay" and "delay \<le> maxDelay" and "maxDelay < 2 ^ 62"
    and "\<forall>(r, j) \<in> set es. 0 \<le> j \<and> j < 200 * millisecond"
  shows "Some w \<in> set (runWaits maxDelay delay es) \<Longrightarrow>
    delay \<le> w \<and> w < maxDelay + 200 * millisecond"
  using assms
proof (induction maxDelay delay es rule: runWaits.induct)
  case (3 maxDelay delay e jitter es)
  note r = nextDelay_range [OF 3(3,4,5)]
  show ?case
  proof (cases "w = delay + jitter")
    case True
    with 3 show ?thesis by auto
  next
    case False
    with 3(2) have "Some w \<in> set (runWaits maxDelay (nextDelay maxDelay delay) es)" by simp
    with 3(1) [OF this] 3(3-6) r show ?thesis by auto
  qed
qed auto

section \<open>Properties\<close>

lemma newRequestID_counter:
  "rev (takeWhile (\<lambda>c. c \<noteq> CHR ''-'') (rev (newRequestID p n c))) = showNat (unat c)"
proof -
  have "takeWhile (\<lambda>c. c \<noteq> CHR ''-'') (rev (showNat (unat c)) @ CHR ''-'' # x) = rev (showNat (unat c))" for x
    using showNat_no_minus [of "unat c"] by (subst takeWhile_append2) auto
  then show ?thesis by (simp add: newRequestID_def)
qed

text \<open>
  Request ids are unique.  Two ids of one process can only be equal when the global
  counter had the same value, whatever their prefixes and times: ids repeat only when the 64-bit
  counter wraps around.
\<close>

theorem newRequestID_unique:
  "(newRequestID p n c = newRequestID p' n' c') = (p @ ''-'' @ showInt n = p' @ ''-'' @ showInt n' \<and> c = c')"
proof
  assume eq: "newRequestID p n c = newRequestID p' n' c'"
  then have "showNat (unat c) = showNat (unat c')"
    by (metis newRequestID_counter)
  then have "unat c = unat c'" by (simp only: showNat_inj)
  then have c: "c = c'" by (rule unsigned_word_eqI)
  with eq have "(p @ ''-'' @ showInt n) @ ''-'' @ showNat (unat c) =
      (p' @ ''-'' @ showInt n') @ ''-'' @ showNat (unat c)" by (simp add: newRequestID_def)
  with c show "p @ ''-'' @ showInt n = p' @ ''-'' @ showInt n' \<and> c = c'" by simp
qed (simp add: newRequestID_def)

text \<open>
  The backoff is bounded.  Every wait after a failed connection lasts at least the initial
  200 milliseconds and less than the configured maximum plus 200 milliseconds of jitter, and
  there is such a wait after exactly the connections that ended in an error.
\<close>

theorem backoff_bounds:
  assumes "initialDelay \<le> maxDelay" and "maxDelay < 2 ^ 62"
    and "\<forall>(r, j) \<in> set es. 0 \<le> j \<and> j < 200 * millisecond"
  shows "(\<forall>w. Some w \<in> set (runWaits maxDelay initialDelay es) \<longrightarrow>
      initialDelay \<le> w \<and> w < maxDelay + 200 * millisecond) \<and>
    List.map (\<lambda>w. w = None) (runWaits maxDelay initialDelay es) = List.map (\<lambda>(r, j). r = None) es"
proof -
  have "List.map (\<lambda>w. w = None) (runWaits m d xs) = List.map (\<lambda>(r, j). r = None) xs" for m d xs
    by (induction m d xs rule: runWaits.induct) simp_all
  moreover have "0 < initialDelay" by (simp add: initialDelay_def millisecond_def)
  ultimately show ?thesis using runWaits_bounds [OF _ assms] by blast
qed

theorem backoff_bounds_witness:
  "runWaits (5 * second) initialDelay [(Some CtxCanceled, 5), (None, 1), (Some CtxCanceled, 7)]
     = [Some 200000005, None, Some 400000007] \<and>
   initialDelay \<le> 200000005 \<and> 400000007 < 5 * second + 200 * millisecond"
proof -
  have e: "runWaits (5 * second) initialDelay [(Some CtxCanceled, 5), (None, 1), (Some CtxCanceled, 7)]
     = [Some 200000005, None, Some 400000007]"
    by (simp add: initialDelay_def millisecond_def second_def nextDelay_def wrap64_def)
  have "initialDelay \<le> 5 * second" "5 * second < 2 ^ 62"
    "\<forall>(r, j) \<in> set [(Some CtxCanceled, 5), (None, 1), (Some CtxCanceled, 7)]. 0 \<le> j \<and> j < 200 * millisecond"
    by (simp_all add: initialDelay_def millisecond_def second_def)
  from backoff_bounds [OF this] e show ?thesis by simp
qed

text \<open>
  A connection ends without an error exactly when the upstream rejected the registration,
  and then the next attempt follows at once: however often the upstream rejects, there is never a
  wait.
\<close>

theorem rejection_retried_at_once:
  "(fst (runOnce cfg env) = None) = (deClient env = None \<and> deOpen env = None \<and> deSend env = None \<and>
      (\<exists>msg. deAck env = Inr (RegisterAck False msg))) \<and>
   runWaits maxDelay delay (replicate n (None, jitter)) = replicate n None"
proof -
  have "runWaits maxDelay delay (replicate n (None, jitter)) = replicate n None"
    by (induction n) simp_all
  then show ?thesis using runOnce_none by blast
qed

end
