(* ===== verification/ProxyTunnel.thy ===== *)
theory ProxyTunnel
  imports ProxyRegistry TokenAuth CenterTunnel Dialer
begin

text \<open>
  \<open>sysplane-proxy/tunnel/downstream.go\<close>: the service that agents connect to, which forwards their
  registrations, heartbeats and answers to the upstream, and requests and cancellations from the
  upstream to them.  The upstream is the dialer: \<open>upErr\<close> is the error of \<open>upstream.Send\<close>, with
  which the message is lost.  Streams, first messages and admission are those of center's
  tunnel service.
\<close>

definition nodeTypeStr :: "nodeType \<Rightarrow> string" where
  "nodeTypeStr nt = (if nt = NODE_TYPE_PROXY then ''proxy'' else ''agent'')"

definition nodeTypeProto :: "string \<Rightarrow> nodeType" where
  "nodeTypeProto s = (if s = ''proxy'' then NODE_TYPE_PROXY else NODE_TYPE_AGENT)"

record proxySys =
  psReg :: records
  psPending :: "string gomap"
  psUp :: "tunnelMessage list"
  psDown :: "(streamId \<times> tunnelMessage) list"
  psConns :: "streamId \<Rightarrow> conn option"
  psNext :: streamId

definition proxyInit :: proxySys where
  "proxyInit = \<lparr>psReg = pregNew, psPending = [], psUp = [], psDown = [], psConns = (\<lambda>_. None), psNext = 0\<rparr>"

definition sendUp :: "goerr option \<Rightarrow> tunnelMessage \<Rightarrow> proxySys \<Rightarrow> proxySys" where
  "sendUp upErr m s = (if upErr = None then s\<lparr>psUp := psUp s @ [m]\<rparr> else s)"

definition sendDown :: "streamId \<Rightarrow> tunnelMessage \<Rightarrow> proxySys \<Rightarrow> proxySys" where
  "sendDown st m s = s\<lparr>psDown := psDown s @ [(st, m)]\<rparr>"

text \<open>The registration forwarded for a record, with this proxy in front of its path and no token.\<close>

definition forwardedRegister :: "string \<Rightarrow> agentRecord \<Rightarrow> tunnelMessage" where
  "forwardedRegister proxyHostname rec =
     RegisterRequest \<lparr>rrHostname = hostname rec, rrIp = ip rec, rrOs = os rec,
       rrAgentVersion = agentVersion rec, rrNodeType = nodeTypeProto (nodeTypeOf rec),
       rrProxyPath = proxyHostname # proxyPath rec, rrToken = []\<rparr>"

definition downRecord :: "int \<Rightarrow> registerRequest \<Rightarrow> streamId \<Rightarrow> agentRecord" where
  "downRecord now q st =
     \<lparr>hostname = rrHostname q, ip = rrIp q, os = rrOs q, agentVersion = rrAgentVersion q,
      nodeTypeOf = nodeTypeStr (rrNodeType q), proxyPath = rrProxyPath q,
      registeredAt = now, lastHeartbeat = now, status = StatusOnline, routeStream = st\<rparr>"

section \<open>Connect\<close>

definition downAdmit ::
  "(string \<Rightarrow> string) \<Rightarrow> catalog \<Rightarrow> int \<Rightarrow> goerr + tunnelMessage \<Rightarrow> proxySys \<Rightarrow> proxySys \<times> grpcStatus option" where
  "downAdmit sha tokens now first s0 =
     (let st = psNext s0; s = s0\<lparr>psNext := Suc st\<rparr> in
      case first of
        Inl e \<Rightarrow> (s, Some (GrpcStatus ''Internal'' (''recv first message: '' @ errMsg e)))
      | Inr m \<Rightarrow>
          (case getRegisterRequest m of
             None \<Rightarrow> (s, Some (GrpcStatus ''InvalidArgument'' ''first message must be RegisterRequest''))
           | Some q \<Rightarrow>
               (case authenticateRegistration sha tokens (registrationDomain (rrNodeType q)) (rrToken q) of
                  Inl e \<Rightarrow> (sendDown st (RegisterAck False ''invalid token'') s,
                            Some (GrpcStatus ''Unauthenticated'' ''invalid token''))
                | Inr ident \<Rightarrow>
                    (s\<lparr>psReg := pregRegister (downRecord now q st) (psReg s),
                       psConns := (psConns s)(st \<mapsto> \<lparr>cnHost = rrHostname q, cnPhase = Acking\<rparr>)\<rparr>, None))))"

text \<open>The acknowledgement and the registration forwarded after it, with the node type as received.\<close>

definition downAck :: "string \<Rightarrow> streamId \<Rightarrow> conn \<Rightarrow> registerRequest \<Rightarrow> goerr option \<Rightarrow> goerr option \<Rightarrow> proxySys \<Rightarrow> proxySys" where
  "downAck proxyHostname st c q ackErr upErr s =
     (case ackErr of
        Some e \<Rightarrow> s\<lparr>psReg := fst (pregUnregisterByStream st (psReg s)), psConns := (psConns s)(st := None)\<rparr>
      | None \<Rightarrow> sendUp upErr
          (RegisterRequest (q\<lparr>rrProxyPath := proxyHostname # rrProxyPath q, rrToken := []\<rparr>))
          (sendDown st (RegisterAck True []) (s\<lparr>psConns := (psConns s)(st \<mapsto> c\<lparr>cnPhase := Reading\<rparr>)\<rparr>)))"

definition downHangup :: "streamId \<Rightarrow> proxySys \<Rightarrow> proxySys" where
  "downHangup st s =
     s\<lparr>psReg := fst (pregUnregisterByStream st (psReg s)), psConns := (psConns s)(st := None)\<rparr>"

fun downMessage ::
  "string \<Rightarrow> int \<Rightarrow> goerr option \<Rightarrow> streamId \<Rightarrow> conn \<Rightarrow> tunnelMessage \<Rightarrow> proxySys \<Rightarrow> proxySys" where
  "downMessage proxyHostname now upErr st c (Heartbeat ts) s =
     (let s1 = sendDown st (HeartbeatAck ts) (s\<lparr>psReg := pregUpdateHeartbeat now (cnHost c) (psReg s)\<rparr>)
      in (case pregLookup (psReg s1) (cnHost c) of
            None \<Rightarrow> s1
          | Some rec \<Rightarrow> sendUp upErr (forwardedRegister proxyHostname rec) s1))"
| "downMessage proxyHostname now upErr st c (ToolResponse i r) s =
     sendUp upErr (ToolResponse i r) (s\<lparr>psPending := AList.delete i (psPending s)\<rparr>)"
| "downMessage proxyHostname now upErr st c (ErrorResponse e) s =
     sendUp upErr (ErrorResponse e) (s\<lparr>psPending := AList.delete (erRequestId e) (psPending s)\<rparr>)"
| "downMessage proxyHostname now upErr st c _ s = s"

section \<open>Requests from the upstream\<close>

definition hostNotFound :: "toolRequest \<Rightarrow> tunnelMessage" where
  "hostNotFound q = ErrorResponse \<lparr>erRequestId = trRequestId q, erCode = ''HOST_NOT_FOUND'',
     erMessage = ''proxy: target host '' @ trTargetHost q @ '' not found''\<rparr>"

definition deliverToolRequest ::
  "goerr option \<Rightarrow> goerr option \<Rightarrow> tunnelMessage \<Rightarrow> proxySys \<Rightarrow> proxySys" where
  "deliverToolRequest upErr downErr msg s =
     (case getToolRequest msg of
        None \<Rightarrow> s
      | Some q \<Rightarrow>
          (case pregLookup (psReg s) (trTargetHost q) of
             None \<Rightarrow> sendUp upErr (hostNotFound q) s
           | Some rec \<Rightarrow>
               (let s1 = s\<lparr>psPending := AList.update (trRequestId q) (trTargetHost q) (psPending s)\<rparr>
                in if downErr = None then sendDown (routeStream rec) msg s1
                   else s1\<lparr>psPending := AList.delete (trRequestId q) (psPending s1)\<rparr>)))"

definition deliverCancelRequest :: "goerr option \<Rightarrow> tunnelMessage \<Rightarrow> proxySys \<Rightarrow> proxySys" where
  "deliverCancelRequest downErr msg s =
     (case getCancelRequest msg of
        None \<Rightarrow> s
      | Some i \<Rightarrow>
          (case map_of (psPending s) i of
             None \<Rightarrow> s
           | Some host \<Rightarrow>
               (let s1 = s\<lparr>psPending := AList.delete i (psPending s)\<rparr> in
                case pregLookup (psReg s1) host of
                  None \<Rightarrow> s1
                | Some rec \<Rightarrow> if downErr = None then sendDown (routeStream rec) msg s1 else s1)))"

text \<open>\<open>upErr\<close> gives the error of each send by the hostname; the loop stops at the first one.\<close>

fun reregister :: "string \<Rightarrow> (string \<Rightarrow> goerr option) \<Rightarrow> agentRecord list \<Rightarrow> proxySys \<Rightarrow> proxySys" where
  "reregister proxyHostname upErr [] s = s"
| "reregister proxyHostname upErr (rec # recs) s =
     (if status rec \<noteq> StatusOnline then reregister proxyHostname upErr recs s
      else if upErr (hostname rec) \<noteq> None then s
      else reregister proxyHostname upErr recs (sendUp None (forwardedRegister proxyHostname rec) s))"

definition reregisterAll :: "string \<Rightarrow> (string \<Rightarrow> goerr option) \<Rightarrow> proxySys \<Rightarrow> proxySys" where
  "reregisterAll proxyHostname upErr s =
     reregister proxyHostname upErr (pregAll (psReg s)) (s\<lparr>psPending := []\<rparr>)"

section \<open>The callbacks of the upstream connection\<close>

text \<open>
  \<open>run.go\<close>: a message of the upstream, and the acknowledgement, on which everything is registered
  again; the flag of a callback tells whether the dialer has its stream, \<open>sendErr\<close> what a send
  over it returns.
\<close>

fun onUpstreamMessage :: "goerr option \<Rightarrow> goerr option \<Rightarrow> tunnelMessage \<Rightarrow> proxySys \<Rightarrow> proxySys" where
  "onUpstreamMessage upErr downErr (ToolRequest q) s = deliverToolRequest upErr downErr (ToolRequest q) s"
| "onUpstreamMessage upErr downErr (CancelRequest i) s = deliverCancelRequest downErr (CancelRequest i) s"
| "onUpstreamMessage upErr downErr _ s = s"

fun onCallback :: "string \<Rightarrow> goerr option \<Rightarrow> dialCallback \<Rightarrow> proxySys \<Rightarrow> proxySys" where
  "onCallback proxyHostname sendErr (OnRegisterAck success msg active) s =
     (if success then reregisterAll proxyHostname (\<lambda>_. dialerSend active sendErr) s else s)"
| "onCallback proxyHostname sendErr (OnMessage m active) s =
     onUpstreamMessage (dialerSend active sendErr) None m s"

section \<open>Lemmas\<close>

lemma sendUp_fields [simp]:
  "psReg (sendUp e m s) = psReg s" "psPending (sendUp e m s) = psPending s"
  "psDown (sendUp e m s) = psDown s" "psConns (sendUp e m s) = psConns s" "psNext (sendUp e m s) = psNext s"
  "psUp (sendUp e m s) = (if e = None then psUp s @ [m] else psUp s)"
  by (simp_all add: sendUp_def)

lemma sendDown_fields [simp]:
  "psReg (sendDown st m s) = psReg s" "psPending (sendDown st m s) = psPending s"
  "psDown (sendDown st m s) = psDown s @ [(st, m)]" "psConns (sendDown st m s) = psConns s"
  "psNext (sendDown st m s) = psNext s" "psUp (sendDown st m s) = psUp s"
  by (simp_all add: sendDown_def)

lemma reregister_up:
  "\<forall>h. upErr h = None \<Longrightarrow>
   psUp (reregister p upErr recs s) =
     psUp s @ List.map (forwardedRegister p) (filter (\<lambda>r. status r = StatusOnline) recs)"
  by (induction recs arbitrary: s) simp_all

lemma reregister_fields [simp]:
  "psReg (reregister p upErr recs s) = psReg s" "psPending (reregister p upErr recs s) = psPending s"
  "psDown (reregister p upErr recs s) = psDown s"
  by (induction recs arbitrary: s) simp_all

lemma reregister_failing:
  "\<forall>h. upErr h \<noteq> None \<Longrightarrow> reregister p upErr recs s = s"
  by (induction recs arbitrary: s) simp_all

lemma nodeType_roundtrip:
  "registrationDomain (nodeTypeProto (nodeTypeStr nt)) = registrationDomain nt"
  by (simp add: nodeTypeProto_def nodeTypeStr_def registrationDomain_def)

lemma registrationDomain_str: "registrationDomain nt = nodeTypeStr nt"
  by (simp add: registrationDomain_def nodeTypeStr_def domain_defs)

section \<open>Properties\<close>

definition exProxy :: proxySys where
  "exProxy = proxyInit\<lparr>psReg := pregRegister (exRecord ''a'' 1) pregNew\<rparr>"

lemma exProxy_lookup: "pregLookup (psReg exProxy) ''a'' = Some (exRecord ''a'' 1)"
  by (simp add: exProxy_def proxyInit_def pregLookup_def pregRegister_def pregNew_def exRecord_def)

text \<open>
  A proxy passes a request and its cancellation to the same node.  A tool request for a
  connected node goes over that node's stream unchanged; a cancellation that follows goes over the
  same stream, once; after the node has answered, the answer goes upstream unchanged and a late
  cancellation goes nowhere.
\<close>

theorem proxy_request_and_cancel:
  assumes rec: "pregLookup (psReg s) (trTargetHost q) = Some rec"
    and s1: "s1 = deliverToolRequest upErr None (ToolRequest q) s"
    and s2: "s2 = deliverCancelRequest None (CancelRequest (trRequestId q)) s1"
    and s3: "s3 = downMessage p now None st c (ToolResponse (trRequestId q) r) s1"
  shows "psDown s1 = psDown s @ [(routeStream rec, ToolRequest q)] \<and> psUp s1 = psUp s \<and>
    psDown s2 = psDown s1 @ [(routeStream rec, CancelRequest (trRequestId q))] \<and> psUp s2 = psUp s \<and>
    deliverCancelRequest None (CancelRequest (trRequestId q)) s2 = s2 \<and>
    psUp s3 = psUp s @ [ToolResponse (trRequestId q) r] \<and>
    deliverCancelRequest None (CancelRequest (trRequestId q)) s3 = s3 \<and>
    map_of (psPending s2) = (map_of (psPending s))(trRequestId q := None)"
  using rec unfolding s1 s2 s3
  by (simp add: deliverToolRequest_def deliverCancelRequest_def delete_conv' update_conv' sendDown_def)

definition exToolRequest :: toolRequest where
  "exToolRequest = \<lparr>trRequestId = ''q'', trToolName = ''fs.stat'', trArgsJson = JRaw ''x'', trTargetHost = ''a''\<rparr>"

theorem proxy_request_and_cancel_witness:
  "psDown (deliverCancelRequest None (CancelRequest ''q'')
      (deliverToolRequest None None (ToolRequest exToolRequest) exProxy)) =
    [(1, ToolRequest exToolRequest), (1, CancelRequest ''q'')]"
proof -
  have q: "trTargetHost exToolRequest = ''a''" "trRequestId exToolRequest = ''q''"
    "routeStream (exRecord ''a'' 1) = 1" "psDown exProxy = []"
    by (simp_all add: exToolRequest_def exRecord_def exProxy_def proxyInit_def)
  have l: "pregLookup (psReg exProxy) (trTargetHost exToolRequest) = Some (exRecord ''a'' 1)"
    using exProxy_lookup q by simp
  from proxy_request_and_cancel [OF l refl refl refl] q show ?thesis by auto
qed




definition exDial :: dialEnv where
  "exDial = \<lparr>deClient = None, deOpen = None, deSend = None, deAck = Inr (RegisterAck True []),
     deMsgs = [], deEnd = CtxCanceled\<rparr>"


text \<open>
  Proxies do not cascade.  A registration that reaches a proxy over the stream of another
  proxy is ignored, and a request for the node behind that proxy is answered to the upstream with
  \<open>HOST_NOT_FOUND\<close>.
\<close>

theorem nested_registration_ignored:
  assumes "pregLookup (psReg s) (rrHostname q) = None" and "trTargetHost t = rrHostname q"
  shows "psUp (deliverToolRequest None None (ToolRequest t)
        (downMessage p now upErr st c (RegisterRequest q) s)) = psUp s @ [hostNotFound t] \<and>
    psDown (deliverToolRequest None None (ToolRequest t)
        (downMessage p now upErr st c (RegisterRequest q) s)) = psDown s"
  using assms by (simp add: deliverToolRequest_def)

theorem nested_registration_ignored_witness:
  "psUp (deliverToolRequest None None (ToolRequest exToolRequest) (downMessage ''p'' 5 None 1
      \<lparr>cnHost = ''p2'', cnPhase = Reading\<rparr> (RegisterRequest (exRegister ''a'')) proxyInit)) =
    [hostNotFound exToolRequest]"
proof -
  have l: "pregLookup (psReg proxyInit) (rrHostname (exRegister ''a'')) = None"
    "trTargetHost exToolRequest = rrHostname (exRegister ''a'')"
    by (simp_all add: proxyInit_def pregLookup_def pregNew_def exToolRequest_def)
  have "psUp proxyInit = []" by (simp add: proxyInit_def)
  with nested_registration_ignored [OF l] show ?thesis by simp
qed

end
