(* ===== verification/ServerConfig.thy ===== *)
theory ServerConfig
  imports AgentConfig TokenAuth HighAvailability ProxyTunnel
begin

text \<open>
  How center and proxy come up: their configurations (\<open>sysplane-center/config\<close>,
  \<open>sysplane-proxy/config\<close>), the TLS settings (\<open>pkg/tlsconf\<close>) and the wiring in their \<open>run.go\<close>,
  up to the point where the servers listen.  Reading a file, decoding YAML, loading certificates and
  connecting to the database are arguments.
\<close>

section \<open>TLS settings\<close>

text \<open>A loaded certificate and a pool of certificates are named by strings.\<close>

record tlsEnv =
  tvKeyPair :: "string \<Rightarrow> string \<Rightarrow> goerr + string"
  tvReadFile :: "string \<Rightarrow> goerr + string"
  tvPool :: "string \<Rightarrow> string option"

record tlsConfig =
  tgCertificate :: "string option"
  tgMinTLS13 :: bool
  tgClientCAs :: "string option"
  tgRequireClientCert :: bool
  tgRootCAs :: "string option"
  tgSkipVerify :: bool

definition emptyTLS :: tlsConfig where
  "emptyTLS = \<lparr>tgCertificate = None, tgMinTLS13 = False, tgClientCAs = None, tgRequireClientCert = False,
     tgRootCAs = None, tgSkipVerify = False\<rparr>"

definition loadCertPool :: "tlsEnv \<Rightarrow> string \<Rightarrow> goerr + string" where
  "loadCertPool env caFile =
     (case tvReadFile env caFile of
        Inl e \<Rightarrow> Inl (ErrWrap ''tlsconf: read CA file: '' e)
      | Inr pem \<Rightarrow>
          (case tvPool env pem of
             None \<Rightarrow> Inl (ErrText (''tlsconf: no valid certificates in '' @ caFile))
           | Some pool \<Rightarrow> Inr pool))"

definition loadServerTLS :: "tlsEnv \<Rightarrow> tlsFiles \<Rightarrow> goerr + tlsConfig" where
  "loadServerTLS env f =
     (case tvKeyPair env (tfCertFile f) (tfKeyFile f) of
        Inl e \<Rightarrow> Inl (ErrWrap ''tlsconf: load server cert: '' e)
      | Inr cert \<Rightarrow>
          (let cfg = emptyTLS\<lparr>tgCertificate := Some cert, tgMinTLS13 := True\<rparr> in
           if tfCAFile f = [] then Inr cfg
           else (case loadCertPool env (tfCAFile f) of
                   Inl e \<Rightarrow> Inl e
                 | Inr pool \<Rightarrow> Inr (cfg\<lparr>tgClientCAs := Some pool, tgRequireClientCert := True\<rparr>))))"

definition loadClientTLS :: "tlsEnv \<Rightarrow> tlsFiles \<Rightarrow> goerr + tlsConfig" where
  "loadClientTLS env f =
     (let cert = (if tfCertFile f \<noteq> [] \<and> tfKeyFile f \<noteq> []
                  then map_sum id Some (tvKeyPair env (tfCertFile f) (tfKeyFile f)) else Inr None) in
      case cert of
        Inl e \<Rightarrow> Inl (ErrWrap ''tlsconf: load client cert: '' e)
      | Inr c \<Rightarrow>
          (let cfg = emptyTLS\<lparr>tgCertificate := c, tgMinTLS13 := True\<rparr> in
           if tfCAFile f = [] then Inr cfg
           else (case loadCertPool env (tfCAFile f) of
                   Inl e \<Rightarrow> Inl e
                 | Inr pool \<Rightarrow> Inr (cfg\<lparr>tgRootCAs := Some pool\<rparr>))))"

section \<open>The configuration of the center\<close>

record centerListen =
  clHTTPAddress :: string
  clGRPCAddress :: string
  clTLS :: tlsFiles

record centerAuth =
  caClientTokens :: "string list"
  caAdminTokens :: "string list"
  caAgentTokens :: "string list"
  caProxyTokens :: "string list"

record databaseConfig =
  dbEnable :: bool
  dbDSN :: string
  dbMaxConns :: int

record metricsConfig =
  mcEnable :: bool
  mcAddress :: string

record haConfig =
  haInternalAddress :: string
  haInternalSecret :: string
  haInternalUseTLS :: bool
  haInternalSkipVerify :: bool

record centerConfig =
  cgListen :: centerListen
  cgAuth :: centerAuth
  cgRequestTimeoutSec :: int
  cgLogging :: loggingConfig
  cgDatabase :: databaseConfig
  cgMetrics :: metricsConfig
  cgHA :: haConfig

definition orDefault :: "string \<Rightarrow> string \<Rightarrow> string" where
  "orDefault s d = (if s = [] then d else s)"

definition loggingDefaults :: "loggingConfig \<Rightarrow> loggingConfig" where
  "loggingDefaults l = \<lparr>lgLevel = orDefault (lgLevel l) ''info'', lgFormat = orDefault (lgFormat l) ''json''\<rparr>"

definition centerDefaults :: "centerConfig \<Rightarrow> centerConfig" where
  "centerDefaults c = c
     \<lparr>cgListen := (cgListen c)\<lparr>clHTTPAddress := orDefault (clHTTPAddress (cgListen c)) '':18880'',
                               clGRPCAddress := orDefault (clGRPCAddress (cgListen c)) '':18890''\<rparr>,
      cgRequestTimeoutSec := (if cgRequestTimeoutSec c \<le> 0 then 5 else cgRequestTimeoutSec c),
      cgLogging := loggingDefaults (cgLogging c),
      cgDatabase := (cgDatabase c)\<lparr>dbMaxConns := (if dbMaxConns (cgDatabase c) \<le> 0 then 10
                                                   else dbMaxConns (cgDatabase c))\<rparr>,
      cgMetrics := (cgMetrics c)\<lparr>mcAddress := orDefault (mcAddress (cgMetrics c)) '':18891''\<rparr>\<rparr>"

definition centerCatalog :: "(string \<Rightarrow> string) \<Rightarrow> centerAuth \<Rightarrow> goerr + catalog" where
  "centerCatalog sha a = newCatalog sha (caClientTokens a) (caAdminTokens a) (caAgentTokens a) (caProxyTokens a)"

definition centerValidate :: "(string \<Rightarrow> string) \<Rightarrow> centerConfig \<Rightarrow> goerr option" where
  "centerValidate sha c =
     (let a = cgAuth c in
      if caClientTokens a = [] \<and> caAdminTokens a = []
      then Some (ErrText ''at least one of auth.client_tokens or auth.admin_tokens must be configured'')
      else if caAgentTokens a = [] then Some (ErrText ''auth.agent_tokens must have at least one token'')
      else if caProxyTokens a = [] then Some (ErrText ''auth.proxy_tokens must have at least one token'')
      else (case centerCatalog sha a of
              Inl e \<Rightarrow> Some (ErrWrap ''auth token validation failed: '' e)
            | Inr _ \<Rightarrow>
                if dbEnable (cgDatabase c) \<and> haInternalAddress (cgHA c) = []
                then Some (ErrText ''ha.internal_address must be set when database.enable=true'') else None))"

definition centerLoad ::
  "(string \<Rightarrow> string) \<Rightarrow> (string \<Rightarrow> goerr + string) \<Rightarrow> (string \<Rightarrow> goerr + centerConfig) \<Rightarrow> string \<Rightarrow>
   goerr + centerConfig" where
  "centerLoad sha readBytes unmarshal path =
     (case readBytes path of
        Inl e \<Rightarrow> Inl (ErrWrap (''center config: read '' @ path @ '': '') e)
      | Inr data \<Rightarrow>
      (case unmarshal data of
        Inl e \<Rightarrow> Inl (ErrWrap (''center config: parse '' @ path @ '': '') e)
      | Inr c0 \<Rightarrow>
          (let c = centerDefaults c0 in
           case centerValidate sha c of
             Some e \<Rightarrow> Inl (ErrWrap ''center config: '' e)
           | None \<Rightarrow> Inr c)))"

section \<open>The start of the center\<close>

text \<open>The outcomes of the calls to the outside while \<open>Run\<close> sets the center up.\<close>

record centerEnv =
  enHostname :: string
  enPool :: poolEnv
  enMigrate :: "goerr option"
  enRegister :: sqlOutcome
  enNow :: int
  enTls :: tlsEnv

record centerWiring =
  cwTokens :: catalog
  cwInstanceId :: string
  cwRequestTimeoutSec :: int
  cwPersistent :: bool
  cwBridge :: "routerBridge option"
  cwSecret :: string
  cwGrpcTLS :: "tlsConfig option"
  cwHttpsFiles :: "tlsFiles option"

definition toInt32 :: "int \<Rightarrow> int" where
  "toInt32 n = (n + 2 ^ 31) mod 2 ^ 32 - 2 ^ 31"

text \<open>\<open>setupStore\<close>: the bridge, and the database with the row of this center.\<close>

definition setupStore ::
  "centerEnv \<Rightarrow> centerConfig \<Rightarrow> string \<Rightarrow> database \<Rightarrow> (goerr + routerBridge) \<times> database" where
  "setupStore env c inst db =
     (case storeNew (enPool env) (dbDSN (cgDatabase c)) (toInt32 (dbMaxConns (cgDatabase c))) of
        Inl e \<Rightarrow> (Inl (ErrWrap ''connect to PostgreSQL: '' e), db)
      | Inr conns \<Rightarrow>
      (case migrate (enMigrate env) of
        Some e \<Rightarrow> (Inl (ErrWrap ''database migration: '' e), db)
      | None \<Rightarrow>
          (case registrarStart inst (haInternalAddress (cgHA c)) (enNow env) (enRegister env) db of
             (db', Some e) \<Rightarrow> (Inl (ErrWrap ''register center instance: '' e), db')
           | (db', None) \<Rightarrow>
               (Inr \<lparr>rbInstanceId = inst, rbSecret = haInternalSecret (cgHA c),
                  rbUseTLS = haInternalUseTLS (cgHA c), rbSkipVerify = haInternalSkipVerify (cgHA c)\<rparr>, db'))))"

definition buildGRPCServerOption :: "tlsEnv \<Rightarrow> tlsFiles \<Rightarrow> goerr + tlsConfig option" where
  "buildGRPCServerOption env f =
     (if tfCertFile f \<noteq> [] \<and> tfKeyFile f \<noteq> []
      then (case loadServerTLS env f of Inl e \<Rightarrow> Inl (ErrWrap ''load TLS: '' e) | Inr t \<Rightarrow> Inr (Some t))
      else Inr None)"

definition centerSetup ::
  "(string \<Rightarrow> string) \<Rightarrow> goerr + centerConfig \<Rightarrow> centerEnv \<Rightarrow> database \<Rightarrow> (goerr + centerWiring) \<times> database" where
  "centerSetup sha loaded env db =
     (case loaded of
        Inl e \<Rightarrow> (Inl (ErrWrap ''load config: '' e), db)
      | Inr c \<Rightarrow>
      (case centerCatalog sha (cgAuth c) of
        Inl e \<Rightarrow> (Inl (ErrWrap ''build token catalog: '' e), db)
      | Inr tokens \<Rightarrow>
          (let inst = enHostname env @ clGRPCAddress (cgListen c);
               files = clTLS (cgListen c);
               (bridge, db') = (if dbEnable (cgDatabase c)
                                then map_prod (map_sum id Some) id (setupStore env c inst db)
                                else (Inr None, db))
           in (case bridge of
                 Inl e \<Rightarrow> (Inl e, db')
               | Inr b \<Rightarrow>
                   (case buildGRPCServerOption (enTls env) files of
                      Inl e \<Rightarrow> (Inl e, db')
                    | Inr tls \<Rightarrow>
                        (Inr \<lparr>cwTokens = tokens, cwInstanceId = inst,
                           cwRequestTimeoutSec = cgRequestTimeoutSec c, cwPersistent = (b \<noteq> None),
                           cwBridge = b, cwSecret = haInternalSecret (cgHA c), cwGrpcTLS = tls,
                           cwHttpsFiles = (if tfCertFile files \<noteq> [] \<and> tfKeyFile files \<noteq> []
                                           then Some files else None)\<rparr>, db'))))))"

section \<open>The proxy\<close>

record proxyUpstream =
  puAddress :: string
  puToken :: string
  puInsecureTLS :: bool
  puTLS :: tlsFiles

record proxyServerConfig =
  pcGRPCAddress :: string
  pcListenTLS :: tlsFiles
  pcUpstream :: proxyUpstream
  pcAgentTokens :: "string list"
  pcProxyTokens :: "string list"
  pcLogging :: loggingConfig
  pcHostname :: string

definition proxyDefaults :: "proxyServerConfig \<Rightarrow> proxyServerConfig" where
  "proxyDefaults c = c\<lparr>pcGRPCAddress := orDefault (pcGRPCAddress c) '':18892'',
     pcLogging := loggingDefaults (pcLogging c)\<rparr>"

definition proxyCatalog :: "(string \<Rightarrow> string) \<Rightarrow> proxyServerConfig \<Rightarrow> goerr + catalog" where
  "proxyCatalog sha c = newCatalog sha [] [] (pcAgentTokens c) (pcProxyTokens c)"

definition proxyValidate :: "(string \<Rightarrow> string) \<Rightarrow> proxyServerConfig \<Rightarrow> goerr option" where
  "proxyValidate sha c =
     (if puAddress (pcUpstream c) = [] then Some (ErrText ''upstream.address must be set'')
      else if puToken (pcUpstream c) = [] then Some (ErrText ''upstream.token must be set'')
      else if pcAgentTokens c = [] then Some (ErrText ''auth.agent_tokens must have at least one token'')
      else if pcProxyTokens c = [] then Some (ErrText ''auth.proxy_tokens must have at least one token'')
      else (case proxyCatalog sha c of
              Inl e \<Rightarrow> Some (ErrWrap ''auth token validation failed: '' e)
            | Inr _ \<Rightarrow> None))"

definition proxyLoad ::
  "(string \<Rightarrow> string) \<Rightarrow> (string \<Rightarrow> goerr + string) \<Rightarrow> (string \<Rightarrow> goerr + proxyServerConfig) \<Rightarrow> string \<Rightarrow>
   goerr + proxyServerConfig" where
  "proxyLoad sha readBytes unmarshal path =
     (case readBytes path of
        Inl e \<Rightarrow> Inl (ErrWrap (''proxy config: read '' @ path @ '': '') e)
      | Inr data \<Rightarrow>
      (case unmarshal data of
        Inl e \<Rightarrow> Inl (ErrWrap (''proxy config: parse '' @ path @ '': '') e)
      | Inr c0 \<Rightarrow>
          (let c = proxyDefaults c0 in
           case proxyValidate sha c of
             Some e \<Rightarrow> Inl (ErrWrap ''proxy config: '' e)
           | None \<Rightarrow> Inr c)))"

text \<open>The name under which the proxy registers; \<open>osHostname\<close> is empty when \<open>os.Hostname\<close> fails.\<close>

definition proxyName :: "proxyServerConfig \<Rightarrow> string \<Rightarrow> string" where
  "proxyName c osHostname = orDefault (orDefault (pcHostname c) osHostname) ''proxy''"

text \<open>Credentials of the connection to the upstream: none means an unencrypted connection.\<close>

definition buildUpstreamCreds :: "tlsEnv \<Rightarrow> proxyServerConfig \<Rightarrow> goerr + tlsConfig option" where
  "buildUpstreamCreds env c =
     (let t = puTLS (pcUpstream c) in
      if puInsecureTLS (pcUpstream c) then Inr (Some (emptyTLS\<lparr>tgSkipVerify := True\<rparr>))
      else if tfCertFile t \<noteq> [] \<or> tfCAFile t \<noteq> [] then map_sum id Some (loadClientTLS env t)
      else Inr None)"

definition buildDownstreamCreds :: "tlsEnv \<Rightarrow> proxyServerConfig \<Rightarrow> goerr + tlsConfig option" where
  "buildDownstreamCreds env c =
     (if tfCertFile (pcListenTLS c) \<noteq> [] then map_sum id Some (loadServerTLS env (pcListenTLS c)) else Inr None)"

definition proxyRegisterMsg :: "proxyServerConfig \<Rightarrow> string \<Rightarrow> registerRequest" where
  "proxyRegisterMsg c name =
     \<lparr>rrHostname = name, rrIp = [], rrOs = ''proxy'', rrAgentVersion = ''1.0.0'',
      rrNodeType = NODE_TYPE_PROXY, rrProxyPath = [], rrToken = puToken (pcUpstream c)\<rparr>"

definition proxyDialer :: "proxyServerConfig \<Rightarrow> string \<Rightarrow> dialerConfig" where
  "proxyDialer c name = newDialer
     \<lparr>dcEndpoint = puAddress (pcUpstream c), dcRegisterMsg = RegisterRequest (proxyRegisterMsg c name),
      dcHeartbeatInterval = 30 * second, dcReconnectMaxDelay = 30 * second\<rparr>"

definition proxySetup ::
  "(string \<Rightarrow> string) \<Rightarrow> goerr + proxyServerConfig \<Rightarrow> string \<Rightarrow> tlsEnv \<Rightarrow>
   goerr + catalog \<times> string \<times> dialerConfig \<times> tlsConfig option" where
  "proxySetup sha loaded osHostname env =
     (case loaded of
        Inl e \<Rightarrow> Inl (ErrWrap ''load config: '' e)
      | Inr c \<Rightarrow>
      (case proxyCatalog sha c of
        Inl e \<Rightarrow> Inl (ErrWrap ''build token catalog: '' e)
      | Inr tokens \<Rightarrow>
      (case buildUpstreamCreds env c of
        Inl e \<Rightarrow> Inl (ErrWrap ''upstream TLS config: '' e)
      | Inr creds \<Rightarrow> Inr (tokens, proxyName c osHostname, proxyDialer c (proxyName c osHostname), creds))))"

section \<open>The checkers of both registries\<close>

text \<open>Center and proxy mark the same nodes offline.\<close>

lemma checkers_agree:
  "records (fst (startOfflineChecker timeout cbs ts r)) = pregStartOfflineChecker timeout ts (records r)"
proof (induction timeout cbs ts r rule: startOfflineChecker.induct)
  case (3 timeout cbs now ts r)
  obtain r1 c where c: "regCheckOffline now timeout cbs r = (r1, c)" by fastforce
  then have "records r1 = pregCheckOffline now timeout (records r)"
    by (auto simp: regCheckOffline_def pregCheckOffline_def markOffline_def staleOnline_def Let_def)
  with 3 [OF c [symmetric] refl] c show ?case by (simp add: case_prod_beta)
qed simp_all

end
