(* ===== verification/WebUI.thy ===== *)
theory WebUI
  imports GoPath
begin

text \<open>
  The web UI of the center (\<open>sysplane-center/webui/handler.go\<close>): one page and its files, embedded in the
  program.  The embedded directory and the table of media types are arguments.
\<close>

record webEnv =
  weFiles :: "string \<Rightarrow> string option"
  weMime :: "string \<Rightarrow> string"

datatype webReply = WebFile string string | WebNotFound

text \<open>The element after the last slash (\<open>path.Base\<close>) and what follows its last dot (\<open>path.Ext\<close>).\<close>

definition lastElement :: "string \<Rightarrow> string" where
  "lastElement p = rev (takeWhile (\<lambda>c. c \<noteq> slash) (rev p))"

definition pathBase :: "string \<Rightarrow> string" where
  "pathBase p =
     (if p = [] then ''.''
      else (let q = rev (dropWhile (\<lambda>c. c = slash) (rev p)) in
            if lastElement q = [] then [slash] else lastElement q))"

definition pathExt :: "string \<Rightarrow> string" where
  "pathExt p =
     (let e = lastElement p in
      if CHR ''.'' \<in> set e then CHR ''.'' # rev (takeWhile (\<lambda>c. c \<noteq> CHR ''.'') (rev e)) else [])"

definition serveEmbeddedFile :: "webEnv \<Rightarrow> string \<Rightarrow> webReply" where
  "serveEmbeddedFile web name =
     (case weFiles web name of
        None \<Rightarrow> WebNotFound
      | Some content \<Rightarrow>
          (let t = weMime web (pathExt name) in
           WebFile (if t = [] then ''application/octet-stream'' else t) content))"

definition webName :: "string \<Rightarrow> string" where
  "webName path =
     (let cleanPath = trimPrefix (clean (slash # path)) [slash] in
      if cleanPath = ''.'' \<or> cleanPath = [] \<or> \<not> containsStr (pathBase cleanPath) ''.'' then ''index.html''
      else cleanPath)"

definition webHandler :: "webEnv \<Rightarrow> string \<Rightarrow> webReply" where
  "webHandler web path = serveEmbeddedFile web (webName path)"

lemma webName_confined:
  "webName path = ''index.html'' \<or> (set (splitOn slash (webName path)) \<inter> {[], ''.'', ''..''} = {})"
proof -
  let ?p = "slash # path"
  have a: "isAbs ?p" by simp
  have ok: "okAcc True (rev (cleanComps True ?p))" by (rule okAcc_cleanComps)
  have cl: "trimPrefix (clean ?p) [slash] = joinOn slash (cleanComps True ?p)"
    by (simp add: clean_abs [OF a] trimPrefix_def hasPrefix_def)
  have s: "splitOn slash (joinOn slash (cleanComps True ?p)) = cleanComps True ?p" if "cleanComps True ?p \<noteq> []"
    by (rule splitOn_joinOn) (use that okAcc_no_slash [OF ok] in auto)
  have "set (cleanComps True ?p) \<inter> {[], ''.'', ''..''} = {}"
    using okAcc_no_slash [OF ok] okAcc_rooted [OF ok] by auto
  then show ?thesis using s by (cases "cleanComps True ?p = []") (auto simp: webName_def cl Let_def)
qed

end
