(* ===== verification/CenterMain.thy ===== *)
theory CenterMain
  imports HttpProps ServerConfig WebUI
begin

text \<open>
  The HTTP server of the center as \<open>run.go\<close> assembles it: the API, the internal endpoint for other
  centers and the web UI behind one mux; and what holds of a center and a proxy that were
  started from their configurations.
\<close>

section \<open>The HTTP server\<close>

datatype centerRoute = RouteInternal | RouteRoot | RouteWeb | RouteWebUI | RouteAPI

text \<open>The more specific pattern stands before the less specific one, as the mux prefers it.\<close>

definition centerRoutes :: "centerRoute muxPattern list" where
  "centerRoutes =
     [\<lparr>mpMethod = None, mpSegments = [''internal'', ''forward''], mpSubtree = False, mpHandler = RouteInternal\<rparr>,
      \<lparr>mpMethod = None, mpSegments = [''web''], mpSubtree = False, mpHandler = RouteWeb\<rparr>,
      \<lparr>mpMethod = None, mpSegments = [''web''], mpSubtree = True, mpHandler = RouteWebUI\<rparr>,
      \<lparr>mpMethod = None, mpSegments = [''v1''], mpSubtree = True, mpHandler = RouteAPI\<rparr>,
      \<lparr>mpMethod = None, mpSegments = [], mpSubtree = True, mpHandler = RouteRoot\<rparr>]"

datatype centerReply =
    ApiReply string apiReply
  | ForwardReply forwardReply
  | TemporaryRedirect string
  | WebPage webReply
  | MuxReply apiReply

text \<open>A request with what only the internal endpoint reads: its header and its decoded body.\<close>

record centerRequest =
  crqApi :: apiRequest
  crqInternalAuth :: string
  crqForward :: "forwardRequest option"

text \<open>\<open>http.StripPrefix\<close> asks for the prefix in the path and in its escaped form.\<close>

definition centerServe ::
  "apiEnv \<Rightarrow> webEnv \<Rightarrow> string \<Rightarrow> callEnv \<Rightarrow> centerRequest \<Rightarrow> service \<Rightarrow> database option \<Rightarrow>
   centerReply \<times> service \<times> sent \<times> database option" where
  "centerServe env web secret cenv q s db =
     (let r = crqApi q; d = avDeps env in
      case muxFind centerRoutes (rqMethod r) (rqEscaped r) (urlPath r) of
        MuxHandler RouteInternal \<Rightarrow>
          (let (rep, msgs, db') = internalForward (sdReg d) secret (sdInst d) cenv (rqMethod r)
                 (crqInternalAuth q) (crqForward q) db;
               st = (case crqForward q of None \<Rightarrow> 0 | Some f \<Rightarrow>
                 (case regLookup (sdReg d) (fqTargetHost f) of None \<Rightarrow> 0 | Some rec \<Rightarrow> routeStream rec))
           in (ForwardReply rep, s, List.map (Pair st) msgs, db'))
      | MuxHandler RouteRoot \<Rightarrow> (TemporaryRedirect ''/web/'', s, [], db)
      | MuxHandler RouteWeb \<Rightarrow> (TemporaryRedirect ''/web/'', s, [], db)
      | MuxHandler RouteWebUI \<Rightarrow> 
          ((if hasPrefix (urlPath r) ''/web/'' \<and> hasPrefix (rqEscaped r) ''/web/''
            then WebPage (webHandler web (trimPrefix (urlPath r) ''/web/'')) else MuxReply PageNotFound), s, [], db)
      | MuxHandler RouteAPI \<Rightarrow>
          (let (rid, rep, s', msgs, db') = serveAPI env r s db in (ApiReply rid rep, s', msgs, db'))
      | MuxRedirect p \<Rightarrow> (MuxReply (Redirect p), s, [], db)
      | MuxMethodNotAllowed \<Rightarrow> (MuxReply MethodNotAllowed, s, [], db)
      | MuxNotFound \<Rightarrow> (MuxReply PageNotFound, s, [], db))"

section \<open>Lemmas\<close>

lemma serveAPI_unknown:
  assumes cat: "newCatalog (avSha env) cl ad ag px = Inr (avTokens env)"
    and none: "\<And>t token. t \<in> set cl \<union> set ad \<Longrightarrow> bearerToken (rqAuthorization r) = Inr token \<Longrightarrow>
      tokenFingerprint (avSha env) token \<noteq> fpOf (avSha env) t"
    and serve: "serveAPI env r s db = (rid, rep, s', msgs, db')"
  shows "s' = s \<and> msgs = [] \<and> db' = db"
  using serveAPI_cases [OF serve]
proof (elim disjE exE conjE)
  fix ep ident
  assume "authenticateHTTP (avSha env) (avTokens env) (rqAuthorization r) (allowedDomains ep) = Inr ident"
  then have False unfolding http_identity [OF cat] using none by (metis UnCI nth_mem)
  then show ?thesis ..
qed simp_all

lemma internalForward_refused:
  "secret \<noteq> [] \<Longrightarrow> auth \<noteq> secret \<Longrightarrow>
   \<exists>rep. internalForward reg secret inst env meth auth body db = (rep, [], db)"
  by (simp add: internalForward_def)

lemma orDefault_ne: "d \<noteq> [] \<Longrightarrow> orDefault s d \<noteq> []"
  by (simp add: orDefault_def)

lemma centerDefaults_kept [simp]:
  "cgAuth (centerDefaults c) = cgAuth c" "cgHA (centerDefaults c) = cgHA c"
  "dbEnable (cgDatabase (centerDefaults c)) = dbEnable (cgDatabase c)"
  by (simp_all add: centerDefaults_def)

lemma centerLoad_ok:
  "centerLoad sha rd um path = Inr c \<longleftrightarrow>
   (\<exists>data c0. rd path = Inr data \<and> um data = Inr c0 \<and> c = centerDefaults c0 \<and> centerValidate sha c = None)"
  by (auto simp: centerLoad_def Let_def split: sum.splits option.splits)

lemma proxyLoad_ok:
  "proxyLoad sha rd um path = Inr c \<longleftrightarrow>
   (\<exists>data c0. rd path = Inr data \<and> um data = Inr c0 \<and> c = proxyDefaults c0 \<and> proxyValidate sha c = None)"
  by (auto simp: proxyLoad_def Let_def split: sum.splits option.splits)

lemma centerValidate_None:
  "centerValidate sha c = None \<longleftrightarrow>
   (caClientTokens (cgAuth c) \<noteq> [] \<or> caAdminTokens (cgAuth c) \<noteq> []) \<and> caAgentTokens (cgAuth c) \<noteq> [] \<and>
   caProxyTokens (cgAuth c) \<noteq> [] \<and> (\<exists>t. centerCatalog sha (cgAuth c) = Inr t) \<and>
   (dbEnable (cgDatabase c) \<longrightarrow> haInternalAddress (cgHA c) \<noteq> [])"
  by (auto simp: centerValidate_def Let_def split: sum.splits)

section \<open>Properties\<close>

text \<open>
  Property C4: the HTTP port as a whole is closed to strangers.  When the centers share a secret, a
  request that carries neither a configured client or admin token nor that secret changes nothing
  in the service and in the log and makes no message go out, whatever its method, path and body.
\<close>

theorem center_http_closed:
  assumes cat: "newCatalog (avSha env) cl ad ag px = Inr (avTokens env)"
    and token: "\<And>t token. t \<in> set cl \<union> set ad \<Longrightarrow> bearerToken (rqAuthorization (crqApi q)) = Inr token \<Longrightarrow>
      tokenFingerprint (avSha env) token \<noteq> fpOf (avSha env) t"
    and secret: "secret \<noteq> []" "crqInternalAuth q \<noteq> secret"
  shows "\<exists>rep. centerServe env web secret cenv q s db = (rep, s, [], db)"
proof (cases "muxFind centerRoutes (rqMethod (crqApi q)) (rqEscaped (crqApi q)) (urlPath (crqApi q))")
  case (MuxHandler h)
  show ?thesis
  proof (cases h)
    case RouteInternal
    obtain rep where "internalForward (sdReg (avDeps env)) secret (sdInst (avDeps env)) cenv
        (rqMethod (crqApi q)) (crqInternalAuth q) (crqForward q) db = (rep, [], db)"
      using internalForward_refused [OF secret] by blast
    with MuxHandler RouteInternal show ?thesis by (simp add: centerServe_def)
  next
    case RouteAPI
    obtain rid rep s' msgs db' where a: "serveAPI env (crqApi q) s db = (rid, rep, s', msgs, db')"
      by (metis surj_pair)
    with serveAPI_unknown [OF cat token a] MuxHandler RouteAPI show ?thesis by (simp add: centerServe_def)
  qed (use MuxHandler in \<open>simp_all add: centerServe_def Let_def\<close>)
qed (simp_all add: centerServe_def)

definition exWeb :: webEnv where
  "exWeb = \<lparr>weFiles = [''index.html'' \<mapsto> ''page''], weMime = (\<lambda>_. ''text/html'')\<rparr>"

theorem center_http_closed_witness:
  "\<exists>c rep. newCatalog (\<lambda>s. s) [''c1''] [''a1''] [''g1''] [''p1''] = Inr c \<and>
     centerServe (exApi c) exWeb ''s3'' (exEnv (CtxEnds CtxCanceled)) \<lparr>crqApi = exCall ''/internal/forward'' ''Bearer x'',
       crqInternalAuth = [], crqForward = Some \<lparr>fqRequestId = ''q'', fqToolName = ''run_process'',
         fqArgsJson = JRaw [], fqTargetHost = ''a''\<rparr>\<rparr> newService None = (rep, newService, [], None)"
proof -
  obtain c where c: "newCatalog (\<lambda>s. s) [''c1''] [''a1''] [''g1''] [''p1''] = Inr c"
    using exampleCatalog by blast
  have e: "avSha (exApi c) = (\<lambda>s. s)" "avTokens (exApi c) = c" by (simp_all add: exApi_def)
  have c': "newCatalog (avSha (exApi c)) [''c1''] [''a1''] [''g1''] [''p1''] = Inr (avTokens (exApi c))"
    using c by (simp add: e)
  have b: "bearerToken ''Bearer x'' = Inr ''x''"
    "tokenFingerprint (\<lambda>s. s) ''x'' \<notin> fpOf (\<lambda>s. s) ` (set [''c1''] \<union> set [''a1''])" by code_simp+
  let ?q = "\<lparr>crqApi = exCall ''/internal/forward'' ''Bearer x'', crqInternalAuth = [],
      crqForward = Some \<lparr>fqRequestId = ''q'', fqToolName = ''run_process'', fqArgsJson = JRaw [],
        fqTargetHost = ''a''\<rparr>\<rparr>"
  have q: "rqAuthorization (crqApi ?q) = ''Bearer x''" "''s3'' \<noteq> []" "crqInternalAuth ?q \<noteq> ''s3''"
    by (simp_all add: exCall_def)
  have n: "\<And>t token. t \<in> set [''c1''] \<union> set [''a1''] \<Longrightarrow> bearerToken (rqAuthorization (crqApi ?q)) = Inr token \<Longrightarrow>
      tokenFingerprint (avSha (exApi c)) token \<noteq> fpOf (avSha (exApi c)) t"
    using b unfolding e q(1) by auto
  from center_http_closed [OF c' n q(2,3), of exWeb "exEnv (CtxEnds CtxCanceled)" newService None] c show ?thesis by blast
qed

text \<open>
  Property C30: a loaded configuration brings up a working center.  Its addresses, time limits and
  tokens are usable and its token catalog can be built; when the database does its part, the other
  centers find this center's address under its instance id, and the center starts exactly when its
  certificates can be loaded, with a bridge that knows itself by the same id.  When they cannot,
  the start fails but the row that directs calls to this center stays.
\<close>

theorem center_start_spec:
  assumes load: "centerLoad sha rd um path = Inr c" and inst: "inst = enHostname env @ clGRPCAddress (cgListen c)"
    and outside: "peParse (enPool env) (dbDSN (cgDatabase c)) = Inr conns"
      "peConnect (enPool env) = None" "pePing (enPool env) = None" "enMigrate env = None" "enRegister env = SqlDone"
  shows "clHTTPAddress (cgListen c) \<noteq> [] \<and> clGRPCAddress (cgListen c) \<noteq> [] \<and> cgRequestTimeoutSec c > 0 \<and>
    dbMaxConns (cgDatabase c) > 0 \<and>
    (\<exists>res db'. centerSetup sha (Inr c) env db = (res, db') \<and>
       (if dbEnable (cgDatabase c)
        then haInternalAddress (cgHA c) \<noteq> [] \<and> getCenterAddress inst None db' = Inr (haInternalAddress (cgHA c))
        else db' = db) \<and>
       (case buildGRPCServerOption (enTls env) (clTLS (cgListen c)) of
          Inl e \<Rightarrow> res = Inl e
        | Inr tls \<Rightarrow> \<exists>w. res = Inr w \<and> centerCatalog sha (cgAuth c) = Inr (cwTokens w) \<and> cwGrpcTLS w = tls \<and>
            cwInstanceId w = inst \<and>
            map_option rbInstanceId (cwBridge w) = (if dbEnable (cgDatabase c) then Some inst else None)))"
proof -
  from load obtain c0 where c: "c = centerDefaults c0" and v: "centerValidate sha c = None"
    by (auto simp: centerLoad_ok)
  from v obtain t where t: "centerCatalog sha (cgAuth c) = Inr t" by (auto simp: centerValidate_None)
  have "clHTTPAddress (cgListen c) \<noteq> [] \<and> clGRPCAddress (cgListen c) \<noteq> [] \<and> cgRequestTimeoutSec c > 0 \<and>
      dbMaxConns (cgDatabase c) > 0"
    by (simp add: c centerDefaults_def orDefault_ne)
  moreover have "dbEnable (cgDatabase c) \<Longrightarrow> haInternalAddress (cgHA c) \<noteq> []"
    using v by (simp add: centerValidate_None)
  ultimately show ?thesis
    using outside t inst
    by (cases "dbEnable (cgDatabase c)"; cases "buildGRPCServerOption (enTls env) (clTLS (cgListen c))")
      (simp_all add: centerSetup_def setupStore_def storeNew_def migrate_def registrarStart_def upsertCenter_def
        getCenterAddress_def execSql_cases Let_def)
qed

definition exFiles :: tlsFiles where
  "exFiles = \<lparr>tfCertFile = [], tfKeyFile = [], tfCAFile = []\<rparr>"

definition exTls :: tlsEnv where
  "exTls = \<lparr>tvKeyPair = (\<lambda>_ _. Inl (ErrText ''no file'')), tvReadFile = (\<lambda>_. Inl (ErrText ''no file'')),
     tvPool = (\<lambda>_. None)\<rparr>"

definition exCenterConfig :: centerConfig where
  "exCenterConfig = \<lparr>cgListen = \<lparr>clHTTPAddress = [], clGRPCAddress = [], clTLS = exFiles\<rparr>,
     cgAuth = \<lparr>caClientTokens = [''c1''], caAdminTokens = [''a1''], caAgentTokens = [''g1''], caProxyTokens = [''p1'']\<rparr>,
     cgRequestTimeoutSec = 0, cgLogging = \<lparr>lgLevel = [], lgFormat = []\<rparr>,
     cgDatabase = \<lparr>dbEnable = True, dbDSN = ''d'', dbMaxConns = 0\<rparr>,
     cgMetrics = \<lparr>mcEnable = False, mcAddress = []\<rparr>,
     cgHA = \<lparr>haInternalAddress = ''h:1'', haInternalSecret = ''s'', haInternalUseTLS = False,
       haInternalSkipVerify = False\<rparr>\<rparr>"

definition exProxyConfig :: proxyServerConfig where
  "exProxyConfig = \<lparr>pcGRPCAddress = [], pcListenTLS = exFiles,
     pcUpstream = \<lparr>puAddress = ''h:2'', puToken = ''Bearer p1'', puInsecureTLS = False, puTLS = exFiles\<rparr>,
     pcAgentTokens = [''g2''], pcProxyTokens = [''p2''], pcLogging = \<lparr>lgLevel = [], lgFormat = []\<rparr>,
     pcHostname = []\<rparr>"

lemma exCenterLoad:
  "centerLoad (\<lambda>s. s) (\<lambda>_. Inr []) (\<lambda>_. Inr exCenterConfig) ''f'' = Inr (centerDefaults exCenterConfig)"
  using exampleCatalog by (auto simp: centerLoad_ok centerValidate_None centerCatalog_def exCenterConfig_def)

definition exCenterEnv :: centerEnv where
  "exCenterEnv = \<lparr>enHostname = ''h'', enPool = \<lparr>peParse = (\<lambda>_. Inr 4), peConnect = None, pePing = None\<rparr>, enMigrate = None, enRegister = SqlDone, enNow = 3,
     enTls = exTls\<rparr>"

theorem center_start_spec_witness:
  "\<exists>w db'. centerSetup (\<lambda>s. s) (Inr (centerDefaults exCenterConfig)) exCenterEnv emptyDb = (Inr w, db') \<and>
     getCenterAddress (cwInstanceId w) None db' = Inr ''h:1''"
proof -
  have o: "peParse (enPool exCenterEnv) (dbDSN (cgDatabase (centerDefaults exCenterConfig))) = Inr 4"
    "peConnect (enPool exCenterEnv) = None" "pePing (enPool exCenterEnv) = None" "enMigrate exCenterEnv = None"
    "enRegister exCenterEnv = SqlDone"
    by (simp_all add: exCenterEnv_def)
  have b: "buildGRPCServerOption (enTls exCenterEnv) (clTLS (cgListen (centerDefaults exCenterConfig))) = Inr None"
    by (simp add: buildGRPCServerOption_def centerDefaults_def exCenterConfig_def exFiles_def)
  have d: "dbEnable (cgDatabase exCenterConfig)" "haInternalAddress (cgHA exCenterConfig) = ''h:1''"
    by (simp_all add: exCenterConfig_def)
  from center_start_spec [OF exCenterLoad refl o, of emptyDb] d show ?thesis unfolding b by auto
qed

text \<open>
  When a proxy can join a center.  With both configurations loaded, the center accepts the
  registration that the proxy sends exactly when the upstream token of the proxy has the
  fingerprint of one of the center's own proxy tokens; the proxy then has the identity of that token.
\<close>

theorem proxy_join_center:
  assumes center: "centerLoad sha rd um path = Inr c" and tokens: "centerCatalog sha (cgAuth c) = Inr tokens"
    and proxy: "proxyLoad sha rd' um' path' = Inr p" "proxySetup sha (Inr p) osHost env = Inr (own, name, dc, creds)"
  shows "\<exists>q. dcRegisterMsg dc = RegisterRequest q \<and> rrHostname q = name \<and> name \<noteq> [] \<and>
    dcEndpoint dc = puAddress (pcUpstream p) \<and>
    (\<forall>i. authenticateRegistration sha tokens (registrationDomain (rrNodeType q)) (rrToken q) = Inr i \<longleftrightarrow>
      trimSpace (trimPrefix (puToken (pcUpstream p)) ''Bearer '') \<noteq> [] \<and>
      (\<exists>j < length (caProxyTokens (cgAuth c)).
         tokenFingerprint sha (trimSpace (trimPrefix (puToken (pcUpstream p)) ''Bearer '')) =
           fpOf sha (caProxyTokens (cgAuth c) ! j) \<and>
         i = identityFor sha DomainProxy j (trimSpace (caProxyTokens (cgAuth c) ! j))))"
proof -
  let ?tok = "trimSpace (trimPrefix (puToken (pcUpstream p)) ''Bearer '')"
  have d: "dc = proxyDialer p name" "name = proxyName p osHost"
    using proxy(2) by (auto simp: proxySetup_def split: sum.splits)
  have reg: "dcRegisterMsg dc = RegisterRequest (proxyRegisterMsg p name)"
    "dcEndpoint dc = puAddress (pcUpstream p)"
    by (simp_all add: d(1) proxyDialer_def newDialer_def Let_def second_def millisecond_def)
  have nm: "name \<noteq> []" by (simp add: d(2) proxyName_def orDefault_ne)
  have dom: "registrationDomain NODE_TYPE_PROXY = DomainProxy" by (simp add: registrationDomain_def)
  have ne: "DomainProxy \<noteq> DomainAgent" by (simp add: domain_defs)
  have cat: "newCatalog sha (caClientTokens (cgAuth c)) (caAdminTokens (cgAuth c)) (caAgentTokens (cgAuth c))
      (caProxyTokens (cgAuth c)) = Inr tokens" using tokens by (simp add: centerCatalog_def)
  have "authenticateRegistration sha tokens DomainProxy (puToken (pcUpstream p)) = Inr i \<longleftrightarrow>
      ?tok \<noteq> [] \<and> (\<exists>m. map_of (registrationTokens tokens) DomainProxy = Some m \<and>
        map_of m (tokenFingerprint sha ?tok) = Some i)" for i
    by (auto simp: authenticateRegistration_def Let_def split: option.split)
  then have "authenticateRegistration sha tokens DomainProxy (puToken (pcUpstream p)) = Inr i \<longleftrightarrow>
      ?tok \<noteq> [] \<and> (\<exists>j < length (caProxyTokens (cgAuth c)).
         tokenFingerprint sha ?tok = fpOf sha (caProxyTokens (cgAuth c) ! j) \<and>
         i = identityFor sha DomainProxy j (trimSpace (caProxyTokens (cgAuth c) ! j)))" for i
    unfolding newCatalog_registration [OF cat] using ne by blast
  then show ?thesis
    using reg nm by (auto simp: proxyRegisterMsg_def dom)
qed


theorem proxy_join_center_witness:
  "\<exists>tokens (q :: registerRequest) i. centerCatalog (\<lambda>s. s) (cgAuth (centerDefaults exCenterConfig)) = Inr tokens \<and>
     rrToken q = ''Bearer p1'' \<and> authenticateRegistration (\<lambda>s. s) tokens (registrationDomain (rrNodeType q)) (rrToken q) = Inr i \<and>
     idDomain i = DomainProxy"
proof -
  obtain tokens where t: "centerCatalog (\<lambda>s. s) (cgAuth (centerDefaults exCenterConfig)) = Inr tokens"
    using exampleCatalog by (auto simp: centerCatalog_def exCenterConfig_def)
  have "\<exists>t. newCatalog (\<lambda>s. s) [] [] [''g2''] [''p2''] = Inr t" unfolding newCatalog_accepts by code_simp
  then obtain own where own: "proxyCatalog (\<lambda>s. s) (proxyDefaults exProxyConfig) = Inr own"
    by (auto simp: proxyCatalog_def exProxyConfig_def proxyDefaults_def)
  have p: "proxyLoad (\<lambda>s. s) (\<lambda>_. Inr []) (\<lambda>_. Inr exProxyConfig) ''f'' = Inr (proxyDefaults exProxyConfig)"
    unfolding proxyLoad_ok by (simp add: proxyValidate_def own) (simp add: proxyDefaults_def exProxyConfig_def)
  let ?n = "proxyName (proxyDefaults exProxyConfig) ''h''"
  let ?d = "proxyDialer (proxyDefaults exProxyConfig) ?n"
  have s: "proxySetup (\<lambda>s. s) (Inr (proxyDefaults exProxyConfig)) ''h'' exTls = Inr (own, ?n, ?d, None)"
    by (simp add: proxySetup_def own buildUpstreamCreds_def Let_def)
      (simp add: proxyDefaults_def exProxyConfig_def exFiles_def)
  have c: "caProxyTokens (cgAuth (centerDefaults exCenterConfig)) = [''p1'']"
    "puToken (pcUpstream (proxyDefaults exProxyConfig)) = ''Bearer p1''"
    by (simp_all add: exCenterConfig_def exProxyConfig_def proxyDefaults_def)
  have k: "trimSpace (trimPrefix ''Bearer p1'' ''Bearer '') = ''p1''" "trimSpace ''p1'' = ''p1''" by code_simp+
  obtain q where q: "dcRegisterMsg ?d = RegisterRequest q"
    and a: "\<And>i. authenticateRegistration (\<lambda>s. s) tokens (registrationDomain (rrNodeType q)) (rrToken q) = Inr i \<longleftrightarrow>
      i = identityFor (\<lambda>s. s) DomainProxy 0 ''p1''"
    using proxy_join_center [OF exCenterLoad t p s] unfolding c k by (auto simp: k(2))
  have "dcRegisterMsg ?d = RegisterRequest (proxyRegisterMsg (proxyDefaults exProxyConfig) ?n)"
    by (simp add: proxyDialer_def newDialer_def Let_def second_def millisecond_def)
  then have "q = proxyRegisterMsg (proxyDefaults exProxyConfig) ?n" using q by simp
  then have r: "rrToken q = ''Bearer p1''" by (simp add: proxyRegisterMsg_def c(2))
  have i: "idDomain (identityFor (\<lambda>s. s) DomainProxy 0 ''p1'') = DomainProxy" by (simp add: identityFor_def)
  have au: "authenticateRegistration (\<lambda>s. s) tokens (registrationDomain (rrNodeType q)) (rrToken q) =
      Inr (identityFor (\<lambda>s. s) DomainProxy 0 ''p1'')" unfolding a by (rule refl)
  show ?thesis
    by (rule exI [of _ tokens], rule exI [of _ q], rule exI [of _ "identityFor (\<lambda>s. s) DomainProxy 0 ''p1''"])
      (intro conjI t r au i)
qed

end
