(* ===== verification/CliBase.thy ===== *)
theory CliBase
  imports HttpBase "HOL-Library.List_Lexorder" "HOL-Library.Char_ord"
begin

text \<open>
  What the command line client (\<open>sysplane-cli/cli.go\<close>) uses of Go's standard library beyond what the
  server uses: package \<open>flag\<close>, the queries of \<open>net/url\<close>, \<open>strconv.ParseInt\<close> with base 0, \<open>strconv.ParseBool\<close>,
  \<open>url.PathEscape\<close> and \<open>strings.TrimRight\<close>.
\<close>

section \<open>Numbers and booleans\<close>

definition lowerChar :: "char \<Rightarrow> char" where
  "lowerChar c = (if 65 \<le> (of_char c :: nat) \<and> (of_char c :: nat) \<le> 90 then char_of ((of_char c :: nat) + 32) else c)"

text \<open>The value of a digit of any base up to 36.\<close>

definition digitOf :: "char \<Rightarrow> nat option" where
  "digitOf c = (let n = (of_char (lowerChar c) :: nat) in
     if 48 \<le> n \<and> n \<le> 57 then Some (n - 48)
     else if 97 \<le> n \<and> n \<le> 122 then Some (n - 87) else None)"

text \<open>What \<open>strconv\<close> reports, by its text: \<open>ErrSyntax\<close> is \<open>parse error\<close> in package \<open>flag\<close>.\<close>

definition errParse :: string where "errParse = ''parse error''"
definition errRange :: string where "errRange = ''value out of range''"

text \<open>The loop of \<open>ParseUint\<close>, which stops at the first digit that leaves 64 bits.\<close>

fun digitsValue :: "nat \<Rightarrow> nat \<Rightarrow> string \<Rightarrow> string + nat" where
  "digitsValue b acc [] = Inr acc"
| "digitsValue b acc (c # s) =
     (if c = CHR ''_'' then digitsValue b acc s
      else (case digitOf c of
              None \<Rightarrow> Inl errParse
            | Some d \<Rightarrow>
                if \<not> d < b then Inl errParse
                else if \<not> int (acc * b + d) < 2 ^ 64 then Inl errRange
                else digitsValue b (acc * b + d) s))"

text \<open>\<open>underscoreOK\<close>: underscores stand between digits, or after the prefix of the base.\<close>

datatype lastSeen = SawStart | SawDigit | SawUnderscore | SawOther

fun underscoreLoop :: "bool \<Rightarrow> lastSeen \<Rightarrow> string \<Rightarrow> bool" where
  "underscoreLoop hex i [] = (i \<noteq> SawUnderscore)"
| "underscoreLoop hex i (c # s) =
     (if isDigit c \<or> hex \<and> 97 \<le> (of_char (lowerChar c) :: nat) \<and> (of_char (lowerChar c) :: nat) \<le> 102
      then underscoreLoop hex SawDigit s
      else if c = CHR ''_'' then i = SawDigit \<and> underscoreLoop hex SawUnderscore s
      else i \<noteq> SawUnderscore \<and> underscoreLoop hex SawOther s)"

definition basePrefix :: "string \<Rightarrow> nat option" where
  "basePrefix s =
     (if length s \<ge> 2 \<and> s ! 0 = CHR ''0'' then
        (let c = lowerChar (s ! 1) in
         if c = CHR ''b'' then Some 2 else if c = CHR ''o'' then Some 8 else if c = CHR ''x'' then Some 16 else None)
      else None)"

definition underscoreOK :: "string \<Rightarrow> bool" where
  "underscoreOK s =
     (case basePrefix s of
        Some b \<Rightarrow> underscoreLoop (b = 16) SawDigit (drop 2 s)
      | None \<Rightarrow> underscoreLoop False SawStart s)"

text \<open>\<open>strconv.ParseInt(s, 0, 64)\<close>: the base is that of the prefix; a leading 0 means base 8.\<close>

definition parseInt0 :: "string \<Rightarrow> string + int" where
  "parseInt0 s0 =
     (let neg = hasPrefix s0 ''-'';
          s = (if hasPrefix s0 ''-'' \<or> hasPrefix s0 ''+'' then drop 1 s0 else s0);
          (b, ds) = (case basePrefix s of
                       Some b \<Rightarrow> if length s \<ge> 3 then (b, drop 2 s) else (8, drop 1 s)
                     | None \<Rightarrow> if s \<noteq> [] \<and> s ! 0 = CHR ''0'' then (8, drop 1 s) else (10, s))
      in if s = [] then Inl errParse
         else (case digitsValue b 0 ds of
                 Inl e \<Rightarrow> Inl e
               | Inr n \<Rightarrow>
                   if CHR ''_'' \<in> set ds \<and> \<not> underscoreOK s then Inl errParse
                   else (let i = (if neg then - int n else int n) in if isInt64 i then Inr i else Inl errRange)))"

definition parseBool :: "string \<Rightarrow> string + bool" where
  "parseBool s =
     (if s \<in> {''1'', ''t'', ''T'', ''TRUE'', ''true'', ''True''} then Inr True
      else if s \<in> {''0'', ''f'', ''F'', ''FALSE'', ''false'', ''False''} then Inr False else Inl errParse)"

section \<open>Package flag\<close>

text \<open>A flag set maps each name to its value, which starts as the default and keeps its type.\<close>

datatype flagVal = FStr string | FInt int | FBool bool

type_synonym flagSet = "flagVal gomap"

fun setFlag :: "flagVal \<Rightarrow> string \<Rightarrow> string + flagVal" where
  "setFlag (FStr _) v = Inr (FStr v)"
| "setFlag (FInt _) v = map_sum id FInt (parseInt0 v)"
| "setFlag (FBool _) v = map_sum id FBool (parseBool v)"

datatype flagStep = FlagStop "string list" | FlagSet flagSet "string list" | FlagHelp | FlagFail goerr

text \<open>\<open>parseOne\<close>: one flag with its argument.\<close>

definition assignFlag :: "flagSet \<Rightarrow> string \<Rightarrow> string option \<Rightarrow> string list \<Rightarrow> flagStep" where
  "assignFlag fs name val rest =
     (case map_of fs name of
        None \<Rightarrow>
          if name = ''help'' \<or> name = ''h'' then FlagHelp
          else FlagFail (ErrText (''flag provided but not defined: -'' @ name))
      | Some old \<Rightarrow>
          (let isBool = (case old of FBool _ \<Rightarrow> True | _ \<Rightarrow> False);
               (arg, rest') = (case val of
                   Some v \<Rightarrow> (Some v, rest)
                 | None \<Rightarrow> if isBool then (Some ''true'', rest)
                           else (case rest of [] \<Rightarrow> (None, []) | v # r \<Rightarrow> (Some v, r)))
           in (case arg of
                 None \<Rightarrow> FlagFail (ErrText (''flag needs an argument: -'' @ name))
               | Some v \<Rightarrow>
                   (case setFlag old v of
                      Inl e \<Rightarrow> FlagFail (ErrText ((if isBool then ''invalid boolean value '' else ''invalid value '') @
                        quoteStr v @ (if isBool then '' for -'' else '' for flag -'') @ name @ '': '' @ e))
                    | Inr x \<Rightarrow> FlagSet (AList.update name x fs) rest'))))"

definition parseOne :: "flagSet \<Rightarrow> string \<Rightarrow> string list \<Rightarrow> flagStep" where
  "parseOne fs s rest =
     (if length s < 2 \<or> s ! 0 \<noteq> CHR ''-'' then FlagStop (s # rest)
      else if s = ''--'' then FlagStop rest
      else
        (let nm = (if s ! 1 = CHR ''-'' then drop 2 s else drop 1 s) in
         if nm = [] \<or> nm ! 0 = CHR ''-'' \<or> nm ! 0 = CHR ''='' then FlagFail (ErrText (''bad flag syntax: '' @ s))
         else
           (let name = takeWhile (\<lambda>c. c \<noteq> CHR ''='') nm;
                val = (if CHR ''='' \<in> set nm then Some (drop (length name + 1) nm) else None)
            in assignFlag fs name val rest)))"

datatype flagResult = FlagsOk flagSet "string list" | HelpRequested | FlagsBad goerr

lemma assignFlag_shorter: "assignFlag fs name val rest = FlagSet fs' rest' \<Longrightarrow> length rest' \<le> length rest"
  by (auto simp: assignFlag_def Let_def split: option.splits sum.splits flagVal.splits list.splits if_splits)

lemma parseOne_shorter: "parseOne fs s rest = FlagSet fs' rest' \<Longrightarrow> length rest' \<le> length rest"
  by (auto simp: parseOne_def Let_def split: if_splits dest: assignFlag_shorter)

text \<open>\<open>FlagSet.Parse\<close>: it stops at the first argument that is no flag.\<close>

function parseFlags :: "flagSet \<Rightarrow> string list \<Rightarrow> flagResult" where
  "parseFlags fs [] = FlagsOk fs []"
| "parseFlags fs (s # rest) =
     (case parseOne fs s rest of
        FlagStop r \<Rightarrow> FlagsOk fs r
      | FlagHelp \<Rightarrow> HelpRequested
      | FlagFail e \<Rightarrow> FlagsBad e
      | FlagSet fs' rest' \<Rightarrow> parseFlags fs' rest')"
  by pat_completeness auto
termination
  by (relation "measure (\<lambda>(fs, as). length as)") (auto dest: parseOne_shorter)

definition flagStr :: "flagSet \<Rightarrow> string \<Rightarrow> string" where
  "flagStr fs k = (case map_of fs k of Some (FStr s) \<Rightarrow> s | _ \<Rightarrow> [])"

definition flagInt :: "flagSet \<Rightarrow> string \<Rightarrow> int" where
  "flagInt fs k = (case map_of fs k of Some (FInt n) \<Rightarrow> n | _ \<Rightarrow> 0)"

definition flagBool :: "flagSet \<Rightarrow> string \<Rightarrow> bool" where
  "flagBool fs k = (case map_of fs k of Some (FBool b) \<Rightarrow> b | _ \<Rightarrow> False)"

section \<open>Escaping a path segment\<close>

definition upperHex :: "nat \<Rightarrow> char" where
  "upperHex d = (if d < 10 then char_of (48 + d) else char_of (55 + d))"

text \<open>The bytes that \<open>url.PathEscape\<close> leaves as they are.\<close>

definition plainInSegment :: "char \<Rightarrow> bool" where
  "plainInSegment c \<longleftrightarrow> isDigit c \<or> 97 \<le> (of_char (lowerChar c) :: nat) \<and> (of_char (lowerChar c) :: nat) \<le> 122 \<or>
     c \<in> set ''-_.~$&+:=@''"

fun pathEscape :: "string \<Rightarrow> string" where
  "pathEscape [] = []"
| "pathEscape (c # s) =
     (if plainInSegment c then c # pathEscape s
      else CHR ''%'' # upperHex ((of_char c :: nat) div 16) # upperHex ((of_char c :: nat) mod 16) # pathEscape s)"

definition trimRight :: "char \<Rightarrow> string \<Rightarrow> string" where
  "trimRight c s = rev (dropWhile (\<lambda>x. x = c) (rev s))"

section \<open>Queries\<close>

text \<open>\<open>url.QueryEscape\<close> and \<open>Values.Encode\<close>, which sorts by key; each key has one value.\<close>

definition plainInQuery :: "char \<Rightarrow> bool" where
  "plainInQuery c \<longleftrightarrow> isDigit c \<or> 97 \<le> (of_char (lowerChar c) :: nat) \<and> (of_char (lowerChar c) :: nat) \<le> 122 \<or>
     c \<in> set ''-_.~''"

fun queryEscape :: "string \<Rightarrow> string" where
  "queryEscape [] = []"
| "queryEscape (c # s) =
     (if c = CHR '' '' then CHR ''+'' # queryEscape s
      else if plainInQuery c then c # queryEscape s
      else CHR ''%'' # upperHex ((of_char c :: nat) div 16) # upperHex ((of_char c :: nat) mod 16) # queryEscape s)"

definition encodeQuery :: "(string \<times> string) list \<Rightarrow> string" where
  "encodeQuery q = joinOn CHR ''&'' (List.map (\<lambda>(k, v). queryEscape k @ CHR ''='' # queryEscape v) (sort_key fst q))"

text \<open>\<open>url.QueryUnescape\<close>, and \<open>parseQuery\<close>, which drops the pairs that it cannot read.\<close>

definition queryUnescape :: "string \<Rightarrow> string option" where
  "queryUnescape s = pathUnescape (replaceChar CHR ''+'' CHR '' '' s)"

definition parsePair :: "string \<Rightarrow> (string \<times> string) list" where
  "parsePair p =
     (if p = [] \<or> CHR '';'' \<in> set p then []
      else (let k = takeWhile (\<lambda>c. c \<noteq> CHR ''='') p in
            case (queryUnescape k, queryUnescape (drop (length k + 1) p)) of
              (Some a, Some b) \<Rightarrow> [(a, b)]
            | _ \<Rightarrow> []))"

definition parseQuery :: "string \<Rightarrow> (string \<times> string) list" where
  "parseQuery s = concat (List.map parsePair (splitOn CHR ''&'' s))"

section \<open>Facts\<close>

lemma of_char_less: "(of_char (c :: char) :: nat) < 256"
  by (rule nat_of_char_less_256)

lemma unhex_upperHex: "d < 16 \<Longrightarrow> unhex (upperHex d) = Some d"
  by (auto simp: unhex_def upperHex_def Let_def)

theorem pathUnescape_pathEscape: "pathUnescape (pathEscape s) = Some s"
proof (induction s)
  case (Cons c s)
  show ?case
  proof (cases "plainInSegment c")
    case True
    then have "c \<noteq> CHR ''%''" by (auto simp: plainInSegment_def isDigit_def lowerChar_def)
    with True Cons show ?thesis by simp
  next
    case False
    let ?n = "(of_char c :: nat)"
    have "?n div 16 < 16" using of_char_less [of c] by (simp add: less_mult_imp_div_less)
    then have "unhex (upperHex (?n div 16)) = Some (?n div 16)" "unhex (upperHex (?n mod 16)) = Some (?n mod 16)"
      by (simp_all add: unhex_upperHex)
    with False Cons show ?thesis by simp
  qed
qed simp

lemma upperHex_plain:
  assumes "d < 16" shows "plainInQuery (upperHex d)"
using assms by (cases "d < 10") (auto simp: plainInQuery_def upperHex_def isDigit_def lowerChar_def)

lemma plainInQuery_not:
  "plainInQuery c \<Longrightarrow> c \<notin> {CHR ''%'', CHR ''+'', CHR ''&'', CHR ''='', CHR '';'', CHR '' ''}"
  by (auto simp: plainInQuery_def isDigit_def lowerChar_def)

lemma queryEscape_chars: "c \<in> set (queryEscape s) \<Longrightarrow> plainInQuery c \<or> c = CHR ''+'' \<or> c = CHR ''%''"
proof (induction s)
  case (Cons x s)
  have "(of_char x :: nat) div 16 < 16" using of_char_less [of x] by (simp add: less_mult_imp_div_less)
  with Cons show ?case by (auto split: if_splits simp: upperHex_plain)
qed simp

lemma queryEscape_no: "c \<in> {CHR ''&'', CHR ''='', CHR '';''} \<Longrightarrow> c \<notin> set (queryEscape s)"
  by (auto dest!: queryEscape_chars plainInQuery_not)

lemma queryUnescape_queryEscape [simp]: "queryUnescape (queryEscape s) = Some s"
proof (induction s)
  case (Cons c s)
  let ?n = "(of_char c :: nat)"
  have d: "?n div 16 < 16" "?n mod 16 < 16"
    using of_char_less [of c] by (simp_all add: less_mult_imp_div_less)
  then have "upperHex (?n div 16) \<noteq> CHR ''+''" "upperHex (?n mod 16) \<noteq> CHR ''+''"
    using plainInQuery_not [OF upperHex_plain] by blast+
  with Cons d show ?case
    by (auto simp: queryUnescape_def replaceChar_def unhex_upperHex dest: plainInQuery_not)
qed (simp add: queryUnescape_def replaceChar_def)

lemma parsePair_escape: "parsePair (queryEscape k @ CHR ''='' # queryEscape v) = [(k, v)]"
proof -
  have "CHR ''='' \<notin> set (queryEscape k)" "CHR '';'' \<notin> set (queryEscape k)" "CHR '';'' \<notin> set (queryEscape v)"
    by (simp_all add: queryEscape_no)
  moreover from this(1)
  have "takeWhile (\<lambda>c. c \<noteq> CHR ''='') (queryEscape k @ CHR ''='' # queryEscape v) = queryEscape k"
    by (subst takeWhile_append2) auto
  ultimately show ?thesis by (simp add: parsePair_def Let_def)
qed

theorem parseQuery_encodeQuery: "parseQuery (encodeQuery q) = sort_key fst q"
proof -
  let ?f = "\<lambda>(k, v). queryEscape k @ CHR ''='' # queryEscape v"
  have n: "CHR ''&'' \<notin> set (?f p)" for p by (cases p) (simp add: queryEscape_no)
  have p: "concat (List.map parsePair (List.map ?f ps)) = ps" for ps
    by (induction ps) (auto simp: parsePair_escape)
  show ?thesis
  proof (cases "q = []")
    case False
    then have ne: "sort_key fst q \<noteq> []" by (metis length_0_conv length_sort)
    then have "splitOn CHR ''&'' (encodeQuery q) = List.map ?f (sort_key fst q)"
      unfolding encodeQuery_def by (intro splitOn_joinOn) (use n in auto)
    with p show ?thesis by (simp add: parseQuery_def)
  qed (simp add: encodeQuery_def parseQuery_def parsePair_def)
qed

lemma parse_examples:
  "parseInt0 ''-0x1F'' = Inr (- 31)" "parseInt0 ''1_000'' = Inr 1000" "parseInt0 ''1__0'' = Inl errParse"
  "parseInt0 ''08'' = Inl errParse"
  by code_simp+

lemma flag_example:
  "parseFlags [(''limit'', FInt 50), (''async'', FBool False)] [''--limit=0x10'', ''-async'', ''x'', ''--limit'', ''1''] =
     FlagsOk [(''limit'', FInt 16), (''async'', FBool True)] [''x'', ''--limit'', ''1'']"
  by code_simp

end
