(* ===== verification/Cli.thy ===== *)
theory Cli
  imports CliBase AdminTypes
begin

text \<open>
  The command line client (package \<open>internal/sysplane-cli\<close>, cli.go): the flags of each command, the requests
  that it sends to a center and the value that it prints.

  A function takes the requests that the client has handed to its \<open>http.Client\<close> so far and gives its
  result with the requests after it.  What is outside is \<open>cliEnv\<close>: the environment variables, the
  files, the ids of package \<open>uuid\<close>, and the answer to the last request of a list.  As everywhere in
  this development JSON text stands for its value, so \<open>json.Unmarshal\<close> of a text is an argument too.
  The usage texts on standard error are not modelled.
\<close>

section \<open>Requests and answers\<close>

record cliRequest =
  ckMethod :: string
  ckURL :: string
  ckAuthorization :: string
  ckAccept :: string
  ckRequestId :: string
  ckContentType :: string
  ckBody :: "json option"

text \<open>
  \<open>csBody\<close> is the first JSON value of the body; \<open>csRest\<close> is what is left of the body once the
  JSON decoder has read from it.
\<close>

record cliResponse =
  csCode :: int
  csStatus :: string
  csBody :: "goerr + json"
  csRest :: string

record cliEnv =
  cvGetenv :: "string \<Rightarrow> string"
  cvReadFile :: "string \<Rightarrow> goerr + string"
  cvUnmarshal :: "string \<Rightarrow> goerr + json"
  cvParseURL :: "string \<Rightarrow> goerr option"
  cvUuid :: "nat \<Rightarrow> string"
  cvAnswer :: "cliRequest list \<Rightarrow> goerr + cliResponse"

text \<open>The two fields of \<open>App\<close> that \<open>Run\<close> sets.\<close>

record cliApp =
  apBaseURL :: string
  apToken :: string

text \<open>What a command ends with: an error, or success with the value printed, if any.\<close>

type_synonym cliResult = "(goerr + json option) \<times> cliRequest list"

section \<open>Helpers\<close>

definition firstNonEmpty :: "string list \<Rightarrow> string" where
  "firstNonEmpty vs = (case find (\<lambda>v. trimSpace v \<noteq> []) vs of Some v \<Rightarrow> v | None \<Rightarrow> [])"

definition normalizeActionName :: "string \<Rightarrow> string" where
  "normalizeActionName raw = replaceChar CHR '':'' CHR ''.'' (trimSpace raw)"

definition isBuiltinAction :: "string \<Rightarrow> bool" where
  "isBuiltinAction action \<longleftrightarrow> normalizeActionName action \<in>
     {''fs.list'', ''fs.read'', ''fs.stat'', ''fs.write'', ''sys.info'', ''sys.hardware''}"

definition splitCSV :: "string \<Rightarrow> string list" where
  "splitCSV raw = filter (\<lambda>p. p \<noteq> []) (List.map trimSpace (splitOn CHR '','' raw))"

definition targetNodeList :: "string \<Rightarrow> string \<Rightarrow> string list" where
  "targetNodeList single multi =
     (if trimSpace single \<noteq> [] then trimSpace single # splitCSV multi else splitCSV multi)"

definition readTextSource :: "cliEnv \<Rightarrow> string \<Rightarrow> string \<Rightarrow> goerr + string" where
  "readTextSource env data file =
     (if data \<noteq> [] \<and> file \<noteq> [] then Inl (ErrText ''use either inline JSON or --file/--params-file'')
      else if file = [] then Inr data
      else cvReadFile env (clean file))"

text \<open>A body that is JSON null is a nil interface, and no body at all for \<open>request\<close>.\<close>

definition resolveJSONBody :: "cliEnv \<Rightarrow> string \<Rightarrow> string \<Rightarrow> goerr + json option" where
  "resolveJSONBody env data file =
     (case readTextSource env data file of
        Inl e \<Rightarrow> Inl e
      | Inr raw \<Rightarrow>
          if trimSpace raw = [] then Inl (ErrText ''JSON body is required'')
          else (case cvUnmarshal env raw of
                  Inl e \<Rightarrow> Inl e
                | Inr v \<Rightarrow> Inr (if v = JNull then None else Some v)))"

definition resolveJSONObject :: "cliEnv \<Rightarrow> string \<Rightarrow> string \<Rightarrow> goerr + jobj" where
  "resolveJSONObject env data file =
     (case readTextSource env data file of
        Inl e \<Rightarrow> Inl e
      | Inr raw \<Rightarrow>
          if trimSpace raw = [] then Inr []
          else (case cvUnmarshal env raw of
                  Inl e \<Rightarrow> Inl e
                | Inr v \<Rightarrow>
                    (case decodeMap v of
                       None \<Rightarrow> Inl (unmarshalError ''value into Go value of type map[string]interface {}'')
                     | Some m \<Rightarrow> Inr m)))"

section \<open>Decoding answers\<close>

text \<open>A field that the struct does not have is skipped.\<close>

record apiErrorText =
  etCode :: string
  etMessage :: string
  etRequestID :: string

definition errorTextField :: "string \<Rightarrow> json \<Rightarrow> apiErrorText \<Rightarrow> goerr + apiErrorText" where
  "errorTextField k v x =
     (let f = foldName k in
      if f = ''code'' then setField f (decodeStr v) v x (\<lambda>a. x\<lparr>etCode := a\<rparr>)
      else if f = ''message'' then setField f (decodeStr v) v x (\<lambda>a. x\<lparr>etMessage := a\<rparr>)
      else if f = ''request_id'' then setField f (decodeStr v) v x (\<lambda>a. x\<lparr>etRequestID := a\<rparr>)
      else Inr x)"

definition errorEnvelopeField :: "string \<Rightarrow> json \<Rightarrow> apiErrorText \<Rightarrow> goerr + apiErrorText" where
  "errorEnvelopeField k v x = (if foldName k = ''error'' then decodeStruct errorTextField v x else Inr x)"

fun decodeEach :: "(json \<Rightarrow> goerr + 'a) \<Rightarrow> json list \<Rightarrow> goerr + 'a list" where
  "decodeEach dec [] = Inr []"
| "decodeEach dec (v # vs) =
     (case dec v of Inl e \<Rightarrow> Inl e
      | Inr x \<Rightarrow> (case decodeEach dec vs of Inl e \<Rightarrow> Inl e | Inr xs \<Rightarrow> Inr (x # xs)))"

definition decodeSlice :: "(json \<Rightarrow> goerr + 'a) \<Rightarrow> json \<Rightarrow> goerr + 'a list option" where
  "decodeSlice dec v =
     (case v of
        JNull \<Rightarrow> Inr None
      | JArr vs \<Rightarrow> (case decodeEach dec vs of Inl e \<Rightarrow> Inl e | Inr xs \<Rightarrow> Inr (Some xs))
      | _ \<Rightarrow> Inl (unmarshalError ''value into Go slice''))"

record templateRef =
  trID :: string
  trName :: string

definition templateRefField :: "string \<Rightarrow> json \<Rightarrow> templateRef \<Rightarrow> goerr + templateRef" where
  "templateRefField k v x =
     (let f = foldName k in
      if f = ''id'' then setField f (decodeStr v) v x (\<lambda>a. x\<lparr>trID := a\<rparr>)
      else if f = ''name'' then setField f (decodeStr v) v x (\<lambda>a. x\<lparr>trName := a\<rparr>)
      else Inr x)"

definition refPageField :: "string \<Rightarrow> json \<Rightarrow> templateRef listPage \<Rightarrow> goerr + templateRef listPage" where
  "refPageField k v x =
     (let f = foldName k in
      if f = ''items'' then
        (case decodeSlice (\<lambda>i. decodeStruct templateRefField i \<lparr>trID = [], trName = []\<rparr>) v of
           Inl e \<Rightarrow> Inl e
         | Inr xs \<Rightarrow> Inr (x\<lparr>pgItems := (case xs of None \<Rightarrow> [] | Some ys \<Rightarrow> ys)\<rparr>))
      else if f = ''next_cursor'' then setField f (decodeStr v) v x (\<lambda>a. x\<lparr>pgNextCursor := a\<rparr>)
      else Inr x)"

text \<open>The response of \<open>commands invoke\<close>: a map may be nil, a result keeps its data and its error.\<close>

record cliResultItem =
  cirData :: "jobj option"
  cirError :: json

record cliInvocation =
  cinInvocation :: "jobj option"
  cinResults :: "cliResultItem list option"

definition decodeMapOrNil :: "json \<Rightarrow> jobj option option" where
  "decodeMapOrNil v = (if v = JNull then Some None else map_option Some (decodeMap v))"

definition resultItemField :: "string \<Rightarrow> json \<Rightarrow> cliResultItem \<Rightarrow> goerr + cliResultItem" where
  "resultItemField k v x =
     (let f = foldName k in
      if f = ''data'' then setNilable f (decodeMapOrNil v) (\<lambda>a. x\<lparr>cirData := a\<rparr>)
      else if f = ''error'' then Inr (x\<lparr>cirError := v\<rparr>)
      else Inr x)"

definition cliInvocationField :: "string \<Rightarrow> json \<Rightarrow> cliInvocation \<Rightarrow> goerr + cliInvocation" where
  "cliInvocationField k v x =
     (let f = foldName k in
      if f = ''invocation'' then setNilable f (decodeMapOrNil v) (\<lambda>a. x\<lparr>cinInvocation := a\<rparr>)
      else if f = ''results'' then
        (case decodeSlice (\<lambda>i. decodeStruct resultItemField i \<lparr>cirData = None, cirError = JNull\<rparr>) v of
           Inl e \<Rightarrow> Inl e
         | Inr xs \<Rightarrow> Inr (x\<lparr>cinResults := xs\<rparr>))
      else Inr x)"

definition nilableObj :: "jobj option \<Rightarrow> json" where
  "nilableObj m = (case m of None \<Rightarrow> JNull | Some x \<Rightarrow> JObj x)"

text \<open>\<open>json.Marshal\<close> of the response, which \<open>printJSON\<close> writes.\<close>

definition cliInvocationJson :: "cliInvocation \<Rightarrow> json" where
  "cliInvocationJson x = JObj
     [(''invocation'', nilableObj (cinInvocation x)),
      (''results'', (case cinResults x of
         None \<Rightarrow> JNull
       | Some rs \<Rightarrow> JArr (List.map (\<lambda>r. JObj [(''data'', nilableObj (cirData r)), (''error'', cirError r)]) rs)))]"

section \<open>Sending\<close>

definition cliFailure :: "cliResponse \<Rightarrow> goerr" where
  "cliFailure resp =
     (let plain = ErrText (''http '' @ csStatus resp @ '': '' @ trimSpace (csRest resp)) in
      case csBody resp of
        Inl e \<Rightarrow> plain
      | Inr v \<Rightarrow>
          (case decodeStruct errorEnvelopeField v \<lparr>etCode = [], etMessage = [], etRequestID = []\<rparr> of
             Inl e \<Rightarrow> plain
           | Inr x \<Rightarrow>
               if etCode x \<noteq> [] then ErrText (etCode x @ '': '' @ etMessage x @ '' (request_id='' @ etRequestID x @ '')'')
               else plain))"

text \<open>\<open>request\<close>: \<open>decode\<close> is the decoding into the type of \<open>out\<close>.\<close>

definition cliSend ::
  "cliEnv \<Rightarrow> cliApp \<Rightarrow> string \<Rightarrow> string \<Rightarrow> (string \<times> string) list \<Rightarrow> json option \<Rightarrow> (json \<Rightarrow> goerr + 'a) \<Rightarrow>
   cliRequest list \<Rightarrow> (goerr + 'a) \<times> cliRequest list" where
  "cliSend env a method path query body decode tr =
     (let url = apBaseURL a @ path @ (if query \<noteq> [] then CHR ''?'' # encodeQuery query else []) in
      case cvParseURL env url of
        Some e \<Rightarrow> (Inl e, tr)
      | None \<Rightarrow>
          (let tr' = tr @ [\<lparr>ckMethod = method, ckURL = url, ckAuthorization = ''Bearer '' @ apToken a,
                 ckAccept = ''application/json'', ckRequestId = ''cli-'' @ cvUuid env (length tr),
                 ckContentType = (if body \<noteq> None then ''application/json'' else []), ckBody = body\<rparr>]
           in ((case cvAnswer env tr' of
                  Inl e \<Rightarrow> Inl e
                | Inr resp \<Rightarrow>
                    if csCode resp < 200 \<or> csCode resp \<ge> 300 then Inl (cliFailure resp)
                    else (case csBody resp of Inl e \<Rightarrow> Inl e | Inr v \<Rightarrow> decode v)), tr')))"

text \<open>A request into a variable of type \<open>any\<close> and the printing of it.\<close>

definition cliFetch ::
  "cliEnv \<Rightarrow> cliApp \<Rightarrow> string \<Rightarrow> string \<Rightarrow> (string \<times> string) list \<Rightarrow> json option \<Rightarrow> cliRequest list \<Rightarrow> cliResult" where
  "cliFetch env a method path query body tr =
     (case cliSend env a method path query body Inr tr of
        (Inl e, tr') \<Rightarrow> (Inl e, tr')
      | (Inr v, tr') \<Rightarrow> (Inr (Some v), tr'))"

text \<open>\<open>resolveTemplateRef\<close>: the id of the template of that name; any failure leaves the name as it is.\<close>

definition resolveTemplateRef :: "cliEnv \<Rightarrow> cliApp \<Rightarrow> string \<Rightarrow> cliRequest list \<Rightarrow> string \<times> cliRequest list" where
  "resolveTemplateRef env a ref tr =
     (case cliSend env a ''GET'' ''/v1/command-templates'' [(''name'', ref), (''limit'', ''200'')] None
            (\<lambda>v. decodeStruct refPageField v \<lparr>pgItems = [], pgNextCursor = []\<rparr>) tr of
        (Inl e, tr') \<Rightarrow> (ref, tr')
      | (Inr page, tr') \<Rightarrow>
          (case find (\<lambda>t. trName t = ref \<or> trID t = ref) (pgItems page) of
             None \<Rightarrow> (ref, tr')
           | Some t \<Rightarrow> (trID t, tr')))"

definition resolveCommandAction ::
  "cliEnv \<Rightarrow> cliApp \<Rightarrow> string \<Rightarrow> string \<Rightarrow> cliRequest list \<Rightarrow> (goerr + string \<times> string) \<times> cliRequest list" where
  "resolveCommandAction env a ref requestedType tr =
     (let normalized = normalizeActionName ref;
          template = (let (tid, tr') = resolveTemplateRef env a ref tr in (Inr (tid, ''command_template''), tr'))
      in if requestedType \<in> {[], ''auto''} then
           (if isBuiltinAction normalized then (Inr (normalized, ''builtin''), tr) else template)
         else if requestedType = ''builtin'' then
           (if \<not> isBuiltinAction normalized then (Inl (ErrText (''unsupported builtin action '' @ quoteStr ref)), tr)
            else (Inr (normalized, ''builtin''), tr))
         else if requestedType = ''command_template'' then template
         else (Inl (ErrText ''action-type must be auto, builtin, or command_template''), tr))"

section \<open>Commands\<close>

definition withFlags ::
  "flagSet \<Rightarrow> string list \<Rightarrow> (flagSet \<Rightarrow> cliRequest list \<Rightarrow> cliResult) \<Rightarrow> cliRequest list \<Rightarrow> cliResult" where
  "withFlags fs args k tr =
     (case parseFlags fs args of
        HelpRequested \<Rightarrow> (Inr None, tr)
      | FlagsBad e \<Rightarrow> (Inl e, tr)
      | FlagsOk fs' rest \<Rightarrow> k fs' tr)"

text \<open>The query of a listing: a parameter without a value is left out.\<close>

definition queryOf :: "(string \<times> string) list \<Rightarrow> (string \<times> string) list" where
  "queryOf = filter (\<lambda>(k, v). v \<noteq> [])"

definition limitParam :: "flagSet \<Rightarrow> string" where
  "limitParam fs = (if flagInt fs ''limit'' > 0 then showInt (flagInt fs ''limit'') else [])"

definition listFlags :: "string list \<Rightarrow> flagSet" where
  "listFlags names = (''limit'', FInt 50) # List.map (\<lambda>n. (n, FStr [])) names"

definition cliError :: "string \<Rightarrow> cliRequest list \<Rightarrow> cliResult" where
  "cliError msg tr = (Inl (ErrText msg), tr)"

definition runNodes :: "cliEnv \<Rightarrow> cliApp \<Rightarrow> string list \<Rightarrow> cliRequest list \<Rightarrow> cliResult" where
  "runNodes env a args tr =
     (case args of
        [] \<Rightarrow> cliError ''nodes requires a subcommand'' tr
      | cmd # rest \<Rightarrow>
          if cmd = ''list'' then
            withFlags (listFlags [''cursor'', ''hostname'', ''status'']) rest (\<lambda>fs.
              cliFetch env a ''GET'' ''/v1/nodes''
                (queryOf [(''limit'', limitParam fs), (''cursor'', flagStr fs ''cursor''),
                  (''hostname'', flagStr fs ''hostname''), (''status'', flagStr fs ''status'')]) None) tr
          else if cmd = ''get'' then
            (case rest of
               [node] \<Rightarrow> cliFetch env a ''GET'' (''/v1/nodes/'' @ pathEscape node) [] None tr
             | _ \<Rightarrow> cliError ''usage: sysplane nodes get <node-id>'' tr)
          else if cmd = ''capabilities'' then
            (case rest of
               [node] \<Rightarrow> cliFetch env a ''GET'' (''/v1/nodes/'' @ pathEscape node @ ''/capabilities'') [] None tr
             | _ \<Rightarrow> cliError ''usage: sysplane nodes capabilities <node-id>'' tr)
          else cliError (''unknown nodes subcommand '' @ quoteStr cmd) tr)"

text \<open>The flags that \<open>commands invoke\<close> and \<open>invocations create\<close> share.\<close>

definition invokeFlags :: "flagSet" where
  "invokeFlags = [(''node'', FStr []), (''nodes'', FStr []), (''params'', FStr ''{}''), (''params-file'', FStr []),
     (''timeout'', FInt 0), (''async'', FBool False)]"

definition invokePayload :: "string \<Rightarrow> string \<Rightarrow> jobj \<Rightarrow> flagSet \<Rightarrow> json" where
  "invokePayload action actionType params fs = JObj
     ([(''action'', JStr action), (''action_type'', JStr actionType), (''async'', JBool (flagBool fs ''async'')),
       (''params'', JObj params),
       (''targets'', JObj [(''node_ids'', JArr (List.map JStr (targetNodeList (flagStr fs ''node'') (flagStr fs ''nodes''))))])] @
      (if flagInt fs ''timeout'' > 0 then [(''timeout_sec'', JNum (of_int (flagInt fs ''timeout'')))] else []))"

definition invokeCommand ::
  "cliEnv \<Rightarrow> cliApp \<Rightarrow> string \<Rightarrow> flagSet \<Rightarrow> cliRequest list \<Rightarrow> cliResult" where
  "invokeCommand env a ref fs tr =
     (case resolveJSONObject env (flagStr fs ''params'') (flagStr fs ''params-file'') of
        Inl e \<Rightarrow> (Inl e, tr)
      | Inr params \<Rightarrow>
          (case resolveCommandAction env a ref (flagStr fs ''action-type'') tr of
             (Inl e, tr1) \<Rightarrow> (Inl e, tr1)
           | (Inr (action, actionType), tr1) \<Rightarrow>
               (case cliSend env a ''POST'' ''/v1/invocations'' [] (Some (invokePayload action actionType params fs))
                      (\<lambda>v. decodeStruct cliInvocationField v \<lparr>cinInvocation = None, cinResults = None\<rparr>) tr1 of
                  (Inl e, tr2) \<Rightarrow> (Inl e, tr2)
                | (Inr x, tr2) \<Rightarrow> (Inr (Some (cliInvocationJson x)), tr2))))"

definition runCommands :: "cliEnv \<Rightarrow> cliApp \<Rightarrow> string list \<Rightarrow> cliRequest list \<Rightarrow> cliResult" where
  "runCommands env a args tr =
     (case args of
        [] \<Rightarrow> cliError ''commands requires a subcommand'' tr
      | cmd # rest \<Rightarrow>
          if cmd = ''invoke'' then
            (case rest of
               [] \<Rightarrow> cliError
                 (''usage: sysplane commands invoke <action-or-template> --node <node-id> [--params '' @
                  [CHR 0x27] @ ''{}'' @ [CHR 0x27] @ '']'') tr
             | ref # flags \<Rightarrow>
                 withFlags ((''action-type'', FStr ''auto'') # invokeFlags) flags (invokeCommand env a ref) tr)
          else cliError (''unknown commands subcommand '' @ quoteStr cmd) tr)"

text \<open>\<open>templates create\<close> and \<open>templates update\<close> after the reference.\<close>

definition sendTemplate ::
  "cliEnv \<Rightarrow> cliApp \<Rightarrow> string \<Rightarrow> string \<Rightarrow> string list \<Rightarrow> cliRequest list \<Rightarrow> cliResult" where
  "sendTemplate env a method path flags =
     withFlags [(''file'', FStr []), (''data'', FStr [])] flags (\<lambda>fs tr.
       case resolveJSONBody env (flagStr fs ''data'') (flagStr fs ''file'') of
         Inl e \<Rightarrow> (Inl e, tr)
       | Inr body \<Rightarrow> cliFetch env a method path [] body tr)"

definition runTemplates :: "cliEnv \<Rightarrow> cliApp \<Rightarrow> string list \<Rightarrow> cliRequest list \<Rightarrow> cliResult" where
  "runTemplates env a args tr =
     (case args of
        [] \<Rightarrow> cliError ''templates requires a subcommand'' tr
      | cmd # rest \<Rightarrow>
          if cmd = ''list'' then
            withFlags (listFlags [''name'', ''risk-level'', ''target-os'', ''enabled'']) rest (\<lambda>fs.
              cliFetch env a ''GET'' ''/v1/command-templates''
                (queryOf [(''limit'', limitParam fs), (''name'', flagStr fs ''name''),
                  (''risk_level'', flagStr fs ''risk-level''), (''target_os'', flagStr fs ''target-os''),
                  (''enabled'', flagStr fs ''enabled'')]) None) tr
          else if cmd = ''get'' then
            (case rest of
               [ref] \<Rightarrow>
                 (let (tid, tr') = resolveTemplateRef env a ref tr
                  in cliFetch env a ''GET'' (''/v1/command-templates/'' @ pathEscape tid) [] None tr')
             | _ \<Rightarrow> cliError ''usage: sysplane templates get <template-id-or-name>'' tr)
          else if cmd = ''create'' then sendTemplate env a ''POST'' ''/v1/command-templates'' rest tr
          else if cmd = ''update'' then
            (case rest of
               [] \<Rightarrow> cliError ''usage: sysplane templates update <template-id-or-name> --file patch.json'' tr
             | ref # flags \<Rightarrow>
                 (let (tid, tr') = resolveTemplateRef env a ref tr
                  in sendTemplate env a ''PATCH'' (''/v1/command-templates/'' @ pathEscape tid) flags tr'))
          else cliError (''unknown templates subcommand '' @ quoteStr cmd) tr)"

definition createCommand :: "cliEnv \<Rightarrow> cliApp \<Rightarrow> flagSet \<Rightarrow> cliRequest list \<Rightarrow> cliResult" where
  "createCommand env a fs tr =
     (let action = flagStr fs ''action''; actionType = flagStr fs ''action-type'' in
      if action = [] then cliError ''action is required'' tr
      else (case resolveJSONObject env (flagStr fs ''params'') (flagStr fs ''params-file'') of
              Inl e \<Rightarrow> (Inl e, tr)
            | Inr params \<Rightarrow>
                (let (resolved, tr') =
                       (if actionType = ''command_template'' then resolveTemplateRef env a action tr else (action, tr))
                 in cliFetch env a ''POST'' ''/v1/invocations'' [] (Some (invokePayload resolved actionType params fs)) tr')))"

definition runInvocations :: "cliEnv \<Rightarrow> cliApp \<Rightarrow> string list \<Rightarrow> cliRequest list \<Rightarrow> cliResult" where
  "runInvocations env a args tr =
     (case args of
        [] \<Rightarrow> cliError ''invocations requires a subcommand'' tr
      | cmd # rest \<Rightarrow>
          if cmd = ''list'' then
            withFlags (listFlags [''status'', ''action'', ''action-type'']) rest (\<lambda>fs.
              cliFetch env a ''GET'' ''/v1/invocations''
                (queryOf [(''limit'', limitParam fs), (''status'', flagStr fs ''status''),
                  (''action'', flagStr fs ''action''), (''action_type'', flagStr fs ''action-type'')]) None) tr
          else if cmd = ''get'' then
            (case rest of
               [iv] \<Rightarrow> cliFetch env a ''GET'' (''/v1/invocations/'' @ pathEscape iv) [] None tr
             | _ \<Rightarrow> cliError ''usage: sysplane invocations get <invocation-id>'' tr)
          else if cmd = ''results'' then
            (case rest of
               [iv] \<Rightarrow> cliFetch env a ''GET'' (''/v1/invocations/'' @ pathEscape iv @ ''/results'') [] None tr
             | _ \<Rightarrow> cliError ''usage: sysplane invocations results <invocation-id>'' tr)
          else if cmd = ''cancel'' then
            (case rest of
               [iv] \<Rightarrow> cliFetch env a ''POST'' (''/v1/invocations/'' @ pathEscape iv @ '':cancel'') [] (Some (JObj [])) tr
             | _ \<Rightarrow> cliError ''usage: sysplane invocations cancel <invocation-id>'' tr)
          else if cmd = ''create'' then
            withFlags ((''action'', FStr []) # (''action-type'', FStr ''builtin'') # invokeFlags) rest (createCommand env a) tr
          else cliError (''unknown invocations subcommand '' @ quoteStr cmd) tr)"

definition runAudit :: "cliEnv \<Rightarrow> cliApp \<Rightarrow> string list \<Rightarrow> cliRequest list \<Rightarrow> cliResult" where
  "runAudit env a args tr =
     (case args of
        [] \<Rightarrow> cliError ''audit requires a subcommand'' tr
      | cmd # rest \<Rightarrow>
          if cmd = ''list'' then
            withFlags (listFlags [''action'', ''decision'', ''node'', ''subject'']) rest (\<lambda>fs.
              cliFetch env a ''GET'' ''/v1/audit/events''
                (queryOf [(''limit'', limitParam fs), (''action'', flagStr fs ''action''),
                  (''decision'', flagStr fs ''decision''), (''node_id'', flagStr fs ''node''),
                  (''subject_id'', flagStr fs ''subject'')]) None) tr
          else if cmd = ''get'' then
            (case rest of
               [ev] \<Rightarrow> cliFetch env a ''GET'' (''/v1/audit/events/'' @ pathEscape ev) [] None tr
             | _ \<Rightarrow> cliError ''usage: sysplane audit get <event-id>'' tr)
          else cliError (''unknown audit subcommand '' @ quoteStr cmd) tr)"

section \<open>Run\<close>

definition rootFlags :: "cliEnv \<Rightarrow> cliApp \<Rightarrow> flagSet" where
  "rootFlags env a =
     [(''server'', FStr (trimSpace (firstNonEmpty [apBaseURL a, cvGetenv env ''SYSPLANE_SERVER'',
          cvGetenv env ''SYSPLANE_URL'', ''http://127.0.0.1:18880'']))),
      (''token'', FStr (trimSpace (firstNonEmpty [apToken a, cvGetenv env ''SYSPLANE_TOKEN''])))]"

definition runCommand :: "cliEnv \<Rightarrow> cliApp \<Rightarrow> string \<Rightarrow> string list \<Rightarrow> cliRequest list \<Rightarrow> cliResult" where
  "runCommand env a cmd args tr =
     (if cmd = ''nodes'' then runNodes env a args tr
      else if cmd = ''commands'' then runCommands env a args tr
      else if cmd = ''templates'' then runTemplates env a args tr
      else if cmd = ''invocations'' then runInvocations env a args tr
      else if cmd = ''audit'' then runAudit env a args tr
      else if cmd \<in> {''help'', ''-h'', ''--help''} then (Inr None, tr)
      else cliError (''unknown command '' @ quoteStr cmd) tr)"

definition cliRun :: "cliEnv \<Rightarrow> cliApp \<Rightarrow> string list \<Rightarrow> cliRequest list \<Rightarrow> cliResult" where
  "cliRun env a args tr =
     (case parseFlags (rootFlags env a) args of
        HelpRequested \<Rightarrow> (Inr None, tr)
      | FlagsBad e \<Rightarrow> (Inl e, tr)
      | FlagsOk fs rest \<Rightarrow>
          (case rest of
             [] \<Rightarrow> cliError ''missing command'' tr
           | cmd # cargs \<Rightarrow>
               if flagStr fs ''token'' = [] then cliError ''missing token: use --token or SYSPLANE_TOKEN'' tr
               else runCommand env \<lparr>apBaseURL = trimRight slash (flagStr fs ''server''), apToken = flagStr fs ''token''\<rparr>
                      cmd cargs tr))"

definition newApp :: cliApp where
  "newApp = \<lparr>apBaseURL = [], apToken = []\<rparr>"

end
