(* ===== verification/AgentFind.thy ===== *)
theory AgentFind
  imports AgentFiles
begin

text \<open>
  The tools of the agent that look without changing anything
  (\<open>internal/sysplane-agent/fileops/listdir.go\<close>, \<open>stat.go\<close>, \<open>search.go\<close>).  The operating system is an
  argument, as in \<open>AgentFiles\<close>, and so is the compilation of regular expressions.  \<open>ctx n\<close> is what
  the n-th check of the context finds.
\<close>

section \<open>What the system says of an entry\<close>

record fileInfo =
  fnName :: string
  fnSize :: int
  fnModTime :: int
  fnMode :: string
  fnIsDir :: bool
  fnIsSymlink :: bool
  fnIsRegular :: bool

definition typeOf :: "fileInfo \<Rightarrow> string" where
  "typeOf i =
     (if fnIsDir i then ''directory'' else if fnIsSymlink i then ''symlink''
      else if fnIsRegular i then ''file'' else ''other'')"

section \<open>list_directory\<close>

text \<open>An entry of \<open>os.ReadDir\<close>: its name and type at once, the rest from \<open>Info\<close>, which can fail.\<close>

record dirEntry =
  deName :: string
  deIsDir :: bool
  deIsSymlink :: bool
  deIsRegular :: bool
  deInfo :: "goerr + fileInfo"

record fileEntry =
  feName :: string
  feType :: string
  feSize :: int
  feModifiedAt :: int
  fePermissions :: string

record listDirectoryResult =
  ldPath :: string
  ldItems :: "fileEntry list"
  ldTotal :: nat

definition entryType :: "dirEntry \<Rightarrow> string" where
  "entryType e =
     (if deIsDir e then ''directory'' else if deIsSymlink e then ''symlink''
      else if deIsRegular e then ''file'' else ''other'')"

definition hidden :: "string \<Rightarrow> bool" where
  "hidden name \<longleftrightarrow> length name > 0 \<and> name ! 0 = CHR ''.''"

fun listLoop ::
  "(nat \<Rightarrow> goerr option) \<Rightarrow> bool \<Rightarrow> nat \<Rightarrow> fileEntry list \<Rightarrow> dirEntry list \<Rightarrow> goerr + fileEntry list" where
  "listLoop ctx showHidden n items [] = Inr items"
| "listLoop ctx showHidden n items (e # es) =
     (case ctx n of
        Some err \<Rightarrow> Inl err
      | None \<Rightarrow>
          if \<not> showHidden \<and> hidden (deName e) then listLoop ctx showHidden (Suc n) items es
          else
            (case deInfo e of
               Inl _ \<Rightarrow> listLoop ctx showHidden (Suc n) items es
             | Inr i \<Rightarrow>
                 listLoop ctx showHidden (Suc n)
                   (items @ [\<lparr>feName = deName e, feType = entryType e, feSize = fnSize i,
                      feModifiedAt = fnModTime i, fePermissions = fnMode i\<rparr>]) es))"

definition listDirectory ::
  "(nat \<Rightarrow> goerr option) \<Rightarrow> (string \<Rightarrow> string option) \<Rightarrow> (string \<Rightarrow> goerr + dirEntry list) \<Rightarrow>
   pathGuard \<Rightarrow> jtext \<Rightarrow> goerr + listDirectoryResult" where
  "listDirectory ctx links readDir g args =
     (case decodeObject args of
        None \<Rightarrow> Inl (ErrWrap ''list_directory: invalid args: '' (unmarshalError ''list_directory''))
      | Some m \<Rightarrow>
      (case (decodeStr (jget m ''path''), decodeBool (jget m ''show_hidden'')) of
        (Some path, Some showHidden) \<Rightarrow>
          (case guardCheck g links path of
             Some e \<Rightarrow> Inl e
           | None \<Rightarrow>
               (case readDir path of
                  Inl e \<Rightarrow> Inl (ErrWrap ''list_directory: '' e)
                | Inr entries \<Rightarrow>
                    (case listLoop ctx showHidden 0 [] entries of
                       Inl e \<Rightarrow> Inl e
                     | Inr items \<Rightarrow>
                         Inr \<lparr>ldPath = clean path, ldItems = items, ldTotal = length items\<rparr>)))
      | _ \<Rightarrow> Inl (ErrWrap ''list_directory: invalid args: '' (unmarshalError ''list_directory''))))"

section \<open>stat_file and check_path_exists\<close>

record statResult =
  srPath :: string
  srName :: string
  srType :: string
  srSize :: int
  srPermissions :: string
  srModifiedAt :: int
  srIsSymlink :: bool
  srLinkTarget :: string

text \<open>The argument that both tools take.\<close>

definition decodePath :: "jtext \<Rightarrow> string option" where
  "decodePath args =
     (case decodeObject args of None \<Rightarrow> None | Some m \<Rightarrow> decodeStr (jget m ''path''))"

definition statFile ::
  "(string \<Rightarrow> string option) \<Rightarrow> (string \<Rightarrow> goerr + fileInfo) \<Rightarrow> (string \<Rightarrow> goerr + string) \<Rightarrow>
   pathGuard \<Rightarrow> jtext \<Rightarrow> goerr + statResult" where
  "statFile links lstat readlink g args =
     (case decodePath args of
        None \<Rightarrow> Inl (ErrWrap ''stat_file: invalid args: '' (unmarshalError ''stat_file''))
      | Some path \<Rightarrow>
      (case guardCheck g links path of
        Some e \<Rightarrow> Inl e
      | None \<Rightarrow>
      (case lstat path of
        Inl e \<Rightarrow> Inl (ErrWrap ''stat_file: '' e)
      | Inr i \<Rightarrow>
          Inr \<lparr>srPath = clean path, srName = fnName i, srType = typeOf i, srSize = fnSize i,
            srPermissions = fnMode i, srModifiedAt = fnModTime i, srIsSymlink = fnIsSymlink i,
            srLinkTarget = (if \<not> fnIsDir i \<and> fnIsSymlink i
              then (case readlink path of Inr target \<Rightarrow> target | Inl _ \<Rightarrow> []) else [])\<rparr>)))"

record checkPathResult =
  cxPath :: string
  cxExists :: bool
  cxType :: string

text \<open>\<open>notExist\<close> is \<open>os.IsNotExist\<close>.\<close>

definition checkPathExists ::
  "(string \<Rightarrow> string option) \<Rightarrow> (string \<Rightarrow> goerr + fileInfo) \<Rightarrow> (goerr \<Rightarrow> bool) \<Rightarrow>
   pathGuard \<Rightarrow> jtext \<Rightarrow> goerr + checkPathResult" where
  "checkPathExists links lstat notExist g args =
     (case decodePath args of
        None \<Rightarrow> Inl (ErrWrap ''check_path_exists: invalid args: '' (unmarshalError ''check_path_exists''))
      | Some path \<Rightarrow>
      (case guardCheck g links path of
        Some e \<Rightarrow> Inl e
      | None \<Rightarrow>
      (case lstat path of
        Inl e \<Rightarrow>
          if notExist e then Inr \<lparr>cxPath = clean path, cxExists = False, cxType = []\<rparr>
          else Inl (ErrWrap ''check_path_exists: '' e)
      | Inr i \<Rightarrow> Inr \<lparr>cxPath = clean path, cxExists = True, cxType = typeOf i\<rparr>)))"

section \<open>search_file_content\<close>

record searchParams =
  scPath :: string
  scPattern :: string
  scIgnoreCase :: bool
  scInvertMatch :: bool
  scShowLineNums :: bool
  scCountOnly :: bool
  scContextBefore :: int
  scContextAfter :: int
  scMaxMatches :: int
  scFixedString :: bool

record matchLine =
  mlLineNum :: nat
  mlContent :: string
  mlContext :: string

record searchResult =
  xrPath :: string
  xrPattern :: string
  xrMatches :: "matchLine list"
  xrCount :: nat

definition decodeSearchParams :: "jtext \<Rightarrow> searchParams option" where
  "decodeSearchParams args =
     (case decodeObject args of None \<Rightarrow> None | Some m \<Rightarrow>
       (case (decodeStr (jget m ''path''), decodeStr (jget m ''pattern''), decodeBool (jget m ''ignore_case''),
              decodeBool (jget m ''invert_match''), decodeBool (jget m ''show_line_nums''),
              decodeBool (jget m ''count_only''), decodeInt (jget m ''context_before''),
              decodeInt (jget m ''context_after''), decodeInt (jget m ''max_matches''),
              decodeBool (jget m ''fixed_string'')) of
          (Some path, Some pattern, Some ic, Some neg, Some nums, Some cnt, Some b, Some a, Some mx, Some fx) \<Rightarrow>
            Some \<lparr>scPath = path, scPattern = pattern, scIgnoreCase = ic, scInvertMatch = neg,
              scShowLineNums = nums, scCountOnly = cnt, scContextBefore = b, scContextAfter = a,
              scMaxMatches = mx, scFixedString = fx\<rparr>
        | _ \<Rightarrow> None))"

definition makeMatchLine :: "searchParams \<Rightarrow> nat \<Rightarrow> string \<Rightarrow> string \<Rightarrow> matchLine" where
  "makeMatchLine p i content label =
     \<lparr>mlLineNum = (if scShowLineNums p then i + 1 else 0), mlContent = content, mlContext = label\<rparr>"

text \<open>The lines collected so far, their indices (the keys of \<open>addedLines\<close>) and the number of checks of the
  context made.\<close>

type_synonym searchState = "matchLine list \<times> nat list \<times> nat"

fun addLine :: "searchParams \<Rightarrow> string list \<Rightarrow> string \<Rightarrow> nat \<Rightarrow> searchState \<Rightarrow> searchState" where
  "addLine p ls label j (ms, added, n) =
     (if j \<in> set added then (ms, added, n)
      else (ms @ [makeMatchLine p j (ls ! j) label], j # added, n))"

text \<open>A loop over a window of context lines.\<close>

fun addContext ::
  "(nat \<Rightarrow> goerr option) \<Rightarrow> searchParams \<Rightarrow> string list \<Rightarrow> string \<Rightarrow> nat list \<Rightarrow> searchState \<Rightarrow> goerr + searchState" where
  "addContext ctx p ls label [] st = Inr st"
| "addContext ctx p ls label (j # js) (ms, added, n) =
     (case ctx n of
        Some e \<Rightarrow> Inl e
      | None \<Rightarrow> addContext ctx p ls label js (addLine p ls label j (ms, added, Suc n)))"

definition windowBefore :: "searchParams \<Rightarrow> nat \<Rightarrow> nat list" where
  "windowBefore p i = [nat (max 0 (wrap64 (int i - scContextBefore p))) ..< i]"

definition windowAfter :: "searchParams \<Rightarrow> nat \<Rightarrow> nat \<Rightarrow> nat list" where
  "windowAfter p len i =
     [i + 1 ..< nat (min (int len - 1) (wrap64 (int i + scContextAfter p)) + 1)]"

definition addHit ::
  "(nat \<Rightarrow> goerr option) \<Rightarrow> searchParams \<Rightarrow> string list \<Rightarrow> nat \<Rightarrow> searchState \<Rightarrow> goerr + searchState" where
  "addHit ctx p ls i st =
     (case addContext ctx p ls ''before'' (windowBefore p i) st of
        Inl e \<Rightarrow> Inl e
      | Inr st1 \<Rightarrow> addContext ctx p ls ''after'' (windowAfter p (length ls) i) (addLine p ls [] i st1))"

text \<open>The loop over all lines; \<open>matched\<close> already takes \<open>invert_match\<close> into account.\<close>

fun searchLoop ::
  "(nat \<Rightarrow> goerr option) \<Rightarrow> searchParams \<Rightarrow> (string \<Rightarrow> bool) \<Rightarrow> string list \<Rightarrow> nat list \<Rightarrow> nat \<Rightarrow> searchState \<Rightarrow>
   goerr + nat \<times> matchLine list" where
  "searchLoop ctx p matched ls [] count (ms, added, n) = Inr (count, ms)"
| "searchLoop ctx p matched ls (i # is) count (ms, added, n) =
     (case ctx n of
        Some e \<Rightarrow> Inl e
      | None \<Rightarrow>
          if \<not> matched (ls ! i) then searchLoop ctx p matched ls is count (ms, added, Suc n)
          else if scCountOnly p then searchLoop ctx p matched ls is (Suc count) (ms, added, Suc n)
          else if scMaxMatches p > 0 \<and> int (Suc count) > scMaxMatches p then Inr (Suc count, ms)
          else
            (case addHit ctx p ls i (ms, added, Suc n) of
               Inl e \<Rightarrow> Inl e
             | Inr st \<Rightarrow> searchLoop ctx p matched ls is (Suc count) st))"

definition lineMatches :: "searchParams \<Rightarrow> (string \<Rightarrow> bool) \<Rightarrow> string \<Rightarrow> bool" where
  "lineMatches p re line =
     (let m = (if scFixedString p
               then (if scIgnoreCase p then containsStr (toLower line) (toLower (scPattern p))
                     else containsStr line (scPattern p))
               else re line)
      in if scInvertMatch p then \<not> m else m)"

fun checkEach :: "(nat \<Rightarrow> goerr option) \<Rightarrow> nat \<Rightarrow> string list \<Rightarrow> goerr option" where
  "checkEach ctx n [] = None"
| "checkEach ctx n (l # ls) = (case ctx n of Some e \<Rightarrow> Some e | None \<Rightarrow> checkEach ctx (Suc n) ls)"

definition maxLineLength :: nat where "maxLineLength = 1024 * 1024"

definition searchFileContent ::
  "(nat \<Rightarrow> goerr option) \<Rightarrow> (string \<Rightarrow> goerr + (string \<Rightarrow> bool)) \<Rightarrow> (string \<Rightarrow> string option) \<Rightarrow>
   (string \<Rightarrow> goerr + string) \<Rightarrow> pathGuard \<Rightarrow> jtext \<Rightarrow> goerr + searchResult" where
  "searchFileContent ctx compile links openFile g args =
     (case decodeSearchParams args of
        None \<Rightarrow> Inl (ErrWrap ''search_file_content: invalid args: '' (unmarshalError ''search_file_content''))
      | Some p \<Rightarrow>
      (case guardCheck g links (scPath p) of
        Some e \<Rightarrow> Inl e
      | None \<Rightarrow>
      if scPattern p = [] then Inl (ErrText ''search_file_content: pattern is required'')
      else
      (case (if scFixedString p then Inr (\<lambda>_. False)
             else compile (if scIgnoreCase p then ''(?i)'' @ scPattern p else scPattern p)) of
        Inl e \<Rightarrow> Inl (ErrWrap ''search_file_content: invalid pattern: '' e)
      | Inr re \<Rightarrow>
      (case openFile (scPath p) of
        Inl e \<Rightarrow> Inl (ErrWrap ''search_file_content: '' e)
      | Inr content \<Rightarrow>
          (let (ls, err) = scanLines maxLineLength content in
           case checkEach ctx 0 ls of
             Some e \<Rightarrow> Inl e
           | None \<Rightarrow>
               (case err of
                  Some e \<Rightarrow> Inl (ErrWrap ''search_file_content: scan: '' e)
                | None \<Rightarrow>
                    (case searchLoop ctx p (lineMatches p re) ls [0 ..< length ls] 0 ([], [], length ls) of
                       Inl e \<Rightarrow> Inl e
                     | Inr (count, ms) \<Rightarrow>
                         Inr \<lparr>xrPath = scPath p, xrPattern = scPattern p, xrMatches = ms, xrCount = count\<rparr>)))))))"

section \<open>Lemmas on the search\<close>

text \<open>What a returned line shows of the line with index \<open>j\<close>, up to its label.\<close>

definition shown :: "matchLine \<Rightarrow> nat \<times> string" where
  "shown m = (mlLineNum m, mlContent m)"

definition lineOf :: "searchParams \<Rightarrow> string list \<Rightarrow> nat \<Rightarrow> nat \<times> string" where
  "lineOf p ls j = (if scShowLineNums p then j + 1 else 0, ls ! j)"

fun stOk :: "searchParams \<Rightarrow> string list \<Rightarrow> nat list \<Rightarrow> searchState \<Rightarrow> bool" where
  "stOk p ls xs (ms, added, n) \<longleftrightarrow> List.map shown ms = List.map (lineOf p ls) xs \<and> set added = set xs"

definition insertLine :: "nat list \<Rightarrow> nat \<Rightarrow> nat list" where
  "insertLine xs j = (if j \<in> set xs then xs else xs @ [j])"

lemma addLine_ok: "stOk p ls xs st \<Longrightarrow> stOk p ls (insertLine xs j) (addLine p ls label j st)"
  by (cases st) (auto simp: insertLine_def shown_def lineOf_def makeMatchLine_def)

lemma addContext_ok:
  assumes "\<forall>n. ctx n = None"
  shows "stOk p ls xs st \<Longrightarrow>
    \<exists>st'. addContext ctx p ls label js st = Inr st' \<and> stOk p ls (foldl insertLine xs js) st'"
proof (induction js arbitrary: xs st)
  case Nil
  then show ?case by simp
next
  case (Cons j js)
  obtain ms added n where st: "st = (ms, added, n)" by (cases st)
  have "stOk p ls (insertLine xs j) (addLine p ls label j (ms, added, Suc n))"
    by (rule addLine_ok) (use Cons.prems st in simp)
  from Cons.IH [OF this] show ?case using assms st by (simp del: addLine.simps)
qed

lemma addHit_ok:
  assumes "\<forall>n. ctx n = None" and "stOk p ls xs st"
  shows "\<exists>st'. addHit ctx p ls i st = Inr st' \<and>
    stOk p ls (foldl insertLine xs (windowBefore p i @ i # windowAfter p (length ls) i)) st'"
proof -
  from addContext_ok [OF assms, of "''before''" "windowBefore p i"] obtain st1 where
    1: "addContext ctx p ls ''before'' (windowBefore p i) st = Inr st1"
      "stOk p ls (foldl insertLine xs (windowBefore p i)) st1" by blast
  have "stOk p ls (insertLine (foldl insertLine xs (windowBefore p i)) i) (addLine p ls [] i st1)"
    using addLine_ok [OF 1(2)] .
  from addContext_ok [OF assms(1) this, of "''after''" "windowAfter p (length ls) i"] show ?thesis using 1(1) by (auto simp: addHit_def)
qed

lemma foldl_insertLine: "distinct js \<Longrightarrow> foldl insertLine xs js = xs @ filter (\<lambda>j. j \<notin> set xs) js"
proof (induction js arbitrary: xs)
  case (Cons j js)
  have "filter (\<lambda>a. a \<notin> set (xs @ [j])) js = filter (\<lambda>a. a \<notin> set xs) js"
    using Cons.prems by (intro filter_cong) auto
  then show ?case using Cons by (auto simp: insertLine_def)
qed simp

text \<open>A request whose windows do not overflow.\<close>

definition sane :: "searchParams \<Rightarrow> nat \<Rightarrow> bool" where
  "sane p len \<longleftrightarrow> 0 \<le> scContextBefore p \<and> scContextBefore p < 2 ^ 62 \<and>
     0 \<le> scContextAfter p \<and> scContextAfter p < 2 ^ 62 \<and> int len < 2 ^ 62"

definition inWindow :: "searchParams \<Rightarrow> nat \<Rightarrow> nat \<Rightarrow> bool" where
  "inWindow p i j \<longleftrightarrow> int i \<le> int j + scContextBefore p \<and> int j \<le> int i + scContextAfter p"

lemma window_upt:
  assumes "sane p len" and "i < len"
  obtains lo hi where "windowBefore p i @ i # windowAfter p len i = [lo ..< hi]" "hi \<le> len"
    "\<And>j. lo \<le> j \<and> j < hi \<longleftrightarrow> j < len \<and> inWindow p i j"
proof -
  define lo where "lo = nat (int i - scContextBefore p)"
  define hi where "hi = nat (min (int len - 1) (int i + scContextAfter p) + 1)"
  have w: "wrap64 (int i - scContextBefore p) = int i - scContextBefore p"
    "wrap64 (int i + scContextAfter p) = int i + scContextAfter p"
    using assms by (simp_all add: sane_def wrap64_id isInt64_def)
  have le: "lo \<le> i" "i < hi" "hi \<le> len"
    using assms by (auto simp: sane_def lo_def hi_def)
  have "windowBefore p i = [lo ..< i]" by (simp add: windowBefore_def w lo_def max_def)
  moreover have "windowAfter p len i = [i + 1 ..< hi]" by (simp add: windowAfter_def w hi_def)
  moreover have "[lo ..< hi] = [lo ..< i] @ i # [i + 1 ..< hi]"
    using le upt_add_eq_append [of lo i "hi - i"] upt_conv_Cons [of i hi] by simp
  ultimately have "windowBefore p i @ i # windowAfter p len i = [lo ..< hi]" by simp
  moreover have "lo \<le> j \<and> j < hi \<longleftrightarrow> j < len \<and> inWindow p i j" for j
    using assms by (auto simp: sane_def lo_def hi_def inWindow_def)
  ultimately show ?thesis using that le(3) by blast
qed

definition covered :: "searchParams \<Rightarrow> nat list \<Rightarrow> nat \<Rightarrow> bool" where
  "covered p H j \<longleftrightarrow> (\<exists>i \<in> set H. inWindow p i j)"

text \<open>Adding the window of a later hit keeps the lines in order.\<close>

lemma extend_covered:
  assumes "sane p len" and "i < len" and "\<forall>h \<in> set H. h < i"
  shows "foldl insertLine (filter (covered p H) [0 ..< len]) (windowBefore p i @ i # windowAfter p len i) =
    filter (covered p (H @ [i])) [0 ..< len]" (is "?l = ?r")
proof -
  from window_upt [OF assms(1,2)] obtain lo hi where
    w: "windowBefore p i @ i # windowAfter p len i = [lo ..< hi]" "hi \<le> len"
      "\<And>j. lo \<le> j \<and> j < hi \<longleftrightarrow> j < len \<and> inWindow p i j" by blast
  have l: "?l = filter (covered p H) [0 ..< len] @ filter (\<lambda>j. \<not> covered p H j) [lo ..< hi]"
    unfolding w(1) using w(2) by (subst foldl_insertLine) (auto intro: filter_cong)
  have "j < k" if "covered p H j" "j < len" "lo \<le> k" "k < hi" "\<not> covered p H k" for j k
  proof -
    from that(1) obtain h where h: "h \<in> set H" "inWindow p h j" by (auto simp: covered_def)
    have "inWindow p i k" using w(3) [of k] that by blast
    moreover have "\<not> inWindow p h k" using that(5) h(1) by (auto simp: covered_def)
    ultimately show ?thesis using h assms(3) by (fastforce simp: inWindow_def)
  qed
  then have "sorted_wrt (<) ?l"
    unfolding l by (auto simp: sorted_wrt_append intro: sorted_wrt_filter)
  moreover have "sorted_wrt (<) ?r" by (intro sorted_wrt_filter) simp
  moreover have "set ?l = set ?r" unfolding l using w(2,3) by (auto simp: covered_def)
  ultimately show ?thesis by (metis strict_sorted_equal)
qed

text \<open>The hits that are shown when the number of matches is limited, and the count that is reported.\<close>

definition limited :: "searchParams \<Rightarrow> nat list \<Rightarrow> nat list" where
  "limited p hs = (if scMaxMatches p > 0 then take (nat (scMaxMatches p)) hs else hs)"

definition counted :: "searchParams \<Rightarrow> nat \<Rightarrow> nat" where
  "counted p n = (if scMaxMatches p > 0 \<and> int n > scMaxMatches p then nat (scMaxMatches p) + 1 else n)"

lemma limited_all: "\<not> (scMaxMatches p > 0 \<and> int (length hs) > scMaxMatches p) \<Longrightarrow> limited p hs = hs"
  by (auto simp: limited_def)

lemma searchLoop_countOnly:
  assumes "\<forall>n. ctx n = None" and "scCountOnly p"
  shows "searchLoop ctx p matched ls is count (ms, added, n) =
    Inr (count + length (filter (\<lambda>i. matched (ls ! i)) is), ms)"
  using assms by (induction "is" arbitrary: count n) auto

lemma searchLoop_lines:
  assumes quiet: "\<forall>n. ctx n = None" and cnt: "\<not> scCountOnly p" and sane: "sane p (length ls)"
  shows "sorted_wrt (<) (H @ is) \<Longrightarrow> set is \<subseteq> {..< length ls} \<Longrightarrow>
    stOk p ls (filter (covered p H) [0 ..< length ls]) st \<Longrightarrow>
    \<not> (scMaxMatches p > 0 \<and> int (length H) > scMaxMatches p) \<Longrightarrow>
    R = H @ filter (\<lambda>i. matched (ls ! i)) is \<Longrightarrow>
    \<exists>ms. searchLoop ctx p matched ls is (length H) st = Inr (counted p (length R), ms) \<and>
      List.map shown ms = List.map (lineOf p ls) (filter (covered p (limited p R)) [0 ..< length ls])"
proof (induction "is" arbitrary: H st R)
  case Nil
  then show ?case by (cases st) (auto simp: counted_def limited_all)
next
  case (Cons i js)
  obtain ms added n where st: "st = (ms, added, n)" by (cases st)
  have ok: "stOk p ls (filter (covered p H) [0 ..< length ls]) (ms, added, Suc n)"
    using Cons.prems(3) st by simp
  show ?case
  proof (cases "matched (ls ! i)")
    case False
    have "sorted_wrt (<) (H @ js)" using Cons.prems(1) by (simp add: sorted_wrt_append)
    from Cons.IH [OF this _ ok Cons.prems(4)] show ?thesis
      using False Cons.prems st quiet by simp
  next
    case hit: True
    show ?thesis
    proof (cases "scMaxMatches p > 0 \<and> int (Suc (length H)) > scMaxMatches p")
      case True
      then have m: "length H = nat (scMaxMatches p)" using Cons.prems(4) by linarith
      then have "limited p R = H" "counted p (length R) = Suc (length H)"
        using True hit Cons.prems(5) by (auto simp: limited_def counted_def)
      then show ?thesis using True hit cnt quiet st Cons.prems(3) by simp
    next
      case False
      have "i < length ls" "\<forall>h \<in> set H. h < i" using Cons.prems(1,2) by (auto simp: sorted_wrt_append)
      note ext = extend_covered [OF sane this]
      from addHit_ok [OF quiet ok, of i] obtain st' where
        st': "addHit ctx p ls i (ms, added, Suc n) = Inr st'"
          "stOk p ls (filter (covered p (H @ [i])) [0 ..< length ls]) st'" unfolding ext by blast
      have "sorted_wrt (<) ((H @ [i]) @ js)" "R = (H @ [i]) @ filter (\<lambda>i. matched (ls ! i)) js"
        "\<not> (scMaxMatches p > 0 \<and> int (length (H @ [i])) > scMaxMatches p)"
        using Cons.prems(1,5) hit False by simp_all
      note ih = Cons.IH [OF this(1) _ st'(2) this(3) this(2)]
      have "ctx n = None" using quiet by blast
      then have "searchLoop ctx p matched ls (i # js) (length H) st = searchLoop ctx p matched ls js (length (H @ [i])) st'"
        using st'(1) st hit False cnt by auto
      then show ?thesis using ih Cons.prems(2) by simp
    qed
  qed
qed

lemma checkEach_quiet: "\<forall>n. ctx n = None \<Longrightarrow> checkEach ctx n ls = None"
  by (induction ls arbitrary: n) auto

section \<open>Properties\<close>

text \<open>
  Property C37: what \<open>search_file_content\<close> finds.  The lines returned are the matching lines, up to
  \<open>max_matches\<close> of them, together with the lines of their context windows: each line once, in the
  order of the file, with its number when numbers are asked for.  The count is the number of matching
  lines, but one more than \<open>max_matches\<close> when there are more than that; with \<open>count_only\<close>
  it is always exact and no lines are returned.
\<close>

theorem search_finds_windows:
  assumes "decodeSearchParams args = Some p" and "guardCheck g links (scPath p) = None" and "scPattern p \<noteq> []"
    and "(if scFixedString p then Inr (\<lambda>_. False)
          else compile (if scIgnoreCase p then ''(?i)'' @ scPattern p else scPattern p)) = Inr re"
    and "openFile (scPath p) = Inr content" and "\<forall>n. ctx n = None"
    and "\<forall>l \<in> set (rawLines content). length l < maxLineLength"
    and "ls = List.map dropCR (rawLines content)" and "sane p (length ls)"
    and "hits = filter (\<lambda>i. lineMatches p re (ls ! i)) [0 ..< length ls]"
  shows "\<exists>r. searchFileContent ctx compile links openFile g args = Inr r \<and>
    (if scCountOnly p then xrMatches r = [] \<and> xrCount r = length hits
     else List.map shown (xrMatches r) =
         List.map (lineOf p ls) (filter (covered p (limited p hits)) [0 ..< length ls]) \<and>
       xrCount r = counted p (length hits))"
proof -
  note f = searchFileContent_def assms(1,2,3,5) scanLines_short [OF assms(7)] checkEach_quiet [OF assms(6)]
  show ?thesis
  proof (cases "scCountOnly p")
    case True
    then show ?thesis
      using searchLoop_countOnly [OF assms(6) True, of "lineMatches p re" ls "[0 ..< length ls]" 0 "[]" "[]" "length ls"]
        assms(4,8,10) by (simp add: f)
  next
    case False
    have "stOk p ls (filter (covered p []) [0 ..< length ls]) ([], [], length ls)"
      by (simp add: covered_def)
    from searchLoop_lines [OF assms(6) False assms(9) _ _ this, of "[0 ..< length ls]" hits "lineMatches p re"]
    obtain ms where "searchLoop ctx p (lineMatches p re) ls [0 ..< length ls] 0 ([], [], length ls) =
        Inr (counted p (length hits), ms)"
      "List.map shown ms = List.map (lineOf p ls) (filter (covered p (limited p hits)) [0 ..< length ls])"
      using assms(10) by (auto simp: lessThan_atLeast0)
    then show ?thesis using False assms(4,8) by (simp add: f)
  qed
qed

definition demoSearch :: jtext where
  "demoSearch = JText (JObj [(''path'', JStr ''/f''), (''pattern'', JStr ''b''),
     (''show_line_nums'', JBool True), (''fixed_string'', JBool True), (''context_after'', JNum (of_int 1))])"

theorem search_finds_windows_witness:
  "\<exists>r. searchFileContent (\<lambda>_. None) (\<lambda>_. Inl CtxCanceled) Some
      (\<lambda>_. Inr (''a'' @ newline # ''b'' @ newline # ''c'' @ newline # ''d'')) (newPathGuard [] []) demoSearch = Inr r \<and>
    List.map shown (xrMatches r) = [(2, ''b''), (3, ''c'')] \<and> xrCount r = 1"
proof -
  define content where "content = ''a'' @ newline # ''b'' @ newline # ''c'' @ newline # ''d''"
  define p where "p = \<lparr>scPath = ''/f'', scPattern = ''b'', scIgnoreCase = False, scInvertMatch = False,
    scShowLineNums = True, scCountOnly = False, scContextBefore = 0, scContextAfter = 1, scMaxMatches = 0,
    scFixedString = True\<rparr>"
  define ls where "ls = [''a'', ''b'', ''c'', ''d'']"
  have d: "decodeSearchParams demoSearch = Some p"
    unfolding p_def demoSearch_def
    by (simp add: decodeSearchParams_def floatToInt64_of_int isInt64_def del: of_int_numeral of_int_1)
  have g: "guardCheck (newPathGuard [] []) Some (scPath p) = None" unfolding p_def by code_simp
  have raw: "rawLines content = ls" unfolding content_def ls_def by code_simp
  have short: "\<forall>l \<in> set (rawLines content). length l < maxLineLength"
    by (simp add: raw ls_def maxLineLength_def)
  have cr: "ls = List.map dropCR (rawLines content)" unfolding raw ls_def by code_simp
  have s: "sane p (length ls)" by (simp add: sane_def p_def ls_def)
  have h: "[1] = filter (\<lambda>i. lineMatches p (\<lambda>_. False) (ls ! i)) [0 ..< length ls]"
    unfolding p_def ls_def by code_simp
  have c: "filter (covered p (limited p [1])) [0 ..< length ls] = [1, 2]"
    by (simp add: p_def ls_def limited_def covered_def inWindow_def upt_rec)
  show ?thesis
    using search_finds_windows [OF d g _ _ _ _ short cr s h, of "\<lambda>_. Inl CtxCanceled" "\<lambda>_. Inr content" "\<lambda>_. None"]
    unfolding c by (simp add: p_def content_def counted_def lineOf_def ls_def numeral_2_eq_2 numeral_3_eq_3)
qed

end
