(* ===== verification/AgentProxy.thy ===== *)
theory AgentProxy
  imports AgentFiles
begin

text \<open>
  \<open>internal/sysplane-agent/apiproxy/proxy.go\<close>: the tool that calls an HTTP service of the agent's
  own machine.  The HTTP client and the resolver of the system are arguments: \<open>doRequest\<close> is
  \<open>client.Do\<close> with the reading of the body, \<open>buildErr\<close> the error of \<open>http.NewRequestWithContext\<close>,
  \<open>lookup\<close> the resolver, \<open>parseIP\<close> says of an address whether it is a loopback address and
  whether it is an IPv4 one.  Besides its result a call returns the requests it has sent.
\<close>

record proxyConfig =
  pcAllowPrivileged :: bool
  pcAllowedPorts :: "int list"

definition errProxy :: "string \<Rightarrow> goerr" where
  "errProxy what = ErrText (''proxy_local_api: '' @ what)"

definition checkPort :: "proxyConfig \<Rightarrow> int \<Rightarrow> goerr option" where
  "checkPort cfg port =
     (if port \<le> 0 \<or> port > 65535 then Some (errProxy (''invalid port '' @ showInt port))
      else if \<not> pcAllowPrivileged cfg \<and> port < 1024
      then Some (errProxy (''privileged port '' @ showInt port @ '' not allowed''))
      else if pcAllowedPorts cfg \<noteq> [] \<and> port \<notin> set (pcAllowedPorts cfg)
      then Some (errProxy (''port '' @ showInt port @ '' not in allowed list''))
      else None)"

section \<open>The connection\<close>

record ipAddr =
  ipLoopback :: bool
  ipV4 :: bool

text \<open>The loop over the resolved addresses: the first one, if all are loopback addresses.\<close>

fun loopbackIPs :: "(string \<Rightarrow> ipAddr option) \<Rightarrow> string \<Rightarrow> ipAddr option \<Rightarrow> string list \<Rightarrow> goerr + ipAddr option" where
  "loopbackIPs parseIP host first [] = Inr first"
| "loopbackIPs parseIP host first (ip # ips) =
     (case parseIP ip of
        None \<Rightarrow> Inl (ErrText (''apiproxy: resolved '' @ quoteStr host @ '' to non-loopback IP '' @ ip))
      | Some a \<Rightarrow>
          if \<not> ipLoopback a
          then Inl (ErrText (''apiproxy: resolved '' @ quoteStr host @ '' to non-loopback IP '' @ ip))
          else loopbackIPs parseIP host (case first of None \<Rightarrow> Some a | Some f \<Rightarrow> Some f) ips)"

definition dialContext ::
  "(string \<Rightarrow> goerr + string \<times> string) \<Rightarrow> (string \<Rightarrow> goerr + string list) \<Rightarrow> (string \<Rightarrow> ipAddr option) \<Rightarrow>
   string \<Rightarrow> goerr + string" where
  "dialContext splitHostPort lookup parseIP addr =
     (case splitHostPort addr of
        Inl e \<Rightarrow> Inl (ErrWrap (''apiproxy: parse addr '' @ quoteStr addr @ '': '') e)
      | Inr (host, port) \<Rightarrow>
      (case lookup host of
        Inl e \<Rightarrow> Inl (ErrWrap (''apiproxy: resolve '' @ quoteStr host @ '': '') e)
      | Inr ips \<Rightarrow>
      (case loopbackIPs parseIP host None ips of
        Inl e \<Rightarrow> Inl e
      | Inr first \<Rightarrow>
          Inr (case first of
                 None \<Rightarrow> ''127.0.0.1:'' @ port
               | Some a \<Rightarrow> if ipV4 a then ''127.0.0.1:'' @ port else ''[::1]:'' @ port))))"

section \<open>The call\<close>

record callParams =
  cpPort :: int
  cpPath :: string
  cpMethod :: string
  cpHeaders :: "(string \<times> string) list"
  cpBody :: string

record callResult =
  crURL :: string
  crStatus :: int
  crHeaders :: "(string \<times> string) list"
  crBody :: string
  crBodyIsJSON :: bool
  crDurationMs :: int

record httpRequest =
  hqMethod :: string
  hqURL :: string
  hqHeaders :: "(string \<times> string) list"
  hqBody :: "string option"

record httpResponse =
  hrStatus :: int
  hrHeaders :: "(string \<times> string list) list"
  hrBody :: string
  hrMillis :: int

fun decodeStrMap :: "json \<Rightarrow> (string \<times> string) list option" where
  "decodeStrMap JNull = Some []"
| "decodeStrMap (JObj m) =
     those (List.map (\<lambda>(k, v). map_option (\<lambda>s. (k, s)) (decodeStr v)) m)"
| "decodeStrMap _ = None"

definition decodeCallParams :: "jtext \<Rightarrow> callParams option" where
  "decodeCallParams args =
     (case decodeObject args of None \<Rightarrow> None | Some m \<Rightarrow>
       (case (decodeInt (jget m ''port''), decodeStr (jget m ''path''), decodeStr (jget m ''method''),
              decodeStrMap (jget m ''headers''), decodeStr (jget m ''body'')) of
          (Some port, Some path, Some meth, Some hs, Some body) \<Rightarrow>
            Some \<lparr>cpPort = port, cpPath = path, cpMethod = meth, cpHeaders = hs, cpBody = body\<rparr>
        | _ \<Rightarrow> None))"

text \<open>\<open>Header.Get\<close> of a key of the response: the first value.\<close>

definition firstValue :: "string list \<Rightarrow> string" where
  "firstValue vs = (case vs of [] \<Rightarrow> [] | v # _ \<Rightarrow> v)"

text \<open>The fixed part of the URL.\<close>

definition authority :: "int \<Rightarrow> string" where
  "authority port = ''http://127.0.0.1:'' @ showInt port"

definition proxyCall ::
  "(string \<Rightarrow> string \<Rightarrow> goerr option) \<Rightarrow> (httpRequest \<Rightarrow> goerr + httpResponse) \<Rightarrow> (string \<Rightarrow> bool) \<Rightarrow>
   proxyConfig \<Rightarrow> jtext \<Rightarrow> (goerr + callResult) \<times> httpRequest list" where
  "proxyCall buildErr doRequest jsonValid cfg args =
     (case decodeCallParams args of
        None \<Rightarrow> (Inl (ErrWrap ''proxy_local_api: invalid args: '' (unmarshalError ''proxy_local_api'')), [])
      | Some p \<Rightarrow>
      (case checkPort cfg (cpPort p) of
        Some e \<Rightarrow> (Inl e, [])
      | None \<Rightarrow>
        (let meth = (if cpMethod p = [] then ''GET'' else cpMethod p);
             path = (if hasPrefix (cpPath p) ''/'' then cpPath p else ''/'' @ cpPath p);
             url = authority (cpPort p) @ path;
             body = (if cpBody p \<noteq> [] then Some (cpBody p) else None)
         in case buildErr meth url of
              Some e \<Rightarrow> (Inl (ErrWrap ''proxy_local_api: build request: '' e), [])
            | None \<Rightarrow>
                (let req = \<lparr>hqMethod = meth, hqURL = url, hqHeaders = cpHeaders p, hqBody = body\<rparr>
                 in case doRequest req of
                      Inl e \<Rightarrow> (Inl (ErrWrap ''proxy_local_api: '' e), [req])
                    | Inr resp \<Rightarrow>
                        (Inr \<lparr>crURL = url, crStatus = hrStatus resp,
                           crHeaders = List.map (\<lambda>(k, vs). (k, firstValue vs)) (hrHeaders resp),
                           crBody = hrBody resp,
                           crBodyIsJSON = (jsonValid (hrBody resp) \<and> length (hrBody resp) > 0),
                           crDurationMs = hrMillis resp\<rparr>, [req])))))"

section \<open>Properties\<close>

lemma checkPort_None:
  "checkPort cfg port = None \<longleftrightarrow> 0 < port \<and> port \<le> 65535 \<and> (pcAllowPrivileged cfg \<or> 1024 \<le> port) \<and>
     (pcAllowedPorts cfg = [] \<or> port \<in> set (pcAllowedPorts cfg))"
  by (auto simp: checkPort_def)

lemma proxyCall_sent:
  assumes "req \<in> set (snd (proxyCall buildErr doRequest jsonValid cfg args))"
  obtains p where "decodeCallParams args = Some p" "checkPort cfg (cpPort p) = None"
    "snd (proxyCall buildErr doRequest jsonValid cfg args) = [req]"
    "hqURL req = authority (cpPort p) @
       (if hasPrefix (cpPath p) ''/'' then cpPath p else ''/'' @ cpPath p)"
    "hqMethod req = (if cpMethod p = [] then ''GET'' else cpMethod p)" "hqHeaders req = cpHeaders p"
proof (cases "decodeCallParams args")
  case None
  then show ?thesis using assms by (simp add: proxyCall_def)
next
  case (Some p)
  define m where "m = (if cpMethod p = [] then ''GET'' else cpMethod p)"
  define url where "url = authority (cpPort p) @ (if hasPrefix (cpPath p) ''/'' then cpPath p else ''/'' @ cpPath p)"
  have c: "checkPort cfg (cpPort p) = None"
    using assms Some by (cases "checkPort cfg (cpPort p)") (simp_all add: proxyCall_def)
  have b: "buildErr m url = None"
    using assms Some c by (cases "buildErr m url")
      (simp_all add: proxyCall_def Let_def flip: m_def url_def)
  show ?thesis
  proof (rule that [OF Some c])
    define r where "r = \<lparr>hqMethod = m, hqURL = url, hqHeaders = cpHeaders p,
      hqBody = (if cpBody p \<noteq> [] then Some (cpBody p) else None)\<rparr>"
    have "snd (proxyCall buildErr doRequest jsonValid cfg args) = [r]"
      using Some c b by (cases "doRequest r")
        (simp_all add: proxyCall_def Let_def flip: m_def url_def r_def)
    then have "snd (proxyCall buildErr doRequest jsonValid cfg args) = [r]" "req = r" using assms by simp_all
    then show "snd (proxyCall buildErr doRequest jsonValid cfg args) = [req]"
      "hqURL req = authority (cpPort p) @ (if hasPrefix (cpPath p) ''/'' then cpPath p else ''/'' @ cpPath p)"
      "hqMethod req = (if cpMethod p = [] then ''GET'' else cpMethod p)" "hqHeaders req = cpHeaders p"
      by (simp_all add: r_def m_def url_def)
  qed
qed

text \<open>
  What the local proxy calls.  A request is sent only for a port that the
  configuration admits, to the address 127.0.0.1 and that port whatever path was asked for (the
  path cannot change the authority of the URL), at most one per call, and with the method, headers
  and body that were asked for.
\<close>

theorem proxy_call_target:
  assumes "req \<in> set (snd (proxyCall buildErr doRequest jsonValid cfg args))"
  shows "snd (proxyCall buildErr doRequest jsonValid cfg args) = [req] \<and>
    (\<exists>p rest. decodeCallParams args = Some p \<and>
       0 < cpPort p \<and> cpPort p \<le> 65535 \<and> (pcAllowPrivileged cfg \<or> 1024 \<le> cpPort p) \<and>
       (pcAllowedPorts cfg = [] \<or> cpPort p \<in> set (pcAllowedPorts cfg)) \<and>
       hqURL req = authority (cpPort p) @ ''/'' @ rest \<and>
       (cpPath p = ''/'' @ rest \<or> cpPath p = rest) \<and>
       hqMethod req = (if cpMethod p = [] then ''GET'' else cpMethod p) \<and> hqHeaders req = cpHeaders p)"
proof -
  from proxyCall_sent [OF assms] obtain p where p: "decodeCallParams args = Some p" "checkPort cfg (cpPort p) = None"
    "snd (proxyCall buildErr doRequest jsonValid cfg args) = [req]"
    "hqURL req = authority (cpPort p) @ (if hasPrefix (cpPath p) ''/'' then cpPath p else ''/'' @ cpPath p)"
    "hqMethod req = (if cpMethod p = [] then ''GET'' else cpMethod p)" "hqHeaders req = cpHeaders p" by blast
  obtain rest where rest: "(if hasPrefix (cpPath p) ''/'' then cpPath p else ''/'' @ cpPath p) = ''/'' @ rest"
    "cpPath p = ''/'' @ rest \<or> cpPath p = rest"
    by (cases "hasPrefix (cpPath p) ''/''") (auto simp: hasPrefix_iff prefix_def)
  have "hqURL req = authority (cpPort p) @ ''/'' @ rest" using p(4) rest(1) by simp
  then show ?thesis using p(1,2,3,5,6) rest(2) unfolding checkPort_None by blast
qed

theorem proxy_call_target_witness:
  "\<exists>req. snd (proxyCall (\<lambda>_ _. None) (\<lambda>_. Inl CtxCanceled) (\<lambda>_. False) \<lparr>pcAllowPrivileged = False, pcAllowedPorts = []\<rparr>
      (JText (JObj [(''port'', JNum (of_int 8080)), (''path'', JStr ''@evil/'')]))) = [req] \<and>
     (\<exists>rest. hqURL req = ''http://127.0.0.1:8080/'' @ rest)"
proof -
  define args where "args = JText (JObj [(''port'', JNum (of_int 8080)), (''path'', JStr ''@evil/'')])"
  define cfg where "cfg = \<lparr>pcAllowPrivileged = False, pcAllowedPorts = []\<rparr>"
  define p where "p = \<lparr>cpPort = 8080, cpPath = ''@evil/'', cpMethod = [], cpHeaders = [], cpBody = []\<rparr>"
  have d: "decodeCallParams args = Some p"
    unfolding p_def args_def by (simp add: decodeCallParams_def floatToInt64_of_int isInt64_def del: of_int_numeral)
  have "digitChar 8 = CHR ''8''" "digitChar 0 = CHR ''0''" by code_simp+
  then have sp: "showInt 8080 = ''8080''" by (simp add: showInt_def showNat.simps)
  obtain req where r: "snd (proxyCall (\<lambda>_ _. None) (\<lambda>_. Inl CtxCanceled) (\<lambda>_. False) cfg args) = [req]"
    using d by (simp add: proxyCall_def p_def cfg_def checkPort_def Let_def)
  then have m: "req \<in> set (snd (proxyCall (\<lambda>_ _. None) (\<lambda>_. Inl CtxCanceled) (\<lambda>_. False) cfg args))" by simp
  from proxy_call_target [OF m] obtain q rest where "decodeCallParams args = Some q"
    "hqURL req = authority (cpPort q) @ ''/'' @ rest" by blast
  moreover from this d have "cpPort q = 8080" by (auto simp: p_def)
  ultimately have "hqURL req = ''http://127.0.0.1:8080/'' @ rest" by (simp add: authority_def sp)
  then show ?thesis using r unfolding args_def cfg_def by blast
qed

lemma loopbackIPs_Inr:
  "loopbackIPs parseIP host first ips = Inr f \<Longrightarrow>
     (\<forall>ip \<in> set ips. \<exists>a. parseIP ip = Some a \<and> ipLoopback a) \<and> (first \<noteq> None \<longrightarrow> f = first)"
proof (induction ips arbitrary: first)
  case (Cons ip ips)
  from Cons.prems obtain a where a: "parseIP ip = Some a" "ipLoopback a"
    "loopbackIPs parseIP host (case first of None \<Rightarrow> Some a | Some f \<Rightarrow> Some f) ips = Inr f"
    by (cases "parseIP ip") (simp_all split: if_splits)
  from Cons.IH [OF a(3)] show ?case using a(1,2) by (cases first) simp_all
qed simp

text \<open>
  The connection of the local proxy stays on the machine.  Whatever name the HTTP client
  asks for, for instance that of a redirect, a connection is opened only when every address it
  resolves to is a loopback address, and then to a loopback address.
\<close>

theorem dial_loopback_only:
  assumes "dialContext splitHostPort lookup parseIP addr = Inr target"
  shows "\<exists>host port ips. splitHostPort addr = Inr (host, port) \<and> lookup host = Inr ips \<and>
    (\<forall>ip \<in> set ips. \<exists>a. parseIP ip = Some a \<and> ipLoopback a) \<and>
    (target = ''127.0.0.1:'' @ port \<or> target = ''[::1]:'' @ port)"
  using assms by (auto simp: dialContext_def split: sum.splits option.splits if_splits dest!: loopbackIPs_Inr)

theorem dial_loopback_only_witness:
  "\<exists>ip. dialContext (\<lambda>_. Inr (''localhost'', ''80'')) (\<lambda>_. Inr [''127.0.0.1''])
      [''127.0.0.1'' \<mapsto> \<lparr>ipLoopback = True, ipV4 = True\<rparr>] ''localhost:80'' = Inr ''127.0.0.1:80'' \<and>
     [''127.0.0.1'' \<mapsto> \<lparr>ipLoopback = True, ipV4 = True\<rparr>] ''127.0.0.1'' = Some ip \<and> ipLoopback ip"
proof -
  have d: "dialContext (\<lambda>_. Inr (''localhost'', ''80'')) (\<lambda>_. Inr [''127.0.0.1''])
      [''127.0.0.1'' \<mapsto> \<lparr>ipLoopback = True, ipV4 = True\<rparr>] ''localhost:80'' = Inr ''127.0.0.1:80''"
    by (simp add: dialContext_def)
  from dial_loopback_only [OF d] obtain ip where
    "[''127.0.0.1'' \<mapsto> \<lparr>ipLoopback = True, ipV4 = True\<rparr>] ''127.0.0.1'' = Some ip" "ipLoopback ip" by auto
  with d show ?thesis by blast
qed

end
