(* ===== verification/AgentHardware.thy ===== *)
theory AgentHardware
  imports GoJson
begin

text \<open>
  The hardware report of an agent (\<open>sysplane-agent/collector/hardware.go\<close>).  What package gopsutil reads
  of the machine is the argument \<open>hwSources\<close>, one function for each call of the package.  The five
  collectors write different variables and none of them gives an error, so their order does not
  matter.  A slice that may be nil is an option.
\<close>

section \<open>Sources\<close>

record memStat =
  msTotal :: int
  msAvailable :: int
  msUsed :: int
  msUsedPercent :: rat

record partitionStat =
  psDevice :: string
  psMountpoint :: string
  psFstype :: string

record usageStat =
  usTotal :: int
  usFree :: int
  usUsedPercent :: rat

record interfaceStat =
  isName :: string
  isHardwareAddr :: string
  isAddrs :: "string list"

record ioCounter =
  icName :: string
  icBytesSent :: int
  icBytesRecv :: int

record hostStat =
  hoHostname :: string
  hoOS :: string
  hoPlatform :: string
  hoPlatformVersion :: string
  hoKernelVersion :: string
  hoUptime :: int
  hoBootTime :: int

text \<open>\<open>hsCpuInfo\<close> gives the model name of each processor.  A count is used even when it comes with an error.\<close>

record hwSources =
  hsCpuInfo :: "goerr + string list"
  hsCpuCounts :: "bool \<Rightarrow> int \<times> goerr option"
  hsCpuPercent :: "goerr + rat list option"
  hsMemory :: "goerr + memStat"
  hsPartitions :: "goerr + partitionStat list"
  hsUsage :: "string \<Rightarrow> goerr + usageStat"
  hsInterfaces :: "goerr + interfaceStat list"
  hsIOCounters :: "ioCounter list \<times> goerr option"
  hsHost :: "goerr + hostStat"

section \<open>The report\<close>

record cpuInfo =
  ciModelName :: string
  ciPhysicalCores :: int
  ciLogicalCores :: int
  ciUsagePercent :: "rat list option"

record memInfo =
  miTotalBytes :: int
  miAvailableBytes :: int
  miUsedBytes :: int
  miUsedPercent :: rat

record diskInfo =
  diDevice :: string
  diMountpoint :: string
  diFstype :: string
  diTotalBytes :: int
  diFreeBytes :: int
  diUsedPercent :: rat

record netInfo =
  niName :: string
  niHardwareAddr :: string
  niAddrs :: "string list"
  niBytesSent :: int
  niBytesRecv :: int

record systemInfo =
  siHostname :: string
  siOS :: string
  siPlatform :: string
  siPlatformVersion :: string
  siKernelVersion :: string
  siUptimeSeconds :: int
  siBootTime :: int

record hardwareInfo =
  hiCPU :: cpuInfo
  hiMemory :: memInfo
  hiDisks :: "diskInfo list"
  hiNetwork :: "netInfo list"
  hiSystem :: systemInfo

definition collectCPU :: "hwSources \<Rightarrow> cpuInfo" where
  "collectCPU hw =
     (case hsCpuInfo hw of
        Inr (model # models) \<Rightarrow>
          \<lparr>ciModelName = model, ciPhysicalCores = fst (hsCpuCounts hw False),
           ciLogicalCores = fst (hsCpuCounts hw True),
           ciUsagePercent = (case hsCpuPercent hw of Inl e \<Rightarrow> None | Inr us \<Rightarrow> us)\<rparr>
      | _ \<Rightarrow> \<lparr>ciModelName = [], ciPhysicalCores = 0, ciLogicalCores = 0, ciUsagePercent = None\<rparr>)"

definition collectMemory :: "hwSources \<Rightarrow> memInfo" where
  "collectMemory hw =
     (case hsMemory hw of
        Inl e \<Rightarrow> \<lparr>miTotalBytes = 0, miAvailableBytes = 0, miUsedBytes = 0, miUsedPercent = 0\<rparr>
      | Inr v \<Rightarrow> \<lparr>miTotalBytes = msTotal v, miAvailableBytes = msAvailable v, miUsedBytes = msUsed v,
                  miUsedPercent = msUsedPercent v\<rparr>)"

text \<open>The loop over the partitions: one whose usage cannot be read is left out.\<close>

fun collectPartitions :: "hwSources \<Rightarrow> partitionStat list \<Rightarrow> diskInfo list" where
  "collectPartitions hw [] = []"
| "collectPartitions hw (p # ps) =
     (case hsUsage hw (psMountpoint p) of
        Inl e \<Rightarrow> collectPartitions hw ps
      | Inr u \<Rightarrow>
          \<lparr>diDevice = psDevice p, diMountpoint = psMountpoint p, diFstype = psFstype p, diTotalBytes = usTotal u,
           diFreeBytes = usFree u, diUsedPercent = usUsedPercent u\<rparr> # collectPartitions hw ps)"

definition collectDisks :: "hwSources \<Rightarrow> diskInfo list" where
  "collectDisks hw = (case hsPartitions hw of Inl e \<Rightarrow> [] | Inr ps \<Rightarrow> collectPartitions hw ps)"

text \<open>\<open>counterMap[c.Name] = c\<close> for every counter: the last one of a name stays.\<close>

definition counterMap :: "ioCounter list \<Rightarrow> ioCounter gomap" where
  "counterMap cs = foldl (\<lambda>m c. AList.update (icName c) c m) [] cs"

definition collectNetwork :: "hwSources \<Rightarrow> netInfo list" where
  "collectNetwork hw =
     (case hsInterfaces hw of
        Inl e \<Rightarrow> []
      | Inr ifaces \<Rightarrow>
          (let counters = counterMap (fst (hsIOCounters hw)) in
           List.map (\<lambda>i.
             let (sent, recv) = (case map_of counters (isName i) of
                   Some c \<Rightarrow> (icBytesSent c, icBytesRecv c) | None \<Rightarrow> (0, 0))
             in \<lparr>niName = isName i, niHardwareAddr = isHardwareAddr i, niAddrs = isAddrs i,
                 niBytesSent = sent, niBytesRecv = recv\<rparr>) ifaces))"

definition collectSystem :: "hwSources \<Rightarrow> systemInfo" where
  "collectSystem hw =
     (case hsHost hw of
        Inl e \<Rightarrow> \<lparr>siHostname = [], siOS = [], siPlatform = [], siPlatformVersion = [], siKernelVersion = [],
                  siUptimeSeconds = 0, siBootTime = 0\<rparr>
      | Inr h \<Rightarrow> \<lparr>siHostname = hoHostname h, siOS = hoOS h, siPlatform = hoPlatform h,
                  siPlatformVersion = hoPlatformVersion h, siKernelVersion = hoKernelVersion h,
                  siUptimeSeconds = hoUptime h, siBootTime = wrap64 (hoBootTime h)\<rparr>)"

definition collectHardware :: "hwSources \<Rightarrow> hardwareInfo" where
  "collectHardware hw =
     \<lparr>hiCPU = collectCPU hw, hiMemory = collectMemory hw, hiDisks = collectDisks hw,
      hiNetwork = collectNetwork hw, hiSystem = collectSystem hw\<rparr>"

section \<open>The report as JSON\<close>

definition jNumber :: "int \<Rightarrow> json" where
  "jNumber n = JNum (of_int n)"

text \<open>A slice that nothing was appended to is nil.\<close>

definition nilSlice :: "json list \<Rightarrow> json" where
  "nilSlice xs = (if xs = [] then JNull else JArr xs)"

definition cpuJson :: "cpuInfo \<Rightarrow> jobj" where
  "cpuJson c =
     [(''model_name'', JStr (ciModelName c)), (''physical_cores'', jNumber (ciPhysicalCores c)),
      (''logical_cores'', jNumber (ciLogicalCores c)),
      (''usage_percent'', (case ciUsagePercent c of None \<Rightarrow> JNull | Some us \<Rightarrow> JArr (List.map JNum us)))]"

definition memJson :: "memInfo \<Rightarrow> jobj" where
  "memJson m =
     [(''total_bytes'', jNumber (miTotalBytes m)), (''available_bytes'', jNumber (miAvailableBytes m)),
      (''used_bytes'', jNumber (miUsedBytes m)), (''used_percent'', JNum (miUsedPercent m))]"

definition diskJson :: "diskInfo \<Rightarrow> jobj" where
  "diskJson d =
     [(''device'', JStr (diDevice d)), (''mountpoint'', JStr (diMountpoint d)), (''fstype'', JStr (diFstype d)),
      (''total_bytes'', jNumber (diTotalBytes d)), (''free_bytes'', jNumber (diFreeBytes d)),
      (''used_percent'', JNum (diUsedPercent d))]"

definition netJson :: "netInfo \<Rightarrow> jobj" where
  "netJson n =
     [(''name'', JStr (niName n)), (''hardware_addr'', JStr (niHardwareAddr n)),
      (''addrs'', JArr (List.map JStr (niAddrs n))), (''bytes_sent'', jNumber (niBytesSent n)),
      (''bytes_recv'', jNumber (niBytesRecv n))]"

definition systemJson :: "systemInfo \<Rightarrow> jobj" where
  "systemJson s =
     [(''hostname'', JStr (siHostname s)), (''os'', JStr (siOS s)), (''platform'', JStr (siPlatform s)),
      (''platform_version'', JStr (siPlatformVersion s)), (''kernel_version'', JStr (siKernelVersion s)),
      (''uptime_seconds'', jNumber (siUptimeSeconds s)), (''boot_time'', jNumber (siBootTime s))]"

definition hardwareJson :: "hardwareInfo \<Rightarrow> jobj" where
  "hardwareJson h =
     [(''cpu'', JObj (cpuJson (hiCPU h))), (''memory'', JObj (memJson (hiMemory h))),
      (''disks'', nilSlice (List.map (\<lambda>d. JObj (diskJson d)) (hiDisks h))),
      (''network'', nilSlice (List.map (\<lambda>n. JObj (netJson n)) (hiNetwork h))),
      (''system'', JObj (systemJson (hiSystem h)))]"

text \<open>\<open>GetHardwareInfo\<close>: the arguments are not looked at, and there is always a report.\<close>

definition getHardwareInfo :: "hwSources \<Rightarrow> jtext \<Rightarrow> goerr + jtext" where
  "getHardwareInfo hw args = Inr (JText (JObj (hardwareJson (collectHardware hw))))"

lemma counterMap_last: "map_of (counterMap cs) k = map_of (rev (List.map (\<lambda>c. (icName c, c)) cs)) k"
proof (induction cs rule: rev_induct)
  case (snoc c cs)
  then show ?case by (auto simp: counterMap_def)
qed (simp add: counterMap_def)

lemma collectPartitions_disks:
  "collectPartitions hw ps = List.map (\<lambda>(p, u). \<lparr>diDevice = psDevice p, diMountpoint = psMountpoint p, diFstype = psFstype p,
      diTotalBytes = usTotal u, diFreeBytes = usFree u, diUsedPercent = usUsedPercent u\<rparr>)
    (concat (List.map (\<lambda>p. case hsUsage hw (psMountpoint p) of Inl e \<Rightarrow> [] | Inr u \<Rightarrow> [(p, u)]) ps))"
  by (induction ps) (auto split: sum.split)

end
