(* ===== verification/Agent.thy ===== *)
theory Agent
  imports AgentConfig AgentFind AgentProxy AgentHardware Dialer
begin

text \<open>
  The agent (\<open>internal/sysplane-agent/agent.go\<close>): its tools, and the calls it serves.  \<open>dispatch\<close> starts a
  goroutine for every tool request; its handler runs against the world (\<open>agentEnv\<close>) and the security settings
  of that moment, sends one answer, and then forgets the cancel function of the request.  The
  goroutines interleave with each other and with \<open>dispatch\<close>: a run is a list of events.  The handler
  with its answer is one event, the deferred clean-up another.
\<close>

section \<open>The world during one call\<close>

record agentEnv =
  aeCtx :: "nat \<Rightarrow> goerr option"
  aeOs :: osView
  aeReadDir :: "string \<Rightarrow> goerr + dirEntry list"
  aeLstat :: "string \<Rightarrow> goerr + fileInfo"
  aeReadlink :: "string \<Rightarrow> goerr + string"
  aeNotExist :: "goerr \<Rightarrow> bool"
  aeCompile :: "string \<Rightarrow> goerr + (string \<Rightarrow> bool)"
  aeOpenErr :: "goerr option"
  aeWriteErr :: "(nat \<times> goerr) option"
  aeExec :: osExec
  aeBuildErr :: "string \<Rightarrow> string \<Rightarrow> goerr option"
  aeDoRequest :: "httpRequest \<Rightarrow> goerr + httpResponse"
  aeJsonValid :: "string \<Rightarrow> bool"
  aeHardware :: hwSources
  aeYaml :: yamlEnv
  aeShowTime :: "int \<Rightarrow> string"
  aeSendErr :: "goerr option"

section \<open>Results as JSON\<close>

definition jInt :: "int \<Rightarrow> json" where "jInt n = JNum (of_int n)"

definition omitEmpty :: "string \<Rightarrow> string \<Rightarrow> jobj" where
  "omitEmpty k s = (if s = [] then [] else [(k, JStr s)])"

definition readResultJson :: "readFileResult \<Rightarrow> jtext" where
  "readResultJson r = JText (JObj
     [(''path'', JStr (rsPath r)), (''content'', JStr (rsContent r)), (''encoding'', JStr (rsEncoding r)),
      (''lines'', jInt (int (rsLines r))), (''truncated'', JBool (rsTruncated r)),
      (''is_binary'', JBool (rsIsBinary r)), (''size_bytes'', jInt (rsSizeBytes r))])"

definition writeResultJson :: "writeFileResult \<Rightarrow> jtext" where
  "writeResultJson r = JText (JObj
     [(''path'', JStr (wrPath r)), (''bytes_written'', jInt (int (wrBytesWritten r))), (''created'', JBool (wrCreated r))])"

definition entryJson :: "(int \<Rightarrow> string) \<Rightarrow> fileEntry \<Rightarrow> json" where
  "entryJson showTime e = JObj
     [(''name'', JStr (feName e)), (''type'', JStr (feType e)), (''size'', jInt (feSize e)),
      (''modified_at'', JStr (showTime (feModifiedAt e))), (''permissions'', JStr (fePermissions e))]"

definition listResultJson :: "(int \<Rightarrow> string) \<Rightarrow> listDirectoryResult \<Rightarrow> jtext" where
  "listResultJson showTime r = JText (JObj
     [(''path'', JStr (ldPath r)), (''items'', JArr (List.map (entryJson showTime) (ldItems r))),
      (''total'', jInt (int (ldTotal r)))])"

definition statResultJson :: "(int \<Rightarrow> string) \<Rightarrow> statResult \<Rightarrow> jtext" where
  "statResultJson showTime r = JText (JObj
     ([(''path'', JStr (srPath r)), (''name'', JStr (srName r)), (''type'', JStr (srType r)),
       (''size'', jInt (srSize r)), (''permissions'', JStr (srPermissions r)),
       (''modified_at'', JStr (showTime (srModifiedAt r))), (''is_symlink'', JBool (srIsSymlink r))] @
      omitEmpty ''link_target'' (srLinkTarget r)))"

definition checkResultJson :: "checkPathResult \<Rightarrow> jtext" where
  "checkResultJson r = JText (JObj
     ([(''path'', JStr (cxPath r)), (''exists'', JBool (cxExists r))] @ omitEmpty ''type'' (cxType r)))"

definition matchLineJson :: "matchLine \<Rightarrow> json" where
  "matchLineJson m = JObj
     ((if mlLineNum m = 0 then [] else [(''line_num'', jInt (int (mlLineNum m)))]) @
      [(''content'', JStr (mlContent m))] @ omitEmpty ''context'' (mlContext m))"

definition searchResultJson :: "searchResult \<Rightarrow> jtext" where
  "searchResultJson r = JText (JObj
     [(''path'', JStr (xrPath r)), (''pattern'', JStr (xrPattern r)),
      (''matches'', if xrMatches r = [] then JNull else JArr (List.map matchLineJson (xrMatches r))),
      (''count'', jInt (int (xrCount r)))])"

definition runResultJson :: "runResult \<Rightarrow> jtext" where
  "runResultJson r = JText (JObj
     [(''command'', JStr (rrCommand r)),
      (''args'', if rrArgs r = [] then JNull else JArr (List.map JStr (rrArgs r))),
      (''stdout'', JStr (rrStdout r)), (''stderr'', JStr (rrStderr r)), (''exit_code'', jInt (rrExitCode r)),
      (''success'', JBool (rrSuccess r)), (''truncated'', JBool (rrTruncated r)),
      (''duration_ms'', jInt (rrDurationMs r))])"

definition callResultJson :: "callResult \<Rightarrow> jtext" where
  "callResultJson r = JText (JObj
     [(''request_url'', JStr (crURL r)), (''status_code'', jInt (crStatus r)),
      (''headers'', JObj (List.map (\<lambda>(k, v). (k, JStr v)) (crHeaders r))), (''body'', JStr (crBody r)),
      (''body_is_json'', JBool (crBodyIsJSON r)), (''duration_ms'', jInt (crDurationMs r))])"

section \<open>The state\<close>

datatype callPhase = Serving | Answered | Ended

record agentCall =
  agReq :: toolRequest
  agCancelled :: bool
  agPhase :: callPhase

text \<open>\<open>asCancels\<close> is \<open>cancelFns\<close>: the call whose cancel function is stored under a request id.  The last three
  fields record what the agent has done to the machine.\<close>

record agentSys =
  asConfigPath :: string
  asSecurity :: security
  asConfigFile :: string
  asCancels :: "nat gomap"
  asCalls :: "nat \<Rightarrow> agentCall option"
  asNext :: nat
  asOut :: "tunnelMessage list"
  asFiles :: files
  asProcs :: "procSpec list"
  asHttp :: "httpRequest list"

definition agentNew :: "agentConfig \<Rightarrow> string \<Rightarrow> files \<Rightarrow> agentSys" where
  "agentNew cfg file fs =
     \<lparr>asConfigPath = acConfigPath cfg, asSecurity = acSecurity cfg, asConfigFile = file, asCancels = [],
      asCalls = (\<lambda>_. None), asNext = 0, asOut = [], asFiles = fs, asProcs = [], asHttp = []\<rparr>"

definition currentGuard :: "agentSys \<Rightarrow> pathGuard" where
  "currentGuard s = newPathGuard (seAllowedPaths (asSecurity s)) (seBlockedPaths (asSecurity s))"

section \<open>The tools\<close>

definition agentTools :: "string list" where
  "agentTools = [''list_directory'', ''stat_file'', ''check_path_exists'', ''read_file'', ''write_file'',
     ''search_file_content'', ''get_hardware_info'', ''run_process'', ''proxy_local_api'',
     ''get_agent_config'', ''set_agent_config'']"

definition encodeWith :: "('a \<Rightarrow> jtext) \<Rightarrow> goerr + 'a \<Rightarrow> goerr + jtext" where
  "encodeWith f r = map_sum id f r"

definition runTool :: "agentEnv \<Rightarrow> string \<Rightarrow> jtext \<Rightarrow> agentSys \<Rightarrow> (goerr + jtext) \<times> agentSys" where
  "runTool env tool args s =
     (let g = currentGuard s; links = ovLinks (aeOs env); sec = asSecurity s in
      if tool = ''list_directory''
      then (encodeWith (listResultJson (aeShowTime env)) (listDirectory (aeCtx env) links (aeReadDir env) g args), s)
      else if tool = ''stat_file''
      then (encodeWith (statResultJson (aeShowTime env)) (statFile links (aeLstat env) (aeReadlink env) g args), s)
      else if tool = ''check_path_exists''
      then (encodeWith checkResultJson (checkPathExists links (aeLstat env) (aeNotExist env) g args), s)
      else if tool = ''read_file''
      then (encodeWith readResultJson (readFile (aeCtx env) (aeOs env) g (seMaxFileSizeMB sec) args), s)
      else if tool = ''write_file''
      then (let (r, fs) = writeFile (aeCtx env 0) links g (aeOpenErr env) (aeWriteErr env) args (asFiles s)
            in (encodeWith writeResultJson r, s\<lparr>asFiles := fs\<rparr>))
      else if tool = ''search_file_content''
      then (encodeWith searchResultJson
             (searchFileContent (aeCtx env) (aeCompile env) links (ovOpen (aeOs env)) g args), s)
      else if tool = ''get_hardware_info'' then (getHardwareInfo (aeHardware env) args, s)
      else if tool = ''run_process''
      then (let (r, started) = runProcess (aeExec env) (newRunner (seAllowedCommands sec)) args
            in (encodeWith runResultJson r, s\<lparr>asProcs := asProcs s @ started\<rparr>))
      else if tool = ''proxy_local_api''
      then (let (r, reqs) = proxyCall (aeBuildErr env) (aeDoRequest env) (aeJsonValid env)
                  \<lparr>pcAllowPrivileged = seAllowPrivilegedPorts sec, pcAllowedPorts = seAllowedPorts sec\<rparr> args
            in (encodeWith callResultJson r, s\<lparr>asHttp := asHttp s @ reqs\<rparr>))
      else if tool = ''get_agent_config'' then (handleGetConfig sec, s)
      else (let (r, sec', file) = handleSetConfig (aeYaml env) (asConfigPath s) args sec (asConfigFile s)
            in (r, s\<lparr>asSecurity := sec', asConfigFile := file\<rparr>)))"

section \<open>Serving requests\<close>

definition agentDispatch :: "tunnelMessage \<Rightarrow> agentSys \<Rightarrow> agentSys" where
  "agentDispatch msg s =
     (case getCancelRequest msg of
        Some i \<Rightarrow>
          (case map_of (asCancels s) i of
             None \<Rightarrow> s
           | Some c \<Rightarrow> s\<lparr>asCancels := AList.delete i (asCancels s),
               asCalls := (asCalls s)(c := map_option (\<lambda>k. k\<lparr>agCancelled := True\<rparr>) (asCalls s c))\<rparr>)
      | None \<Rightarrow>
          (case getToolRequest msg of
             None \<Rightarrow> s
           | Some q \<Rightarrow>
               s\<lparr>asCancels := AList.update (trRequestId q) (asNext s) (asCancels s),
                 asCalls := (asCalls s)(asNext s \<mapsto> \<lparr>agReq = q, agCancelled = False, agPhase = Serving\<rparr>),
                 asNext := Suc (asNext s)\<rparr>))"

definition toolAnswer :: "string \<Rightarrow> goerr + jtext \<Rightarrow> tunnelMessage" where
  "toolAnswer i r =
     (case r of
        Inl e \<Rightarrow> ErrorResponse \<lparr>erRequestId = i, erCode = ''TOOL_ERROR'', erMessage = errMsg e\<rparr>
      | Inr out \<Rightarrow> ToolResponse i out)"

definition toolNotFound :: "toolRequest \<Rightarrow> tunnelMessage" where
  "toolNotFound q = ErrorResponse \<lparr>erRequestId = trRequestId q, erCode = ''TOOL_NOT_FOUND'',
     erMessage = ''tool '' @ quoteStr (trToolName q) @ '' not found''\<rparr>"

text \<open>The context of a call that has been cancelled gives \<open>context.Canceled\<close> at every check.\<close>

definition callEnvOf :: "agentCall \<Rightarrow> agentEnv \<Rightarrow> agentEnv" where
  "callEnvOf k env = (if agCancelled k then env\<lparr>aeCtx := (\<lambda>_. Some CtxCanceled)\<rparr> else env)"

text \<open>The answer and the state after the handler.\<close>

definition serveCall :: "agentEnv \<Rightarrow> toolRequest \<Rightarrow> agentSys \<Rightarrow> tunnelMessage \<times> agentSys" where
  "serveCall env q s =
     (if trToolName q \<notin> set agentTools then (toolNotFound q, s)
      else (let (r, s') = runTool env (trToolName q) (trArgsJson q) s
            in (toolAnswer (trRequestId q) r, s')))"

datatype agentEvent =
    AgentMsg tunnelMessage
  | AgentServe nat agentEnv
  | AgentCleanup nat

fun agentStep :: "agentSys \<Rightarrow> agentEvent \<Rightarrow> agentSys option" where
  "agentStep s (AgentMsg m) = Some (agentDispatch m s)"
| "agentStep s (AgentServe c env) =
     (case asCalls s c of
        None \<Rightarrow> None
      | Some k \<Rightarrow>
          if agPhase k \<noteq> Serving then None
          else
            (let (answer, s') = serveCall (callEnvOf k env) (agReq k) s
             in Some (s'\<lparr>asOut := asOut s' @ (if aeSendErr env = None then [answer] else []),
                         asCalls := (asCalls s')(c \<mapsto> k\<lparr>agPhase := Answered\<rparr>)\<rparr>)))"
| "agentStep s (AgentCleanup c) =
     (case asCalls s c of
        None \<Rightarrow> None
      | Some k \<Rightarrow>
          if agPhase k \<noteq> Answered then None
          else Some (s\<lparr>asCancels := AList.delete (trRequestId (agReq k)) (asCancels s),
                       asCalls := (asCalls s)(c \<mapsto> k\<lparr>agPhase := Ended\<rparr>)\<rparr>))"

fun runAgent :: "agentSys \<Rightarrow> agentEvent list \<Rightarrow> agentSys option" where
  "runAgent s [] = Some s"
| "runAgent s (e # es) = (case agentStep s e of None \<Rightarrow> None | Some s' \<Rightarrow> runAgent s' es)"

section \<open>Connecting\<close>

text \<open>\<open>Run\<close>: the registration and the settings of the dialer; \<open>osName\<close>, \<open>version\<close> and \<open>osHostname\<close> are what the
  platform and the build say.\<close>

definition agentRegisterMsg :: "agentConfig \<Rightarrow> string \<Rightarrow> string \<Rightarrow> string \<Rightarrow> registerRequest" where
  "agentRegisterMsg cfg osHostname osName version =
     \<lparr>rrHostname = (if acHostname cfg = [] then osHostname else acHostname cfg), rrIp = [], rrOs = osName,
      rrAgentVersion = version, rrNodeType = NODE_TYPE_AGENT, rrProxyPath = [],
      rrToken = ucToken (acUpstream cfg)\<rparr>"

definition agentDialer :: "agentConfig \<Rightarrow> string \<Rightarrow> string \<Rightarrow> string \<Rightarrow> dialerConfig" where
  "agentDialer cfg osHostname osName version = newDialer
     \<lparr>dcEndpoint = ucAddress (acUpstream cfg),
      dcRegisterMsg = RegisterRequest (agentRegisterMsg cfg osHostname osName version),
      dcHeartbeatInterval = 30 * second,
      dcReconnectMaxDelay = wrap64 (acReconnectMaxDelaySec cfg * second)\<rparr>"

text \<open>The deadline of a call after its start.\<close>

definition toolTimeout :: "agentConfig \<Rightarrow> int" where
  "toolTimeout cfg = wrap64 (acToolTimeoutSec cfg * second)"

section \<open>Lemmas\<close>

lemma runTool_frame:
  assumes "runTool env tool args s = (r, s')"
  shows "asCancels s' = asCancels s" "asCalls s' = asCalls s" "asNext s' = asNext s" "asOut s' = asOut s"
    "asConfigPath s' = asConfigPath s"
  using assms by (auto simp: runTool_def Let_def split: if_splits prod.splits)

lemma serveCall_frame:
  assumes "serveCall env q s = (a, s')"
  shows "asCancels s' = asCancels s" "asCalls s' = asCalls s" "asNext s' = asNext s" "asOut s' = asOut s"
    "asConfigPath s' = asConfigPath s"
  using assms by (auto simp: serveCall_def dest: runTool_frame split: if_splits prod.splits)

definition answerId :: "tunnelMessage \<Rightarrow> string" where
  "answerId m = (case m of ToolResponse i _ \<Rightarrow> i | ErrorResponse e \<Rightarrow> erRequestId e | _ \<Rightarrow> [])"

lemma serveCall_answer: "serveCall env q s = (a, s') \<Longrightarrow> answerId a = trRequestId q"
  by (auto simp: serveCall_def toolAnswer_def toolNotFound_def answerId_def split: if_splits prod.splits sum.splits)

lemma runAgent_append: "runAgent s (es @ es') = Option.bind (runAgent s es) (\<lambda>s'. runAgent s' es')"
  by (induction es arbitrary: s) (auto split: option.split)

lemma runAgent_snoc:
  "runAgent s (es @ [e]) = Some s'' \<longleftrightarrow> (\<exists>s'. runAgent s es = Some s' \<and> agentStep s' e = Some s'')"
  by (auto simp: runAgent_append bind_eq_Some_conv split: option.splits)

fun requestedIds :: "agentEvent list \<Rightarrow> string list" where
  "requestedIds [] = []"
| "requestedIds (AgentMsg (ToolRequest q) # es) = trRequestId q # requestedIds es"
| "requestedIds (_ # es) = requestedIds es"

lemma requestedIds_append: "requestedIds (es @ es') = requestedIds es @ requestedIds es'"
  by (induction es rule: requestedIds.induct) auto

definition sendsFail :: "agentEvent list \<Rightarrow> bool" where
  "sendsFail es \<longleftrightarrow> (\<exists>c env. AgentServe c env \<in> set es \<and> aeSendErr env \<noteq> None)"

text \<open>The id of a call.\<close>

definition callId :: "agentSys \<Rightarrow> nat \<Rightarrow> string" where
  "callId s c = (case asCalls s c of None \<Rightarrow> [] | Some k \<Rightarrow> trRequestId (agReq k))"

text \<open>
  The invariant of a run in which no request id comes twice: calls are numbered, the ids are those of the
  requests, the answers are those of different calls that are no longer being served, and a
  cancel function is stored exactly for a call that has neither ended nor been cancelled.
\<close>

definition agentInv :: "string list \<Rightarrow> agentSys \<Rightarrow> bool" where
  "agentInv ids s \<longleftrightarrow>
     (\<forall>c. asCalls s c \<noteq> None \<longleftrightarrow> c < asNext s) \<and>
     List.map (callId s) [0 ..< asNext s] = ids \<and>
     distinct (List.map answerId (asOut s)) \<and>
     (\<forall>m \<in> set (asOut s). \<exists>c k. asCalls s c = Some k \<and> agPhase k \<noteq> Serving \<and> answerId m = trRequestId (agReq k)) \<and>
     (\<forall>i c. map_of (asCancels s) i = Some c \<longleftrightarrow>
        (\<exists>k. asCalls s c = Some k \<and> trRequestId (agReq k) = i \<and> agPhase k \<noteq> Ended \<and> \<not> agCancelled k))"

lemma callId_distinct:
  assumes "agentInv ids s" and "distinct ids"
    and "asCalls s c = Some k" and "asCalls s c' = Some k'" and "trRequestId (agReq k) = trRequestId (agReq k')"
  shows "c = c'"
proof -
  have lt: "c < asNext s" "c' < asNext s" using assms(1,3,4) unfolding agentInv_def by (metis option.distinct(1))+
  have "distinct (List.map (callId s) [0 ..< asNext s])" using assms(1,2) by (simp add: agentInv_def)
  then have "inj_on (callId s) {0 ..< asNext s}" by (simp add: distinct_map)
  moreover have "callId s c = callId s c'" using assms(3-5) by (simp add: callId_def)
  ultimately show ?thesis using lt by (simp add: inj_on_def)
qed

lemma agentInv_parts:
  assumes "agentInv ids s"
  shows "\<And>c. asCalls s c \<noteq> None \<longleftrightarrow> c < asNext s" "List.map (callId s) [0 ..< asNext s] = ids"
    "distinct (List.map answerId (asOut s))"
    "\<And>m. m \<in> set (asOut s) \<Longrightarrow> \<exists>c k. asCalls s c = Some k \<and> agPhase k \<noteq> Serving \<and> answerId m = trRequestId (agReq k)"
    "\<And>i c. map_of (asCancels s) i = Some c \<longleftrightarrow>
        (\<exists>k. asCalls s c = Some k \<and> trRequestId (agReq k) = i \<and> agPhase k \<noteq> Ended \<and> \<not> agCancelled k)"
  using assms unfolding agentInv_def by blast+

text \<open>Changing the phase or the mark of one call.\<close>

lemma agentInv_update:
  assumes inv0: "agentInv ids s" and k: "asCalls s c = Some k" and "agReq k' = agReq k"
    and calls: "asCalls s' = (asCalls s)(c \<mapsto> k')" and "asNext s' = asNext s"
    and out: "distinct (List.map answerId (asOut s'))"
      "\<And>m. m \<in> set (asOut s') \<Longrightarrow> m \<in> set (asOut s) \<or> agPhase k' \<noteq> Serving \<and> answerId m = trRequestId (agReq k)"
    and phase: "agPhase k \<noteq> Serving \<Longrightarrow> agPhase k' \<noteq> Serving"
    and cancels: "\<And>i d. map_of (asCancels s') i = Some d \<longleftrightarrow>
        (if d = c then trRequestId (agReq k) = i \<and> agPhase k' \<noteq> Ended \<and> \<not> agCancelled k'
         else map_of (asCancels s) i = Some d)"
  shows "agentInv ids s'"
proof -
  note inv = agentInv_parts [OF inv0]
  have "callId s' = callId s" using assms(3) k calls by (auto simp: callId_def fun_eq_iff)
  moreover have "asCalls s' d \<noteq> None \<longleftrightarrow> d < asNext s'" for d
    using inv(1) [of d] inv(1) [of c] k calls assms(5) by auto
  moreover have "\<exists>d kd. asCalls s' d = Some kd \<and> agPhase kd \<noteq> Serving \<and> answerId m = trRequestId (agReq kd)"
    if m: "m \<in> set (asOut s')" for m
  proof -
    from out(2) [OF m] show ?thesis
    proof
      assume "m \<in> set (asOut s)"
      from inv(4) [OF this] obtain d kd where "asCalls s d = Some kd" "agPhase kd \<noteq> Serving"
        "answerId m = trRequestId (agReq kd)" by blast
      then show ?thesis using k calls assms(3) phase by (cases "d = c") auto
    next
      assume "agPhase k' \<noteq> Serving \<and> answerId m = trRequestId (agReq k)"
      then show ?thesis using calls assms(3) by (intro exI [of _ c] exI [of _ k']) simp
    qed
  qed
  moreover have "map_of (asCancels s') i = Some d \<longleftrightarrow>
      (\<exists>kd. asCalls s' d = Some kd \<and> trRequestId (agReq kd) = i \<and> agPhase kd \<noteq> Ended \<and> \<not> agCancelled kd)" for i d
    using cancels [of i d] inv(5) [of i d] calls assms(3) by auto
  ultimately show ?thesis using inv(2) out(1) assms(5) unfolding agentInv_def by simp
qed

lemma agentInv_cancel:
  assumes inv0: "agentInv ids s" and "distinct ids"
  shows "agentInv ids (agentDispatch (CancelRequest i) s)"
proof (cases "map_of (asCancels s) i")
  case None
  then show ?thesis using inv0 by (simp add: agentDispatch_def)
next
  case (Some c)
  with agentInv_parts(5) [OF inv0] obtain k where k: "asCalls s c = Some k" "trRequestId (agReq k) = i"
    by blast
  have "map_of (AList.delete i (asCancels s)) j = Some d \<longleftrightarrow>
      (if d = c then False else map_of (asCancels s) j = Some d)" for j d
    using Some k agentInv_parts(5) [OF inv0, of j c] agentInv_parts(5) [OF inv0, of i d] by auto
  then show ?thesis
    using agentInv_parts(3,4) [OF inv0] k Some
    by (intro agentInv_update [OF inv0 k(1), of "k\<lparr>agCancelled := True\<rparr>"]) (auto simp: agentDispatch_def)
qed

lemma agentInv_serve:
  assumes inv0: "agentInv ids s" and dist: "distinct ids" and step: "agentStep s (AgentServe c env) = Some s'"
  shows "agentInv ids s'"
proof -
  from step obtain k answer s1 where k: "asCalls s c = Some k" "agPhase k = Serving"
    and sv: "serveCall (callEnvOf k env) (agReq k) s = (answer, s1)"
    and s': "s' = s1\<lparr>asOut := asOut s1 @ (if aeSendErr env = None then [answer] else []),
               asCalls := (asCalls s1)(c \<mapsto> k\<lparr>agPhase := Answered\<rparr>)\<rparr>"
    by (auto split: option.splits if_splits prod.splits)
  note fr = serveCall_frame [OF sv]
  have new: "answerId m \<noteq> trRequestId (agReq k)" if m: "m \<in> set (asOut s)" for m
  proof
    assume e: "answerId m = trRequestId (agReq k)"
    from agentInv_parts(4) [OF inv0 m] obtain d kd where d: "asCalls s d = Some kd" "agPhase kd \<noteq> Serving"
      "answerId m = trRequestId (agReq kd)" by blast
    then have "d = c" using callId_distinct [OF inv0 dist d(1) k(1)] e by simp
    then show False using d k by simp
  qed
  have dd: "distinct (List.map answerId (asOut s'))"
    using agentInv_parts(3) [OF inv0] new serveCall_answer [OF sv] by (force simp: s' fr)
  have cc: "map_of (asCancels s') i = Some d \<longleftrightarrow>
        (if d = c then trRequestId (agReq k) = i \<and> agPhase (k\<lparr>agPhase := Answered\<rparr>) \<noteq> Ended \<and>
           \<not> agCancelled (k\<lparr>agPhase := Answered\<rparr>)
         else map_of (asCancels s) i = Some d)" for i d
    using agentInv_parts(5) [OF inv0, of i c] k by (auto simp: s' fr)
  have oo: "m \<in> set (asOut s') \<Longrightarrow> m \<in> set (asOut s) \<or>
      agPhase (k\<lparr>agPhase := Answered\<rparr>) \<noteq> Serving \<and> answerId m = trRequestId (agReq k)" for m
    using serveCall_answer [OF sv] by (auto simp: s' fr split: if_splits)
  show ?thesis
    by (rule agentInv_update [OF inv0 k(1) _ _ _ dd oo _ cc]) (simp_all add: s' fr)
qed

lemma agentInv_cleanup:
  assumes inv0: "agentInv ids s" and dist: "distinct ids" and step: "agentStep s (AgentCleanup c) = Some s'"
  shows "agentInv ids s'"
proof -
  from step obtain k where k: "asCalls s c = Some k" "agPhase k = Answered"
    and s': "s' = s\<lparr>asCancels := AList.delete (trRequestId (agReq k)) (asCancels s),
               asCalls := (asCalls s)(c \<mapsto> k\<lparr>agPhase := Ended\<rparr>)\<rparr>"
    by (auto split: option.splits if_splits)
  have "map_of (asCancels s') i = Some d \<longleftrightarrow> (if d = c then False else map_of (asCancels s) i = Some d)" for i d
  proof (cases "i = trRequestId (agReq k)")
    case True
    then have "map_of (asCancels s) i = Some d \<Longrightarrow> d = c"
      using agentInv_parts(5) [OF inv0, of i d] callId_distinct [OF inv0 dist _ k(1), of d] by auto
    then show ?thesis using True by (auto simp: s')
  next
    case False
    then show ?thesis using agentInv_parts(5) [OF inv0, of i c] k by (auto simp: s')
  qed
  then show ?thesis
    using agentInv_parts(3) [OF inv0]
    by (intro agentInv_update [OF inv0 k(1), of "k\<lparr>agPhase := Ended\<rparr>"]) (auto simp: s')
qed

lemma agentInv_request:
  assumes inv0: "agentInv ids s" and dist: "distinct (ids @ [trRequestId q])"
  shows "agentInv (ids @ [trRequestId q]) (agentDispatch (ToolRequest q) s)" (is "agentInv _ ?s'")
proof -
  note inv = agentInv_parts [OF inv0]
  have s': "asNext ?s' = Suc (asNext s)" "asOut ?s' = asOut s"
    "asCalls ?s' = (asCalls s)(asNext s \<mapsto> \<lparr>agReq = q, agCancelled = False, agPhase = Serving\<rparr>)"
    "asCancels ?s' = AList.update (trRequestId q) (asNext s) (asCancels s)"
    by (simp_all add: agentDispatch_def)
  have fresh: "asCalls s (asNext s) = None" using inv(1) [of "asNext s"] by simp
  have ids: "List.map (callId ?s') [0 ..< asNext ?s'] = ids @ [trRequestId q]"
  proof -
    have "List.map (callId ?s') [0 ..< asNext s] = List.map (callId s) [0 ..< asNext s]"
      by (intro map_cong) (auto simp: callId_def s'(3))
    then show ?thesis using inv(2) by (simp add: s'(1)) (simp add: callId_def s'(3))
  qed
  have other: "trRequestId (agReq k) \<noteq> trRequestId q" if "asCalls s d = Some k" for d k
  proof -
    have "d < asNext s" using that inv(1) [of d] by simp
    then have "callId s d \<in> set ids" using inv(2) by force
    then show ?thesis using that dist by (auto simp: callId_def)
  qed
  have "map_of (asCancels ?s') i = Some d \<longleftrightarrow>
      (\<exists>k. asCalls ?s' d = Some k \<and> trRequestId (agReq k) = i \<and> agPhase k \<noteq> Ended \<and> \<not> agCancelled k)" for i d
    using inv(5) [of i d] fresh other by (auto simp: s'(3,4))
  moreover have "\<exists>c k. asCalls ?s' c = Some k \<and> agPhase k \<noteq> Serving \<and> answerId m = trRequestId (agReq k)"
    if "m \<in> set (asOut ?s')" for m
    using inv(4) [of m] that fresh unfolding s'(2,3) by (metis fun_upd_other option.distinct(1))
  moreover have "asCalls ?s' c \<noteq> None \<longleftrightarrow> c < asNext ?s'" for c
    using inv(1) [of c] by (auto simp: s')
  ultimately show ?thesis using ids inv(3) unfolding agentInv_def by (simp add: s'(2))
qed

lemma agentInv_run:
  "runAgent (agentNew cfg file fs) es = Some s \<Longrightarrow> distinct (requestedIds es) \<Longrightarrow> agentInv (requestedIds es) s"
proof (induction es arbitrary: s rule: rev_induct)
  case Nil
  then show ?case by (auto simp: agentInv_def agentNew_def)
next
  case (snoc e es)
  from snoc.prems(1) obtain s1 where s1: "runAgent (agentNew cfg file fs) es = Some s1" "agentStep s1 e = Some s"
    by (auto simp: runAgent_snoc)
  have d: "distinct (requestedIds es)" using snoc.prems(2) by (simp add: requestedIds_append)
  note inv1 = snoc.IH [OF s1(1) d]
  show ?case
  proof (cases e)
    case (AgentMsg m)
    have s: "s = agentDispatch m s1" using s1(2) AgentMsg by simp
    show ?thesis
    proof (cases m)
      case (ToolRequest q)
      then show ?thesis
        using agentInv_request [OF inv1, of q] snoc.prems(2) by (simp add: s AgentMsg requestedIds_append)
    next
      case (CancelRequest i)
      then show ?thesis
        using agentInv_cancel [OF inv1 d] by (simp add: s AgentMsg requestedIds_append)
    qed (use inv1 in \<open>simp_all add: s AgentMsg requestedIds_append agentDispatch_def\<close>)
  next
    case (AgentServe c env)
    then show ?thesis using agentInv_serve [OF inv1 d] s1(2) by (simp add: requestedIds_append)
  next
    case (AgentCleanup c)
    then show ?thesis using agentInv_cleanup [OF inv1 d] s1(2) by (simp add: requestedIds_append)
  qed
qed

text \<open>Without failing sends every call that has been served has its answer among those sent.\<close>

lemma agent_answered:
  "runAgent (agentNew cfg file fs) es = Some s \<Longrightarrow> \<not> sendsFail es \<Longrightarrow>
     \<forall>c k. asCalls s c = Some k \<longrightarrow> agPhase k \<noteq> Serving \<longrightarrow> (\<exists>m \<in> set (asOut s). answerId m = trRequestId (agReq k))"
proof (induction es arbitrary: s rule: rev_induct)
  case Nil
  then show ?case by (auto simp: agentNew_def)
next
  case (snoc e es)
  from snoc.prems(1) obtain s1 where s1: "runAgent (agentNew cfg file fs) es = Some s1" "agentStep s1 e = Some s"
    by (auto simp: runAgent_snoc)
  have "\<not> sendsFail es" using snoc.prems(2) by (auto simp: sendsFail_def)
  note ih = snoc.IH [OF s1(1) this]
  show ?case
  proof (cases e)
    case (AgentMsg m)
    then show ?thesis
      using s1(2) ih by (auto simp: agentDispatch_def split: option.splits if_splits)
  next
    case (AgentServe c env)
    then have ok: "aeSendErr env = None" using snoc.prems(2) by (auto simp: sendsFail_def)
    from s1(2) AgentServe obtain k answer s2 where k: "asCalls s1 c = Some k"
      and sv: "serveCall (callEnvOf k env) (agReq k) s1 = (answer, s2)"
      and s: "s = s2\<lparr>asOut := asOut s2 @ [answer], asCalls := (asCalls s2)(c \<mapsto> k\<lparr>agPhase := Answered\<rparr>)\<rparr>"
      using ok by (auto split: option.splits if_splits prod.splits)
    show ?thesis
      using ih serveCall_answer [OF sv] by (auto simp: s serveCall_frame [OF sv])
  next
    case (AgentCleanup c)
    then show ?thesis using s1(2) ih by (auto split: option.splits if_splits)
  qed
qed

text \<open>What a tool does to the machine.\<close>

lemma runTool_write:
  "snd (runTool env ''write_file'' args s) = s\<lparr>asFiles := snd (writeFile (aeCtx env 0) (ovLinks (aeOs env))
     (currentGuard s) (aeOpenErr env) (aeWriteErr env) args (asFiles s))\<rparr>"
  by (simp add: runTool_def Let_def case_prod_unfold)

lemma runTool_process:
  "snd (runTool env ''run_process'' args s) = s\<lparr>asProcs := asProcs s @
     snd (runProcess (aeExec env) (newRunner (seAllowedCommands (asSecurity s))) args)\<rparr>"
  by (simp add: runTool_def Let_def case_prod_unfold)

lemma runTool_proxy:
  "snd (runTool env ''proxy_local_api'' args s) = s\<lparr>asHttp := asHttp s @
     snd (proxyCall (aeBuildErr env) (aeDoRequest env) (aeJsonValid env)
        \<lparr>pcAllowPrivileged = seAllowPrivilegedPorts (asSecurity s), pcAllowedPorts = seAllowedPorts (asSecurity s)\<rparr> args)\<rparr>"
  by (simp add: runTool_def Let_def case_prod_unfold)

lemma runTool_setConfig:
  "\<exists>sec file. snd (runTool env ''set_agent_config'' args s) = s\<lparr>asSecurity := sec, asConfigFile := file\<rparr>"
  by (auto simp: runTool_def Let_def case_prod_unfold)

lemma runTool_readers:
  "tool \<in> set agentTools - {''write_file'', ''run_process'', ''proxy_local_api'', ''set_agent_config''} \<Longrightarrow>
     snd (runTool env tool args s) = s"
  unfolding agentTools_def
  by (elim DiffE, simp only: set_simps insert_iff empty_iff, elim disjE) (simp_all add: runTool_def Let_def)

lemma runTool_effects:
  assumes "runTool env tool args s = (r, s')" and "tool \<in> set agentTools"
  shows "asFiles s' = (if tool = ''write_file''
      then snd (writeFile (aeCtx env 0) (ovLinks (aeOs env)) (currentGuard s) (aeOpenErr env) (aeWriteErr env) args (asFiles s))
      else asFiles s)"
    and "asProcs s' = asProcs s @ (if tool = ''run_process''
      then snd (runProcess (aeExec env) (newRunner (seAllowedCommands (asSecurity s))) args) else [])"
    and "asHttp s' = asHttp s @ (if tool = ''proxy_local_api''
      then snd (proxyCall (aeBuildErr env) (aeDoRequest env) (aeJsonValid env)
        \<lparr>pcAllowPrivileged = seAllowPrivilegedPorts (asSecurity s), pcAllowedPorts = seAllowedPorts (asSecurity s)\<rparr> args)
      else [])"
    and "asSecurity s' \<noteq> asSecurity s \<Longrightarrow> tool = ''set_agent_config''"
proof -
  have s': "s' = snd (runTool env tool args s)" using assms(1) by simp
  consider "tool = ''write_file''" | "tool = ''run_process''" | "tool = ''proxy_local_api''" | "tool = ''set_agent_config''"
    | "tool \<in> set agentTools - {''write_file'', ''run_process'', ''proxy_local_api'', ''set_agent_config''}"
    using assms(2) by blast
  then have "asFiles s' = (if tool = ''write_file''
      then snd (writeFile (aeCtx env 0) (ovLinks (aeOs env)) (currentGuard s) (aeOpenErr env) (aeWriteErr env) args (asFiles s))
      else asFiles s) \<and>
    asProcs s' = asProcs s @ (if tool = ''run_process''
      then snd (runProcess (aeExec env) (newRunner (seAllowedCommands (asSecurity s))) args) else []) \<and>
    asHttp s' = asHttp s @ (if tool = ''proxy_local_api''
      then snd (proxyCall (aeBuildErr env) (aeDoRequest env) (aeJsonValid env)
        \<lparr>pcAllowPrivileged = seAllowPrivilegedPorts (asSecurity s), pcAllowedPorts = seAllowedPorts (asSecurity s)\<rparr> args)
      else []) \<and> (asSecurity s' \<noteq> asSecurity s \<longrightarrow> tool = ''set_agent_config'')"
  proof cases
    case 4
    with runTool_setConfig [of env args s] s' show ?thesis by auto
  next
    case 5
    then have "s' = s" using runTool_readers s' by simp
    with 5 show ?thesis by auto
  qed (simp_all add: s' runTool_write runTool_process runTool_proxy)
  then show
    "asFiles s' = (if tool = ''write_file''
      then snd (writeFile (aeCtx env 0) (ovLinks (aeOs env)) (currentGuard s) (aeOpenErr env) (aeWriteErr env) args (asFiles s))
      else asFiles s)"
    "asProcs s' = asProcs s @ (if tool = ''run_process''
      then snd (runProcess (aeExec env) (newRunner (seAllowedCommands (asSecurity s))) args) else [])"
    "asHttp s' = asHttp s @ (if tool = ''proxy_local_api''
      then snd (proxyCall (aeBuildErr env) (aeDoRequest env) (aeJsonValid env)
        \<lparr>pcAllowPrivileged = seAllowPrivilegedPorts (asSecurity s), pcAllowedPorts = seAllowedPorts (asSecurity s)\<rparr> args)
      else [])"
    "asSecurity s' \<noteq> asSecurity s \<Longrightarrow> tool = ''set_agent_config''"
    by blast+
qed

lemma agentServe_tool:
  assumes "agentStep s (AgentServe c env) = Some s'"
  obtains k s1 where "asCalls s c = Some k" "asSecurity s' = asSecurity s1" "asFiles s' = asFiles s1"
    "asProcs s' = asProcs s1" "asHttp s' = asHttp s1"
    "s1 = s \<or> trToolName (agReq k) \<in> set agentTools \<and>
       (\<exists>r. runTool (callEnvOf k env) (trToolName (agReq k)) (trArgsJson (agReq k)) s = (r, s1))"
proof -
  from assms obtain k a s1 where k: "asCalls s c = Some k" "serveCall (callEnvOf k env) (agReq k) s = (a, s1)"
    "s' = s1\<lparr>asOut := asOut s1 @ (if aeSendErr env = None then [a] else []),
            asCalls := (asCalls s1)(c \<mapsto> k\<lparr>agPhase := Answered\<rparr>)\<rparr>"
    by (auto split: option.splits if_splits prod.splits)
  have "s1 = s \<or> trToolName (agReq k) \<in> set agentTools \<and>
       (\<exists>r. runTool (callEnvOf k env) (trToolName (agReq k)) (trArgsJson (agReq k)) s = (r, s1))"
    using k(2) by (auto simp: serveCall_def split: if_splits prod.splits)
  then show ?thesis using that [OF k(1), of s1] k(3) by simp
qed

lemma agent_quiet:
  "asProcs (agentDispatch m s) = asProcs s" "asFiles (agentDispatch m s) = asFiles s"
  "asHttp (agentDispatch m s) = asHttp s" "asSecurity (agentDispatch m s) = asSecurity s"
  by (auto simp: agentDispatch_def split: option.split)

text \<open>Every file tool decodes its path in the same way and asks the guard before the system.\<close>

lemma decodePath_obj: "decodePath args = Some path \<longleftrightarrow>
    (\<exists>m. decodeObject args = Some m \<and> decodeStr (jget m ''path'') = Some path)"
  by (auto simp: decodePath_def split: option.splits)

definition invalidArgs :: "string \<Rightarrow> goerr" where
  "invalidArgs tool = ErrWrap (tool @ '': invalid args: '') (unmarshalError tool)"

lemma refused_list:
  assumes "decodePath args = Some path" and "guardCheck g links path = Some e"
  shows "listDirectory ctx links rd g args =
    (case decodeBool (jget (the (decodeObject args)) ''show_hidden'') of
       None \<Rightarrow> Inl (invalidArgs ''list_directory'') | Some _ \<Rightarrow> Inl e)"
  using assms by (auto simp: decodePath_obj listDirectory_def invalidArgs_def split: option.split)

lemma refused_stat:
  assumes "decodePath args = Some path" and "guardCheck g links path = Some e"
  shows "statFile links ls rl g args = Inl e" "checkPathExists links ls ne g args = Inl e"
  using assms by (simp_all add: statFile_def checkPathExists_def)

lemma refused_read:
  assumes "decodePath args = Some path" and "guardCheck g (ovLinks os) path = Some e"
  shows "readFile ctx os g mb args =
    (case decodeReadParams args of None \<Rightarrow> Inl (invalidArgs ''read_file'') | Some _ \<Rightarrow> Inl e)"
proof (cases "decodeReadParams args")
  case (Some p)
  then have "rpPath p = path"
    using assms(1) by (auto simp: decodePath_obj decodeReadParams_def split: option.splits)
  then show ?thesis using Some assms(2) by (simp add: readFile_def)
qed (simp add: readFile_def invalidArgs_def)

lemma refused_write:
  assumes "decodePath args = Some path" and "guardCheck g links path = Some e"
  shows "writeFile ctxErr links g oe we args fs =
    (case decodeWriteParams args of None \<Rightarrow> Inl (invalidArgs ''write_file'') | Some _ \<Rightarrow> Inl e, fs)"
proof (cases "decodeWriteParams args")
  case (Some p)
  then have "wpPath p = path"
    using assms(1) by (auto simp: decodePath_obj decodeWriteParams_def split: option.splits)
  then show ?thesis using Some assms(2) by (simp add: writeFile_def)
qed (simp add: writeFile_def invalidArgs_def)

lemma refused_search:
  assumes "decodePath args = Some path" and "guardCheck g links path = Some e"
  shows "searchFileContent ctx cm links op g args =
    (case decodeSearchParams args of None \<Rightarrow> Inl (invalidArgs ''search_file_content'') | Some _ \<Rightarrow> Inl e)"
proof (cases "decodeSearchParams args")
  case (Some p)
  then have "scPath p = path"
    using assms(1) by (auto simp: decodePath_obj decodeSearchParams_def split: option.splits)
  then show ?thesis using Some assms(2) by (simp add: searchFileContent_def)
qed (simp add: searchFileContent_def invalidArgs_def)

definition fileTools :: "string list" where
  "fileTools = [''list_directory'', ''stat_file'', ''check_path_exists'', ''read_file'', ''write_file'',
     ''search_file_content'']"

text \<open>The error of a refused call: it depends on the arguments and the guard's error only.\<close>

definition refusal :: "string \<Rightarrow> jtext \<Rightarrow> goerr \<Rightarrow> goerr" where
  "refusal tool args e =
     (if tool = ''list_directory'' \<and> decodeBool (jget (the (decodeObject args)) ''show_hidden'') = None \<or>
         tool = ''read_file'' \<and> decodeReadParams args = None \<or>
         tool = ''write_file'' \<and> decodeWriteParams args = None \<or>
         tool = ''search_file_content'' \<and> decodeSearchParams args = None
      then invalidArgs tool else e)"

lemma runTool_refused:
  assumes tool: "tool \<in> set fileTools" and "decodePath args = Some path"
    and "guardCheck (currentGuard s) (ovLinks (aeOs env)) path = Some e"
  shows "runTool env tool args s = (Inl (refusal tool args e), s)"
proof -
  note r = refused_list [OF assms(2,3)] refused_stat [OF assms(2,3)] refused_read [OF assms(2,3)]
    refused_write [OF assms(2,3)] refused_search [OF assms(2,3)]
  from tool have "tool = ''list_directory'' \<or> tool = ''stat_file'' \<or> tool = ''check_path_exists'' \<or>
      tool = ''read_file'' \<or> tool = ''write_file'' \<or> tool = ''search_file_content''"
    by (simp add: fileTools_def)
  then show ?thesis
    by (elim disjE) (simp_all add: runTool_def Let_def r encodeWith_def refusal_def split: option.split)
qed

section \<open>Properties\<close>


definition demoHardware :: hwSources where
  "demoHardware = \<lparr>hsCpuInfo = Inr [''cpu''], hsCpuCounts = (\<lambda>logical. (if logical then 8 else 4, None)),
     hsCpuPercent = Inl CtxCanceled, hsMemory = Inl CtxCanceled, hsPartitions = Inr [], hsUsage = (\<lambda>_. Inl CtxCanceled),
     hsInterfaces = Inr [], hsIOCounters = ([], None),
     hsHost = Inr \<lparr>hoHostname = ''h'', hoOS = ''linux'', hoPlatform = ''debian'', hoPlatformVersion = ''12'',
       hoKernelVersion = ''6.1'', hoUptime = 60, hoBootTime = 1\<rparr>\<rparr>"

definition demoEnv :: agentEnv where
  "demoEnv = \<lparr>aeCtx = (\<lambda>_. None), aeOs = demoOS ''abc'', aeReadDir = (\<lambda>_. Inr []), aeLstat = (\<lambda>_. Inl CtxCanceled),
     aeReadlink = (\<lambda>_. Inl CtxCanceled), aeNotExist = (\<lambda>_. True), aeCompile = (\<lambda>_. Inl CtxCanceled),
     aeOpenErr = None, aeWriteErr = None, aeExec = demoExec [] WaitOk, aeBuildErr = (\<lambda>_ _. None),
     aeDoRequest = (\<lambda>_. Inl CtxCanceled), aeJsonValid = (\<lambda>_. False), aeHardware = demoHardware,
     aeYaml = demoYaml (acSecurity demoConfig), aeShowTime = (\<lambda>_. []), aeSendErr = None\<rparr>"

definition demoRequest :: "string \<Rightarrow> string \<Rightarrow> jtext \<Rightarrow> toolRequest" where
  "demoRequest i tool args = \<lparr>trRequestId = i, trToolName = tool, trArgsJson = args, trTargetHost = ''h''\<rparr>"


text \<open>
  Property C36: a cancellation reaches its request and no other.  In every interleaving in which no request id
  comes twice, a cancel message marks the context of the call with its id if that call has not ended,
  changes no other call, and changes nothing at all for an unknown, ended or already cancelled
  request; a \<open>write_file\<close> that is cancelled before its handler runs writes nothing.
\<close>

theorem agent_cancel_reaches_call:
  assumes "runAgent (agentNew cfg file fs) es = Some s" and "distinct (requestedIds es)"
    and "s' = agentDispatch (CancelRequest i) s"
  shows "(\<forall>c k. asCalls s c = Some k \<longrightarrow> asCalls s' c =
       Some (if trRequestId (agReq k) = i \<and> agPhase k \<noteq> Ended then k\<lparr>agCancelled := True\<rparr> else k)) \<and>
    (i \<notin> set (requestedIds es) \<longrightarrow> s' = s) \<and>
    (\<forall>c k env s''. asCalls s' c = Some k \<longrightarrow> agCancelled k \<longrightarrow> trToolName (agReq k) = ''write_file'' \<longrightarrow>
       agentStep s' (AgentServe c env) = Some s'' \<longrightarrow> asFiles s'' = asFiles s')"
proof -
  note inv0 = agentInv_run [OF assms(1,2)]
  note inv = agentInv_parts [OF inv0]
  have calls: "asCalls s' c =
       Some (if trRequestId (agReq k) = i \<and> agPhase k \<noteq> Ended then k\<lparr>agCancelled := True\<rparr> else k)"
    if k: "asCalls s c = Some k" for c k
  proof (cases "map_of (asCancels s) i")
    case None
    then have "s' = s" using assms(3) by (simp add: agentDispatch_def)
    moreover have "\<not> (trRequestId (agReq k) = i \<and> agPhase k \<noteq> Ended \<and> \<not> agCancelled k)"
      using inv(5) [of i c] None k by auto
    ultimately show ?thesis using k by (cases k) auto
  next
    case (Some d)
    with inv(5) [of i d] obtain kd where kd: "asCalls s d = Some kd" "trRequestId (agReq kd) = i" "agPhase kd \<noteq> Ended"
      by blast
    have s': "asCalls s' = (asCalls s)(d \<mapsto> kd\<lparr>agCancelled := True\<rparr>)"
      using Some kd(1) assms(3) by (simp add: agentDispatch_def)
    show ?thesis
    proof (cases "d = c")
      case True
      then show ?thesis using s' kd k by simp
    next
      case False
      then have "trRequestId (agReq k) \<noteq> i" using callId_distinct [OF inv0 assms(2) k kd(1)] kd(2) by auto
      then show ?thesis using s' False k by simp
    qed
  qed
  have unknown: "s' = s" if "i \<notin> set (requestedIds es)"
  proof (cases "map_of (asCancels s) i")
    case None
    then show ?thesis using assms(3) by (simp add: agentDispatch_def)
  next
    case (Some d)
    with inv(5) [of i d] obtain kd where kd: "asCalls s d = Some kd" "trRequestId (agReq kd) = i" by blast
    then have "callId s d = i" "d < asNext s" using inv(1) [of d] by (auto simp: callId_def)
    then have "i \<in> set (List.map (callId s) [0 ..< asNext s])" by force
    then show ?thesis using that by (simp only: inv(2))
  qed
  have "asFiles s'' = asFiles s'" if "asCalls s' c = Some k" "agCancelled k" "trToolName (agReq k) = ''write_file''"
    "agentStep s' (AgentServe c env) = Some s''" for c k env s''
  proof -
    note h = that
    from agentServe_tool [OF h(4)] obtain k' s1 where "asCalls s' c = Some k'"
      "asSecurity s'' = asSecurity s1" and f: "asFiles s'' = asFiles s1"
      and "asProcs s'' = asProcs s1" "asHttp s'' = asHttp s1"
      and r: "s1 = s' \<or> trToolName (agReq k') \<in> set agentTools \<and>
        (\<exists>r. runTool (callEnvOf k' env) (trToolName (agReq k')) (trArgsJson (agReq k')) s' = (r, s1))" .
    then have "k' = k" using h(1) by simp
    note s1 = f r [unfolded this]
    show ?thesis
    proof (cases "s1 = s'")
      case False
      with s1(2) obtain r where "runTool (callEnvOf k env) ''write_file'' (trArgsJson (agReq k)) s' = (r, s1)"
        unfolding h(3) by blast
      then show ?thesis
        using runTool_write [of "callEnvOf k env" "trArgsJson (agReq k)" s'] s1(1) h(2)
        by (simp add: callEnvOf_def)
    qed (use s1 in simp)
  qed
  with calls unknown show ?thesis by blast
qed


text \<open>A request to write a file, served and cancelled.\<close>

definition demoWrite :: toolRequest where
  "demoWrite = demoRequest ''r1'' ''write_file'' (JText (JObj [(''path'', JStr ''/f''), (''content'', JStr ''x'')]))"

theorem agent_cancel_reaches_call_witness:
  "\<exists>s k. runAgent (agentNew demoConfig [] Map.empty) [AgentMsg (ToolRequest demoWrite)] = Some s \<and>
     asCalls (agentDispatch (CancelRequest ''r1'') s) 0 = Some k \<and> agCancelled k \<and>
     agentDispatch (CancelRequest ''r2'') s = s"
proof -
  obtain s k where s: "runAgent (agentNew demoConfig [] Map.empty) [AgentMsg (ToolRequest demoWrite)] = Some s"
    and k: "asCalls s 0 = Some k" "agPhase k \<noteq> Ended" "trRequestId (agReq k) = ''r1''"
    by (simp add: agentNew_def agentDispatch_def demoWrite_def demoRequest_def)
  have d: "distinct (requestedIds [AgentMsg (ToolRequest demoWrite)])"
    "''r2'' \<notin> set (requestedIds [AgentMsg (ToolRequest demoWrite)])"
    by (simp_all add: demoWrite_def demoRequest_def)
  have "asCalls (agentDispatch (CancelRequest ''r1'') s) 0 = Some (k\<lparr>agCancelled := True\<rparr>)"
    using agent_cancel_reaches_call [OF s d(1) refl, of "''r1''", THEN conjunct1] k by simp
  moreover have "agentDispatch (CancelRequest ''r2'') s = s"
    using agent_cancel_reaches_call [OF s d(1) refl, of "''r2''", THEN conjunct2, THEN conjunct1] d(2) by blast
  ultimately show ?thesis using s by fastforce
qed


text \<open>
  A path that the guard refuses stays closed to every file tool.  The tool fails with the
  guard's error, or because its arguments do not decode, nothing changes, and the answer does not
  depend on anything but the links of the path: what the file holds, whether it exists and every
  other state of the machine cannot be learnt from it.
\<close>

theorem file_tools_refused:
  assumes "tool \<in> set fileTools" and "decodePath args = Some path"
    and "guardCheck (currentGuard s) (ovLinks (aeOs env)) path = Some e" and "ovLinks (aeOs env') = ovLinks (aeOs env)"
  shows "snd (runTool env tool args s) = s \<and> fst (runTool env tool args s) \<in> {Inl e, Inl (invalidArgs tool)} \<and>
    runTool env' tool args s = runTool env tool args s"
proof -
  have "guardCheck (currentGuard s) (ovLinks (aeOs env')) path = Some e" using assms(3,4) by simp
  from runTool_refused [OF assms(1,2) this] runTool_refused [OF assms(1-3)] show ?thesis
    by (simp add: refusal_def)
qed

theorem file_tools_refused_witness:
  "\<exists>s e. runAgent (agentNew (demoConfig\<lparr>acSecurity := securityDefaults (acSecurity demoConfig)\<rparr>) [] Map.empty) [] = Some s \<and>
     fst (runTool demoEnv ''stat_file'' (JText (JObj [(''path'', JStr ''/proc/1'')])) s) \<in>
       {Inl e, Inl (invalidArgs ''stat_file'')} \<and>
     guardCheck (currentGuard s) Some ''/proc/1'' = Some e"
proof -
  define s where "s = agentNew (demoConfig\<lparr>acSecurity := securityDefaults (acSecurity demoConfig)\<rparr>) [] Map.empty"
  have sec: "currentGuard s = newPathGuard [] [''/proc'', ''/sys'', ''/dev'']"
    by (simp add: s_def agentNew_def currentGuard_def demoConfig_def securityDefaults_def)
  have "guardCheck (newPathGuard [] [''/proc'', ''/sys'', ''/dev'']) Some ''/proc/1'' \<noteq> None" by code_simp
  then obtain e where g: "guardCheck (currentGuard s) Some ''/proc/1'' = Some e" unfolding sec by blast
  have l: "ovLinks (aeOs demoEnv) = Some" by (simp add: demoEnv_def demoOS_def)
  have d: "decodePath (JText (JObj [(''path'', JStr ''/proc/1'')])) = Some ''/proc/1''" by code_simp
  have t: "''stat_file'' \<in> set fileTools" by (simp add: fileTools_def)
  from file_tools_refused [OF t d, of s demoEnv e demoEnv] g l
  have "fst (runTool demoEnv ''stat_file'' (JText (JObj [(''path'', JStr ''/proc/1'')])) s) \<in>
       {Inl e, Inl (invalidArgs ''stat_file'')}" by simp
  then show ?thesis using g by (auto simp: s_def)
qed

end
