(* ===== verification/ProcessMain.thy ===== *)
theory ProcessMain
  imports CenterMain Cli Agent
begin

text \<open>
  The processes: the entry points (\<open>cmd/sysplane-agent\<close>, \<open>cmd/sysplane-center\<close>, \<open>cmd/sysplane-proxy\<close>, \<open>cmd/sysplane\<close>), the
  start of the agent (\<open>Run\<close> of \<open>sysplane-agent\<close>), and the servers that center and proxy run under an
  errgroup until the first of them fails or a signal comes.  Listening, serving and \<open>Wait\<close> of the
  errgroup are arguments.
\<close>

section \<open>Entry points\<close>

text \<open>A call that has not returned yet, or its error.\<close>

datatype runEnd = RunGoing | RunReturned "goerr option"

definition agentConfigPaths :: "string list" where
  "agentConfigPaths = [''./sysplane-agent.yaml'', ''/etc/sysplane/agent.yaml'']"

definition centerConfigPaths :: "string list" where
  "centerConfigPaths = [''./sysplane-center.yaml'', ''/etc/sysplane/center.yaml'']"

definition proxyConfigPaths :: "string list" where
  "proxyConfigPaths = [''./sysplane-proxy.yaml'', ''/etc/sysplane/proxy.yaml'']"

definition findConfig :: "string \<Rightarrow> (string \<Rightarrow> bool) \<Rightarrow> string list \<Rightarrow> string" where
  "findConfig configPath exists defaults =
     (if configPath \<noteq> [] then configPath
      else (case List.find exists defaults of None \<Rightarrow> [] | Some p \<Rightarrow> p))"

text \<open>
  \<open>main\<close> with the arguments of the process: its exit code, or \<open>None\<close> while it runs.  The command line is
  parsed by package \<open>flag\<close>, which exits with 0 for \<open>-h\<close> and with 2 for a wrong flag.
\<close>

definition mainExit :: "string list \<Rightarrow> (string \<Rightarrow> bool) \<Rightarrow> (string \<Rightarrow> runEnd) \<Rightarrow> string list \<Rightarrow> nat option" where
  "mainExit defaults exists run args =
     (case parseFlags [(''config'', FStr [])] args of
        HelpRequested \<Rightarrow> Some 0
      | FlagsBad e \<Rightarrow> Some 2
      | FlagsOk fs rest \<Rightarrow>
          (let configPath = findConfig (flagStr fs ''config'') exists defaults in
           if configPath = [] then Some 1
           else (case run configPath of
                   RunGoing \<Rightarrow> None
                 | RunReturned None \<Rightarrow> Some 0
                 | RunReturned (Some e) \<Rightarrow> if e \<noteq> CtxCanceled then Some 1 else Some 0)))"

section \<open>The agent\<close>

text \<open>What the binary was built as: \<open>runtime.GOOS\<close>, \<open>runtime.GOARCH\<close> and the tag of its version.\<close>

record buildInfo =
  biGOOS :: string
  biGOARCH :: string
  biGitTag :: string

definition buildCredentials :: "tlsEnv \<Rightarrow> agentConfig \<Rightarrow> goerr + tlsConfig option" where
  "buildCredentials env c =
     (let t = ucTLS (acUpstream c) in
      if tfCertFile t = [] \<and> tfKeyFile t = [] \<and> tfCAFile t = [] then Inr None
      else map_sum id Some (loadClientTLS env t))"

definition agentSystem :: "buildInfo \<Rightarrow> string" where
  "agentSystem b = biGOOS b @ ''/'' @ biGOARCH b"

text \<open>\<open>osHostname\<close> is empty when \<open>os.Hostname\<close> fails.\<close>

definition agentSetup :: "tlsEnv \<Rightarrow> buildInfo \<Rightarrow> string \<Rightarrow> agentConfig \<Rightarrow> goerr + dialerConfig \<times> tlsConfig option" where
  "agentSetup env b osHostname c =
     (case buildCredentials env c of
        Inl e \<Rightarrow> Inl e
      | Inr creds \<Rightarrow> Inr (agentDialer c osHostname (agentSystem b) (biGitTag b), creds))"

text \<open>
  \<open>Run\<close> of the package and of the agent; \<open>net\<close> is what happens to the connections of a dialer.
\<close>

definition agentRun ::
  "(string \<Rightarrow> goerr + agentConfig) \<Rightarrow> tlsEnv \<Rightarrow> buildInfo \<Rightarrow> string \<Rightarrow>
   (dialerConfig \<Rightarrow> tlsConfig option \<Rightarrow> dialRound list) \<Rightarrow> string \<Rightarrow> runEnd" where
  "agentRun load env b osHostname net configPath =
     (case load configPath of
        Inl e \<Rightarrow> RunReturned (Some (ErrWrap ''load config: '' e))
      | Inr c \<Rightarrow>
      (case agentSetup env b osHostname c of
        Inl e \<Rightarrow> RunReturned (Some e)
      | Inr (dc, creds) \<Rightarrow>
          (case fst (dialerRun (dcReconnectMaxDelay dc) initialDelay (net dc creds)) of
             None \<Rightarrow> RunGoing
           | Some e \<Rightarrow> RunReturned (Some e))))"

section \<open>The servers of center and proxy\<close>

definition ErrServerClosed :: goerr where
  "ErrServerClosed = ErrText ''http: Server closed''"

text \<open>What the network does: the outcome of each \<open>Listen\<close> and of each call that serves.\<close>

record serveEnv =
  svListen :: "string \<Rightarrow> goerr option"
  svGrpc :: runEnd
  svHttp :: "string \<Rightarrow> tlsFiles option \<Rightarrow> runEnd"

definition grpcTask :: "string \<Rightarrow> serveEnv \<Rightarrow> string \<Rightarrow> runEnd" where
  "grpcTask what env addr =
     (case svListen env addr of
        Some e \<Rightarrow> RunReturned (Some (ErrWrap (what @ addr @ '': '') e))
      | None \<Rightarrow> svGrpc env)"

definition httpTask :: "string \<Rightarrow> serveEnv \<Rightarrow> string \<Rightarrow> tlsFiles option \<Rightarrow> runEnd" where
  "httpTask what env addr files =
     (case svHttp env addr files of
        RunGoing \<Rightarrow> RunGoing
      | RunReturned None \<Rightarrow> RunReturned None
      | RunReturned (Some e) \<Rightarrow> if e \<noteq> ErrServerClosed then RunReturned (Some (ErrWrap what e)) else RunReturned None)"

definition centerTasks :: "serveEnv \<Rightarrow> centerConfig \<Rightarrow> centerWiring \<Rightarrow> runEnd list" where
  "centerTasks env c w =
     [grpcTask ''gRPC listen '' env (clGRPCAddress (cgListen c)),
      httpTask (if cwHttpsFiles w \<noteq> None then ''HTTPS server: '' else ''HTTP server: '') env
        (clHTTPAddress (cgListen c)) (cwHttpsFiles w)] @
     (if mcEnable (cgMetrics c) then [httpTask ''metrics server: '' env (mcAddress (cgMetrics c)) None] else [])"

text \<open>The end of both \<open>Run\<close>: \<open>wait\<close> is \<open>Wait\<close> of the errgroup.\<close>

definition groupEnd :: "(runEnd list \<Rightarrow> runEnd) \<Rightarrow> runEnd list \<Rightarrow> runEnd" where
  "groupEnd wait tasks =
     (case wait tasks of
        RunGoing \<Rightarrow> RunGoing
      | RunReturned None \<Rightarrow> RunReturned None
      | RunReturned (Some e) \<Rightarrow> if e \<noteq> CtxCanceled then RunReturned (Some e) else RunReturned None)"

definition centerRun ::
  "(string \<Rightarrow> string) \<Rightarrow> (string \<Rightarrow> goerr + centerConfig) \<Rightarrow> centerEnv \<Rightarrow> serveEnv \<Rightarrow> (runEnd list \<Rightarrow> runEnd) \<Rightarrow>
   database \<Rightarrow> string \<Rightarrow> runEnd" where
  "centerRun sha load env srv wait db configPath =
     (case load configPath of
        Inl e \<Rightarrow> RunReturned (Some (ErrWrap ''load config: '' e))
      | Inr c \<Rightarrow>
          (case fst (centerSetup sha (Inr c) env db) of
             Inl e \<Rightarrow> RunReturned (Some e)
           | Inr w \<Rightarrow> groupEnd wait (centerTasks srv c w)))"

text \<open>The proxy: its dialer, and the server for the nodes below it.\<close>

definition downstreamTask :: "tlsEnv \<Rightarrow> serveEnv \<Rightarrow> proxyServerConfig \<Rightarrow> runEnd" where
  "downstreamTask tls env c =
     (case buildDownstreamCreds tls c of
        Inl e \<Rightarrow> RunReturned (Some (ErrWrap ''downstream TLS config: '' e))
      | Inr creds \<Rightarrow> grpcTask ''downstream listen '' env (pcGRPCAddress c))"

definition proxyRun ::
  "(string \<Rightarrow> string) \<Rightarrow> (string \<Rightarrow> goerr + proxyServerConfig) \<Rightarrow> string \<Rightarrow> tlsEnv \<Rightarrow> serveEnv \<Rightarrow>
   (dialerConfig \<Rightarrow> tlsConfig option \<Rightarrow> dialRound list) \<Rightarrow> (runEnd list \<Rightarrow> runEnd) \<Rightarrow> string \<Rightarrow> runEnd" where
  "proxyRun sha load osHostname tls srv net wait configPath =
     (case load configPath of
        Inl e \<Rightarrow> RunReturned (Some (ErrWrap ''load config: '' e))
      | Inr c \<Rightarrow>
          (case proxySetup sha (Inr c) osHostname tls of
             Inl e \<Rightarrow> RunReturned (Some e)
           | Inr (tokens, name, dc, creds) \<Rightarrow> groupEnd wait
               [case fst (dialerRun (dcReconnectMaxDelay dc) initialDelay (net dc creds)) of
                  None \<Rightarrow> RunGoing | Some e \<Rightarrow> RunReturned (Some e),
                downstreamTask tls srv c]))"

text \<open>The adapter through which the downstream service sends: the dialer is set before the streams start.\<close>

definition adapterSend :: "bool \<Rightarrow> bool \<Rightarrow> goerr option \<Rightarrow> goerr option" where
  "adapterSend dialerSet active sendErr =
     (if \<not> dialerSet then Some (ErrText ''proxy: upstream dialer not ready'') else dialerSend active sendErr)"

section \<open>The four programs\<close>

definition agentMain ::
  "(string \<Rightarrow> bool) \<Rightarrow> (string \<Rightarrow> goerr + agentConfig) \<Rightarrow> tlsEnv \<Rightarrow> buildInfo \<Rightarrow> string \<Rightarrow>
   (dialerConfig \<Rightarrow> tlsConfig option \<Rightarrow> dialRound list) \<Rightarrow> string list \<Rightarrow> nat option" where
  "agentMain exists load env b osHostname net = mainExit agentConfigPaths exists (agentRun load env b osHostname net)"

definition centerMain ::
  "(string \<Rightarrow> bool) \<Rightarrow> (string \<Rightarrow> string) \<Rightarrow> (string \<Rightarrow> goerr + centerConfig) \<Rightarrow> centerEnv \<Rightarrow> serveEnv \<Rightarrow>
   (runEnd list \<Rightarrow> runEnd) \<Rightarrow> database \<Rightarrow> string list \<Rightarrow> nat option" where
  "centerMain exists sha load env srv wait db = mainExit centerConfigPaths exists (centerRun sha load env srv wait db)"

definition proxyMain ::
  "(string \<Rightarrow> bool) \<Rightarrow> (string \<Rightarrow> string) \<Rightarrow> (string \<Rightarrow> goerr + proxyServerConfig) \<Rightarrow> string \<Rightarrow> tlsEnv \<Rightarrow> serveEnv \<Rightarrow>
   (dialerConfig \<Rightarrow> tlsConfig option \<Rightarrow> dialRound list) \<Rightarrow> (runEnd list \<Rightarrow> runEnd) \<Rightarrow> string list \<Rightarrow> nat option" where
  "proxyMain exists sha load osHostname tls srv net wait =
     mainExit proxyConfigPaths exists (proxyRun sha load osHostname tls srv net wait)"

text \<open>The client: its exit code and what it prints.  An error is not printed anywhere.\<close>

definition cliMain :: "cliEnv \<Rightarrow> string list \<Rightarrow> nat \<times> json option" where
  "cliMain env args =
     (case fst (cliRun env newApp args []) of
        Inl e \<Rightarrow> (1, None)
      | Inr out \<Rightarrow> (0, out))"

section \<open>Stopping\<close>

text \<open>
  What the packages document.  \<open>Wait\<close> of an errgroup blocks until all its calls have returned, and gives an
  error exactly when one of them did, one of theirs.  \<open>Serve\<close> of a gRPC server for which \<open>GracefulStop\<close>
  was called blocks until all pending calls are finished: here those of \<open>Connect\<close>.
\<close>

definition waitsForAll :: "(runEnd list \<Rightarrow> runEnd) \<Rightarrow> bool" where
  "waitsForAll wait \<longleftrightarrow>
     (\<forall>rs. (wait rs = RunGoing \<longleftrightarrow> RunGoing \<in> set rs) \<and>
       (\<forall>e. wait rs = RunReturned (Some e) \<longrightarrow> RunReturned (Some e) \<in> set rs) \<and>
       (wait rs = RunReturned None \<longrightarrow> set rs \<subseteq> {RunReturned None}))"

definition stopsGracefully :: "serveEnv \<Rightarrow> centerSys \<Rightarrow> bool" where
  "stopsGracefully srv s \<longleftrightarrow> ((\<exists>st. csConns s st \<noteq> None) \<longrightarrow> svGrpc srv = RunGoing)"

definition connsBelow :: "centerSys \<Rightarrow> bool" where
  "connsBelow s \<longleftrightarrow> (\<forall>st. csConns s st \<noteq> None \<longrightarrow> st < csNext s)"

lemma next_fields [simp]:
  "csNext (spawn js s) = csNext s" "csNext (sendOut st m s) = csNext s"
  by (simp_all add: spawn_def sendOut_def)

lemma forwarded_conns [simp]:
  "csConns (centerForwarded inst now oc st q s) = csConns s" "csNext (centerForwarded inst now oc st q s) = csNext s"
  by (simp_all add: centerForwarded_def Let_def case_prod_beta)

lemma message_conns [simp]:
  "csConns (centerMessage inst now oc st c m s) = csConns s" "csNext (centerMessage inst now oc st c m s) = csNext s"
  by (cases m; simp)+

lemma sweep_conns [simp]:
  "csConns (centerSweep now s) = csConns s" "csNext (centerSweep now s) = csNext s"
  by (simp_all add: centerSweep_def Let_def case_prod_beta)

lemma hangup_conns [simp]:
  "csConns (centerHangup st s) = (csConns s)(st := None)" "csNext (centerHangup st s) = csNext s"
  by (simp_all add: centerHangup_def case_prod_beta)

lemma admit_next [simp]: "csNext (fst (centerAdmit sha tokens inst now oc first s)) = Suc (csNext s)"
  by (simp add: centerAdmit_def Let_def split: sum.split option.split prod.split)

lemma admit_conns: "st \<noteq> csNext s \<Longrightarrow> csConns (fst (centerAdmit sha tokens inst now oc first s)) st = csConns s st"
  by (simp add: centerAdmit_def Let_def split: sum.split option.split prod.split)

lemma ack_conns:
  "st' \<noteq> st \<Longrightarrow> csConns (centerAck st c err s) st' = csConns s st'" "csNext (centerAck st c err s) = csNext s"
  by (simp_all add: centerAck_def split: option.split)

lemma connsBelow_step:
  assumes "centerStep sha tokens inst s e = Some s'" "connsBelow s"
  shows "connsBelow s'"
proof (cases e)
  case (EvAdmit now oc first)
  have "st < Suc (csNext s)" if "csConns (fst (centerAdmit sha tokens inst now oc first s)) st \<noteq> None" for st
    using that admit_conns [of st s] assms(2) by (cases "st = csNext s") (auto simp: connsBelow_def less_Suc_eq)
  then show ?thesis using assms(1) EvAdmit by (auto simp: connsBelow_def)
next
  case (EvAck st err)
  then obtain c where c: "csConns s st = Some c" "s' = centerAck st c err s"
    using assms(1) by (auto split: option.splits if_splits)
  have "st' < csNext s" if "csConns s' st' \<noteq> None" for st'
    using that assms(2) c ack_conns(1) [of st' st c err s] by (cases "st' = st") (auto simp: connsBelow_def)
  then show ?thesis by (simp add: connsBelow_def c(2) ack_conns)
qed (use assms in \<open>auto simp: connsBelow_def split: option.splits if_splits\<close>)

lemma connsBelow_run:
  "runCenter sha tokens inst s es = Some s' \<Longrightarrow> connsBelow s \<Longrightarrow> connsBelow s'"
  by (induction es arbitrary: s) (auto split: option.splits dest: connsBelow_step)

lemma stream_kept_step:
  assumes "centerStep sha tokens inst s e = Some s'" "connsBelow s"
    and "csConns s st = Some c" "cnPhase c = Reading" "e \<noteq> EvHangup st"
  shows "csConns s' st = Some c"
proof (cases e)
  case (EvAdmit now oc first)
  have "st \<noteq> csNext s" using assms(2,3) by (auto simp: connsBelow_def)
  with EvAdmit assms(1,3) show ?thesis by (auto simp: admit_conns)
next
  case (EvAck st' err)
  then have "st' \<noteq> st" using assms(1,3,4) by auto
  with EvAck assms(1,3) show ?thesis by (auto simp: ack_conns split: option.splits if_splits)
qed (use assms in \<open>auto split: option.splits if_splits\<close>)

lemma stream_kept_run:
  "runCenter sha tokens inst s es = Some s' \<Longrightarrow> connsBelow s \<Longrightarrow> csConns s st = Some c \<Longrightarrow> cnPhase c = Reading \<Longrightarrow>
   EvHangup st \<notin> set es \<Longrightarrow> csConns s' st = Some c"
  by (induction es arbitrary: s) (auto split: option.splits dest: connsBelow_step stream_kept_step)

section \<open>Properties\<close>

lemma agentLoad_ok:
  assumes "agentLoad rd um path = Inr c"
  shows "configOk c"
  using assms agentDefaults_ok
  by (auto simp: agentLoad_def Let_def configOk_path split: sum.splits option.splits)

lemma ex_nth: "(\<exists>j < length xs. P (xs ! j)) \<longleftrightarrow> (\<exists>x \<in> set xs. P x)"
  by (metis in_set_conv_nth)

lemma agentDialer_fields:
  "dcRegisterMsg (agentDialer c h sys v) = RegisterRequest (agentRegisterMsg c h sys v)"
  "dcEndpoint (agentDialer c h sys v) = ucAddress (acUpstream c)"
  by (simp_all add: agentDialer_def newDialer_def Let_def second_def millisecond_def)

lemma agentDialer_delay:
  assumes "0 < acReconnectMaxDelaySec c" "acReconnectMaxDelaySec c < 2 ^ 31"
  shows "dcReconnectMaxDelay (agentDialer c h sys v) = acReconnectMaxDelaySec c * second"
proof -
  have "wrap64 (acReconnectMaxDelaySec c * second) = acReconnectMaxDelaySec c * second"
    using assms by (intro wrap64_id) (simp add: isInt64_def second_def millisecond_def)
  with assms(1) show ?thesis by (simp add: agentDialer_def newDialer_def Let_def second_def millisecond_def)
qed

lemma agentSetup_ok:
  "agentSetup env b osHost c = Inr (dc, creds) \<Longrightarrow> dc = agentDialer c osHost (agentSystem b) (biGitTag b)"
  by (auto simp: agentSetup_def split: sum.splits)

definition exBuild :: buildInfo where
  "exBuild = \<lparr>biGOOS = ''linux'', biGOARCH = ''amd64'', biGitTag = ''v1''\<rparr>"

definition exAgentConfig :: agentConfig where
  "exAgentConfig = agentDefaults (demoConfig\<lparr>acUpstream := (acUpstream demoConfig)\<lparr>ucToken := ''g1''\<rparr>\<rparr>)"

lemma exAgentConfig_fields:
  "ucToken (acUpstream exAgentConfig) = ''g1''" "acReconnectMaxDelaySec exAgentConfig = 5"
  "ucTLS (acUpstream exAgentConfig) = \<lparr>tfCertFile = [], tfKeyFile = [], tfCAFile = []\<rparr>"
  "seAllowedCommands (acSecurity exAgentConfig) = []" "ucAddress (acUpstream exAgentConfig) = ''c:1''"
  by (simp_all add: exAgentConfig_def agentDefaults_def securityDefaults_def demoConfig_def)

lemma exAgentLoad:
  "agentLoad (\<lambda>_. Inr []) (\<lambda>_. Inr exAgentConfig) ''f'' = Inr (exAgentConfig\<lparr>acConfigPath := ''f''\<rparr>)"
proof -
  have "agentDefaults exAgentConfig = exAgentConfig" unfolding exAgentConfig_def by (rule agentDefaults_idem)
  moreover have "agentValidate exAgentConfig = None" by (simp add: agentValidate_None exAgentConfig_fields)
  ultimately show ?thesis by (simp add: agentLoad_def)
qed

lemma exAgentSetup:
  "agentSetup exTls exBuild ''h'' (exAgentConfig\<lparr>acConfigPath := ''f''\<rparr>) =
   Inr (agentDialer (exAgentConfig\<lparr>acConfigPath := ''f''\<rparr>) ''h'' (agentSystem exBuild) ''v1'', None)"
  by (simp add: agentSetup_def buildCredentials_def exAgentConfig_fields exBuild_def)

text \<open>
  Property C11: from the start of an agent to its record at the center.  With both configurations loaded,
  the stream that the agent opens is admitted exactly when its token has the fingerprint of one
  of the center's agent tokens and the store, if there is one, takes the row; the center then
  has the agent under the name that it found for itself, as an online node of type agent, with
  the system it runs on, over the new stream.
\<close>

theorem agent_join_center:
  assumes center: "centerLoad sha rd um path = Inr c" "centerCatalog sha (cgAuth c) = Inr tokens"
    and agent: "agentLoad rd' um' path' = Inr a" "agentSetup env b osHost a = Inr (dc, creds)"
    and inv: "regInv (csReg s)" and adm: "centerAdmit sha tokens inst now oc (Inr (dcRegisterMsg dc)) s = (s', res)"
    and tok: "tok = trimSpace (trimPrefix (ucToken (acUpstream a)) ''Bearer '')"
  shows "dcEndpoint dc = ucAddress (acUpstream a) \<and>
    (res = None \<longleftrightarrow> tok \<noteq> [] \<and> (\<exists>t \<in> set (caAgentTokens (cgAuth c)). tokenFingerprint sha tok = fpOf sha t) \<and>
       snd (persistRecord inst (registeredRecord now (agentRegisterMsg a osHost (agentSystem b) (biGitTag b)) (csNext s)) oc (csDb s)) = None) \<and>
    (res = None \<longrightarrow> (\<exists>rec. regLookup (csReg s') (if acHostname a = [] then osHost else acHostname a) = Some rec \<and> nodeTypeOf rec = ''agent'' \<and>
       status rec = StatusOnline \<and> os rec = agentSystem b \<and> routeStream rec = csNext s))"
proof -
  let ?q = "agentRegisterMsg a osHost (agentSystem b) (biGitTag b)"
  let ?rec = "registeredRecord now ?q (csNext s)"
  have dc: "dcRegisterMsg dc = RegisterRequest ?q" "dcEndpoint dc = ucAddress (acUpstream a)"
    using agentSetup_ok [OF agent(2)] by (simp_all add: agentDialer_fields)
  have dom: "registrationDomain (rrNodeType ?q) = DomainAgent" "DomainAgent \<noteq> DomainProxy"
    by (simp_all add: agentRegisterMsg_def registrationDomain_def domain_defs)
  have cat: "newCatalog sha (caClientTokens (cgAuth c)) (caAdminTokens (cgAuth c)) (caAgentTokens (cgAuth c))
      (caProxyTokens (cgAuth c)) = Inr tokens" using center(2) by (simp add: centerCatalog_def)
  have "(\<exists>i. authenticateRegistration sha tokens DomainAgent (rrToken ?q) = Inr i) \<longleftrightarrow>
      tok \<noteq> [] \<and> (\<exists>i m. map_of (registrationTokens tokens) DomainAgent = Some m \<and> map_of m (tokenFingerprint sha tok) = Some i)"
    by (auto simp: authenticateRegistration_def Let_def agentRegisterMsg_def tok split: option.split)
  also have "\<dots> \<longleftrightarrow> tok \<noteq> [] \<and> (\<exists>t \<in> set (caAgentTokens (cgAuth c)). tokenFingerprint sha tok = fpOf sha t)"
    unfolding newCatalog_registration [OF cat] ex_nth [symmetric] using dom(2) by blast
  finally have tk: "(\<exists>q. admitted sha tokens (Inr (dcRegisterMsg dc)) q) \<longleftrightarrow>
      tok \<noteq> [] \<and> (\<exists>t \<in> set (caAgentTokens (cgAuth c)). tokenFingerprint sha tok = fpOf sha t)"
    by (auto simp: admitted_def dc dom)
  show ?thesis
  proof (cases "\<exists>q. admitted sha tokens (Inr (dcRegisterMsg dc)) q")
    case True
    then have q: "admitted sha tokens (Inr (dcRegisterMsg dc)) ?q" by (auto simp: admitted_def dc)
    obtain db err where p: "persistRecord inst ?rec oc (csDb s) = (db, err)" by fastforce
    have r: "nodeTypeOf ?rec = ''agent''" "os ?rec = agentSystem b" "hostname ?rec = (if acHostname a = [] then osHost else acHostname a)"
      by (simp_all add: registeredRecord_def dom(1)) (simp_all add: agentRegisterMsg_def domain_defs)
    show ?thesis
    proof (cases err)
      case None
      with adm p have "res = None" "csReg s' = regRegister ?rec (csReg s)"
        by (auto simp: centerAdmit_admitted [OF q] Let_def)
      with tk True None p r dc(2) inv show ?thesis by (simp add: cr.lookup_register)
    next
      case (Some e)
      with adm p have "res \<noteq> None" by (auto simp: centerAdmit_admitted [OF q] Let_def)
      with Some p dc(2) show ?thesis by auto
    qed
  next
    case False
    from centerAdmit_refused [OF False, of inst now oc s] adm have "res \<noteq> None" by simp
    with False tk dc(2) show ?thesis by auto
  qed
qed

theorem agent_join_center_witness:
  "\<exists>tokens dc creds. centerCatalog (\<lambda>s. s) (cgAuth (centerDefaults exCenterConfig)) = Inr tokens \<and>
     agentSetup exTls exBuild ''h'' (exAgentConfig\<lparr>acConfigPath := ''f''\<rparr>) = Inr (dc, creds) \<and>
     snd (centerAdmit (\<lambda>s. s) tokens ''c1'' 5 SqlDone (Inr (dcRegisterMsg dc)) (centerInit None)) = None"
proof -
  let ?a = "exAgentConfig\<lparr>acConfigPath := ''f''\<rparr>"
  obtain tokens where t: "centerCatalog (\<lambda>s. s) (cgAuth (centerDefaults exCenterConfig)) = Inr tokens"
    using exampleCatalog by (auto simp: centerCatalog_def exCenterConfig_def)
  have i: "regInv (csReg (centerInit None))" by (simp add: centerInit_def)
  have u: "''g1'' = trimSpace (trimPrefix (ucToken (acUpstream ?a)) ''Bearer '')"
    unfolding agentConfig.select_convs agentConfig.update_convs by (simp add: exAgentConfig_fields) code_simp
  have p: "snd (persistRecord ''c1'' rec SqlDone (csDb (centerInit None))) = None" for rec
    by (simp add: centerInit_def)
  have f: "fpOf (\<lambda>s. s) ''g1'' = tokenFingerprint (\<lambda>s. s) ''g1''" by code_simp
  have c: "caAgentTokens (cgAuth exCenterConfig) = [''g1'']" by (simp add: exCenterConfig_def)
  have "snd (centerAdmit (\<lambda>s. s) tokens ''c1'' 5 SqlDone (Inr (dcRegisterMsg
      (agentDialer ?a ''h'' (agentSystem exBuild) ''v1''))) (centerInit None)) = None"
    using agent_join_center [OF exCenterLoad t exAgentLoad exAgentSetup i surjective_pairing u]
    by (simp add: c f p)
  with t exAgentSetup show ?thesis by blast
qed




lemma runCenter_append:
  "runCenter sha tokens inst s es = Some s1 \<Longrightarrow>
   runCenter sha tokens inst s (es @ es') = runCenter sha tokens inst s1 es'"
  by (induction es arbitrary: s) (auto split: option.splits)

definition exWait :: "runEnd list \<Rightarrow> runEnd" where
  "exWait rs = (if RunGoing \<in> set rs then RunGoing
     else case List.find (\<lambda>r. r \<noteq> RunReturned None) rs of None \<Rightarrow> RunReturned None | Some r \<Rightarrow> r)"

lemma exWait_waits: "waitsForAll exWait"
  unfolding waitsForAll_def exWait_def by (auto simp: find_Some_iff find_None_iff split: option.split) (metis nth_mem)+


end
