(* ===== verification/AdminClones.thy ===== *)
theory AdminClones
  imports AdminTypes
begin

text \<open>
  The copies that \<open>sysplane-center/admin/service.go\<close> makes of what it stores and of what it hands out
  (\<open>cloneAny\<close>, \<open>cloneMap\<close>, \<open>cloneInvocation\<close>, \<open>cloneTemplate\<close>, \<open>cloneAudit\<close>, \<open>cloneResult\<close>), over an explicit
  heap: maps, slices, times and errors are cells, and a value refers to them.  The other theories
  take a copy to be the value itself; what is shown here is the reason: a copy reads the same,
  and no later write through the one is seen through the other.
\<close>

section \<open>The heap\<close>

datatype goVal = GNil | GBool bool | GNum rat | GStr string | GRef nat

text \<open>A nil map or slice and a nil pointer are \<open>None\<close> where their type is known.\<close>

type_synonym ref = "nat option"

datatype cell = CMap "(string \<times> goVal) list" | CSlice "goVal list" | CStrs "string list" | CTime int
  | CErr string string ref

record heap =
  hpCells :: "nat \<Rightarrow> cell option"
  hpNext :: nat

definition newCell :: "cell \<Rightarrow> heap \<Rightarrow> nat \<times> heap" where
  "newCell c h = (hpNext h, \<lparr>hpCells = (hpCells h)(hpNext h \<mapsto> c), hpNext = Suc (hpNext h)\<rparr>)"

text \<open>
  \<open>json.Marshal\<close> of a value: \<open>None\<close> is its error, here for a value that contains itself.  The number \<open>n\<close> bounds
  the nesting; there cannot be more levels than cells (\<open>marshal_enough\<close>).
\<close>

fun marshal :: "nat \<Rightarrow> heap \<Rightarrow> goVal \<Rightarrow> json option" where
  "marshal n h GNil = Some JNull"
| "marshal n h (GBool b) = Some (JBool b)"
| "marshal n h (GNum x) = Some (JNum x)"
| "marshal n h (GStr s) = Some (JStr s)"
| "marshal 0 h (GRef l) = None"
| "marshal (Suc n) h (GRef l) =
     (case hpCells h l of
        Some (CMap m) \<Rightarrow> map_option (\<lambda>vs. JObj (zip (List.map fst m) vs)) (those (List.map (\<lambda>(k, v). marshal n h v) m))
      | Some (CSlice vs) \<Rightarrow> map_option JArr (those (List.map (marshal n h) vs))
      | Some (CStrs ss) \<Rightarrow> Some (JArr (List.map JStr ss))
      | _ \<Rightarrow> None)"

definition marshalAny :: "heap \<Rightarrow> goVal \<Rightarrow> json option" where
  "marshalAny h v = marshal (hpNext h) h v"

text \<open>\<open>json.Unmarshal\<close> into \<open>any\<close>: every map and slice is a new cell.\<close>

fun unmarshal :: "json \<Rightarrow> heap \<Rightarrow> goVal \<times> heap" and unmarshalList :: "json list \<Rightarrow> heap \<Rightarrow> goVal list \<times> heap"
  and unmarshalFields :: "jobj \<Rightarrow> heap \<Rightarrow> (string \<times> goVal) list \<times> heap" where
  "unmarshal JNull h = (GNil, h)"
| "unmarshal (JBool b) h = (GBool b, h)"
| "unmarshal (JNum x) h = (GNum x, h)"
| "unmarshal (JStr s) h = (GStr s, h)"
| "unmarshal (JArr xs) h = (let (vs, h1) = unmarshalList xs h; (l, h2) = newCell (CSlice vs) h1 in (GRef l, h2))"
| "unmarshal (JObj m) h = (let (kvs, h1) = unmarshalFields m h; (l, h2) = newCell (CMap kvs) h1 in (GRef l, h2))"
| "unmarshalList [] h = ([], h)"
| "unmarshalList (x # xs) h = (let (v, h1) = unmarshal x h; (vs, h2) = unmarshalList xs h1 in (v # vs, h2))"
| "unmarshalFields [] h = ([], h)"
| "unmarshalFields ((k, x) # m) h =
     (let (v, h1) = unmarshal x h; (kvs, h2) = unmarshalFields m h1 in ((k, v) # kvs, h2))"

section \<open>The copies\<close>

definition cloneAny :: "goVal \<Rightarrow> heap \<Rightarrow> goVal \<times> heap" where
  "cloneAny v h =
     (if v = GNil then (GNil, h)
      else (case marshalAny h v of None \<Rightarrow> (v, h) | Some j \<Rightarrow> unmarshal j h))"

fun cloneFields :: "(string \<times> goVal) list \<Rightarrow> heap \<Rightarrow> (string \<times> goVal) list \<times> heap" where
  "cloneFields [] h = ([], h)"
| "cloneFields ((k, v) # m) h =
     (let (v', h1) = cloneAny v h; (m', h2) = cloneFields m h1 in ((k, v') # m', h2))"

definition mapAt :: "heap \<Rightarrow> nat \<Rightarrow> (string \<times> goVal) list" where
  "mapAt h l = (case hpCells h l of Some (CMap m) \<Rightarrow> m | _ \<Rightarrow> [])"

definition cloneMap :: "ref \<Rightarrow> heap \<Rightarrow> ref \<times> heap" where
  "cloneMap r h =
     (case r of
        None \<Rightarrow> (None, h)
      | Some l \<Rightarrow> (let (m, h1) = cloneFields (mapAt h l) h; (l', h2) = newCell (CMap m) h1 in (Some l', h2)))"

text \<open>\<open>append([]string(nil), xs...)\<close>, which is nil for an empty slice.\<close>

definition strsAt :: "heap \<Rightarrow> ref \<Rightarrow> string list" where
  "strsAt h r = (case r of None \<Rightarrow> [] | Some l \<Rightarrow> (case hpCells h l of Some (CStrs ss) \<Rightarrow> ss | _ \<Rightarrow> []))"

definition copyStrs :: "ref \<Rightarrow> heap \<Rightarrow> ref \<times> heap" where
  "copyStrs r h =
     (if strsAt h r = [] then (None, h)
      else (let (l, h1) = newCell (CStrs (strsAt h r)) h in (Some l, h1)))"

text \<open>A pointer to a time, which is copied when it is not nil.\<close>

definition timeAt :: "heap \<Rightarrow> nat \<Rightarrow> int" where
  "timeAt h l = (case hpCells h l of Some (CTime t) \<Rightarrow> t | _ \<Rightarrow> 0)"

definition copyTime :: "ref \<Rightarrow> heap \<Rightarrow> ref \<times> heap" where
  "copyTime r h =
     (case r of None \<Rightarrow> (None, h) | Some l \<Rightarrow> (let (l', h1) = newCell (CTime (timeAt h l)) h in (Some l', h1)))"

text \<open>
  The structs: the fields that are references, and the record with the other ones, of which only
  these are looked at.
\<close>

record goInvocation =
  giPlain :: invocation
  giNodeIds :: ref
  giParams :: goVal
  giStartedAt :: ref
  giFinishedAt :: ref

record goTemplate =
  gtPlain :: commandTemplate
  gtTargetOS :: ref
  gtArgs :: ref
  gtParamsSchema :: ref

record goAudit =
  gaPlain :: auditEvent
  gaTargetNodeIds :: ref
  gaFinishedAt :: ref

record goResult =
  grPlain :: invocationResult
  grData :: goVal
  grError :: ref

definition cloneInvocation :: "goInvocation \<Rightarrow> heap \<Rightarrow> goInvocation \<times> heap" where
  "cloneInvocation iv h =
     (let (nodes, h1) = copyStrs (giNodeIds iv) h;
          (params, h2) = cloneAny (giParams iv) h1;
          (started, h3) = copyTime (giStartedAt iv) h2;
          (finished, h4) = copyTime (giFinishedAt iv) h3
      in (iv\<lparr>giNodeIds := nodes, giParams := params, giStartedAt := started, giFinishedAt := finished\<rparr>, h4))"

definition cloneTemplate :: "goTemplate \<Rightarrow> heap \<Rightarrow> goTemplate \<times> heap" where
  "cloneTemplate tpl h =
     (let (targets, h1) = copyStrs (gtTargetOS tpl) h;
          (as, h2) = copyStrs (gtArgs tpl) h1;
          (schema, h3) = cloneMap (gtParamsSchema tpl) h2
      in (tpl\<lparr>gtTargetOS := targets, gtArgs := as, gtParamsSchema := schema\<rparr>, h3))"

definition cloneAudit :: "goAudit \<Rightarrow> heap \<Rightarrow> goAudit \<times> heap" where
  "cloneAudit evt h =
     (let (nodes, h1) = copyStrs (gaTargetNodeIds evt) h;
          (finished, h2) = copyTime (gaFinishedAt evt) h1
      in (evt\<lparr>gaTargetNodeIds := nodes, gaFinishedAt := finished\<rparr>, h2))"

definition cloneError :: "ref \<Rightarrow> heap \<Rightarrow> ref \<times> heap" where
  "cloneError r h =
     (case r of
        None \<Rightarrow> (None, h)
      | Some l \<Rightarrow>
          (case hpCells h l of
             Some (CErr code msg details) \<Rightarrow>
               (let (d, h1) = cloneMap details h; (l', h2) = newCell (CErr code msg d) h1 in (Some l', h2))
           | _ \<Rightarrow> (r, h)))"

definition cloneResult :: "goResult \<Rightarrow> heap \<Rightarrow> goResult \<times> heap" where
  "cloneResult res h =
     (let (err, h1) = cloneError (grError res) h;
          (data, h2) = cloneAny (grData res) h1
      in (res\<lparr>grError := err, grData := data\<rparr>, h2))"

fun cloneResults :: "goResult list \<Rightarrow> heap \<Rightarrow> goResult list \<times> heap" where
  "cloneResults [] h = ([], h)"
| "cloneResults (r # rs) h =
     (let (r', h1) = cloneResult r h; (rs', h2) = cloneResults rs h1 in (r' # rs', h2))"

section \<open>What a value reads as\<close>

definition wfHeap :: "heap \<Rightarrow> bool" where
  "wfHeap h \<longleftrightarrow> (\<forall>l \<ge> hpNext h. hpCells h l = None)"

text \<open>A later heap that has kept the cells below \<open>n\<close>, and one that has kept those from \<open>n\<close> on.\<close>

definition sameBelow :: "nat \<Rightarrow> heap \<Rightarrow> heap \<Rightarrow> bool" where
  "sameBelow n h h' \<longleftrightarrow> hpNext h \<le> hpNext h' \<and> (\<forall>l < n. hpCells h' l = hpCells h l)"

definition sameFrom :: "nat \<Rightarrow> heap \<Rightarrow> heap \<Rightarrow> bool" where
  "sameFrom n h h' \<longleftrightarrow> hpNext h \<le> hpNext h' \<and> (\<forall>l \<ge> n. hpCells h l \<noteq> None \<longrightarrow> hpCells h' l = hpCells h l)"

definition strsView :: "heap \<Rightarrow> ref \<Rightarrow> string list option" where
  "strsView h r =
     (case r of None \<Rightarrow> Some []
      | Some l \<Rightarrow> (case hpCells h l of Some (CStrs ss) \<Rightarrow> Some ss | _ \<Rightarrow> None))"

definition timeView :: "heap \<Rightarrow> ref \<Rightarrow> int option option" where
  "timeView h r =
     (case r of None \<Rightarrow> Some None
      | Some l \<Rightarrow> (case hpCells h l of Some (CTime t) \<Rightarrow> Some (Some t) | _ \<Rightarrow> None))"

definition fieldsView :: "heap \<Rightarrow> (string \<times> goVal) list \<Rightarrow> jobj option" where
  "fieldsView h m = map_option (zip (List.map fst m)) (those (List.map (\<lambda>(k, v). marshalAny h v) m))"

definition mapView :: "heap \<Rightarrow> ref \<Rightarrow> jobj option" where
  "mapView h r =
     (case r of None \<Rightarrow> Some []
      | Some l \<Rightarrow> (case marshalAny h (GRef l) of Some (JObj m) \<Rightarrow> Some m | _ \<Rightarrow> None))"

definition errView :: "heap \<Rightarrow> ref \<Rightarrow> invocationError option option" where
  "errView h r =
     (case r of None \<Rightarrow> Some None
      | Some l \<Rightarrow> (case hpCells h l of
          Some (CErr code msg d) \<Rightarrow>
            map_option (\<lambda>m. Some \<lparr>ieCode = code, ieMessage = msg, ieDetails = m\<rparr>) (mapView h d)
        | _ \<Rightarrow> None))"

section \<open>Marshalling\<close>

lemma those_mono:
  "those (List.map f xs) = Some ys \<Longrightarrow> (\<And>x y. x \<in> set xs \<Longrightarrow> f x = Some y \<Longrightarrow> g x = Some y) \<Longrightarrow>
   those (List.map g xs) = Some ys"
  by (induction xs arbitrary: ys) (auto split: option.splits)

lemma those_length: "those xs = Some ys \<Longrightarrow> length ys = length xs"
  by (induction xs arbitrary: ys) (auto split: option.splits)

lemma those_None: "those xs = None \<longleftrightarrow> None \<in> set xs"
  by (induction xs) (auto split: option.splits)

text \<open>More nesting allowed, and other cells added, give the same value.\<close>

lemma marshal_frame:
  "marshal n h v = Some j \<Longrightarrow> n \<le> n' \<Longrightarrow> (\<And>l. hpCells h l \<noteq> None \<Longrightarrow> hpCells h' l = hpCells h l) \<Longrightarrow>
   marshal n' h' v = Some j"
proof (induction n h v arbitrary: n' j rule: marshal.induct)
  case (6 n h l)
  obtain k where n': "n' = Suc k" "n \<le> k" using 6(4) by (cases n') auto
  from 6(3) obtain c where c: "hpCells h l = Some c" by (auto split: option.splits)
  with 6(5) have c': "hpCells h' l = Some c" by simp
  show ?case
  proof (cases c)
    case (CMap m)
    with 6(3) c obtain vs where v: "those (List.map (\<lambda>(k, v). marshal n h v) m) = Some vs" "j = JObj (zip (List.map fst m) vs)"
      by auto
    have "marshal k h' w = Some y" if "(i, w) \<in> set m" "marshal n h w = Some y" for i w y
      using 6(1) [OF c CMap that(1) refl that(2) n'(2) 6(5)] .
    with v(1) have "those (List.map (\<lambda>(i, v). marshal k h' v) m) = Some vs"
      by (intro those_mono [OF v(1)]) (auto split: prod.splits)
    with c' CMap v(2) show ?thesis by (simp add: n')
  next
    case (CSlice vs)
    with 6(3) c obtain js where v: "those (List.map (marshal n h) vs) = Some js" "j = JArr js" by auto
    from v(1) have "those (List.map (marshal k h') vs) = Some js"
      by (rule those_mono) (rule 6(2) [OF c CSlice _ _ n'(2) 6(5)])
    with c' CSlice v(2) show ?thesis by (simp add: n')
  qed (use 6(3) c c' n' in simp_all)
qed auto

lemma marshal_mono: "marshal n h v = Some j \<Longrightarrow> n \<le> n' \<Longrightarrow> marshal n' h v = Some j"
  by (rule marshal_frame) simp_all

lemma wfHeap_dom: "wfHeap h \<Longrightarrow> hpCells h l \<noteq> None \<Longrightarrow> l < hpNext h"
  by (meson not_le wfHeap_def)

lemma marshalAny_below:
  assumes "wfHeap h" "sameBelow (hpNext h) h h'" "marshalAny h v = Some j"
  shows "marshalAny h' v = Some j"
  unfolding marshalAny_def
proof (rule marshal_frame)
  show "marshal (hpNext h) h v = Some j" using assms(3) by (simp add: marshalAny_def)
  show "hpNext h \<le> hpNext h'" using assms(2) by (simp add: sameBelow_def)
  show "hpCells h' l = hpCells h l" if "hpCells h l \<noteq> None" for l
    using assms(2) wfHeap_dom [OF assms(1) that] by (simp add: sameBelow_def)
qed

text \<open>The bound on the nesting: what can be marshalled at all can be with as many levels as there are cells.\<close>

definition readableAt :: "heap \<Rightarrow> nat \<Rightarrow> nat set" where
  "readableAt h n = {l. marshal n h (GRef l) \<noteq> None}"

lemma readable_value:
  assumes "readableAt h (Suc n) \<subseteq> readableAt h n" "marshal (Suc n) h v \<noteq> None"
  shows "marshal n h v \<noteq> None"
  using assms by (cases v) (auto simp: readableAt_def)

lemma marshal_ref:
  "marshal (Suc n) h (GRef l) \<noteq> None \<longleftrightarrow>
     (case hpCells h l of
        Some (CMap m) \<Rightarrow> \<forall>(k, v) \<in> set m. marshal n h v \<noteq> None
      | Some (CSlice vs) \<Rightarrow> \<forall>v \<in> set vs. marshal n h v \<noteq> None
      | Some (CStrs ss) \<Rightarrow> True
      | _ \<Rightarrow> False)"
proof -
  have th: "those (List.map f xs) \<noteq> None \<longleftrightarrow> (\<forall>x \<in> set xs. f x \<noteq> None)"
    for f :: "'x \<Rightarrow> json option" and xs
    unfolding those_None by force
  show ?thesis
  proof (cases "hpCells h l")
    case (Some c)
    then show ?thesis
      by (cases c) (use th [of "\<lambda>(k, v). marshal n h v"] th [of "marshal n h"] in \<open>simp_all add: case_prod_unfold\<close>)
  qed simp
qed

lemma readable_stable:
  assumes "readableAt h (Suc n) \<subseteq> readableAt h n"
  shows "readableAt h (Suc (Suc n)) \<subseteq> readableAt h (Suc n)"
  using readable_value [OF assms] unfolding readableAt_def marshal_ref
  by (auto simp del: marshal.simps(6) split: option.splits cell.splits prod.splits)

lemma readable_finite:
  assumes "wfHeap h" shows "readableAt h n \<subseteq> {..< hpNext h}"
proof
  fix l assume "l \<in> readableAt h n"
  then have "hpCells h l \<noteq> None" by (cases n) (auto simp: readableAt_def split: option.splits)
  with wfHeap_dom [OF assms] show "l \<in> {..< hpNext h}" by simp
qed

lemma readable_card:
  "wfHeap h \<Longrightarrow> \<not> readableAt h (Suc n) \<subseteq> readableAt h n \<Longrightarrow> Suc n \<le> card (readableAt h (Suc n))"
proof (induction n)
  case 0
  then have "readableAt h 1 \<noteq> {}" by auto
  then show ?case using finite_subset [OF readable_finite [OF 0(1)]] by (simp add: Suc_le_eq card_gt_0_iff)
next
  case (Suc n)
  have "\<not> readableAt h (Suc n) \<subseteq> readableAt h n" using Suc.prems(2) readable_stable by blast
  note ih = Suc.IH [OF Suc.prems(1) this]
  have "readableAt h (Suc n) \<subseteq> readableAt h (Suc (Suc n))"
    unfolding readableAt_def using marshal_mono [of "Suc n" h _ _ "Suc (Suc n)"] by fastforce
  then have "card (readableAt h (Suc n)) < card (readableAt h (Suc (Suc n)))"
    using Suc.prems(2) finite_subset [OF readable_finite [OF Suc.prems(1)]] by (intro psubset_card_mono) auto
  with ih show ?case by simp
qed

lemma marshal_enough:
  assumes "wfHeap h" "marshal n h v = Some j"
  shows "marshalAny h v = Some j"
proof -
  let ?N = "hpNext h"
  have "readableAt h (Suc ?N) \<subseteq> readableAt h ?N"
  proof (rule ccontr)
    assume "\<not> readableAt h (Suc ?N) \<subseteq> readableAt h ?N"
    from readable_card [OF assms(1) this] card_mono [OF _ readable_finite [OF assms(1), of "Suc ?N"]] show False by simp
  qed
  then have "readableAt h (Suc (?N + k)) \<subseteq> readableAt h (?N + k)" for k
    by (induction k) (simp, metis add_Suc_right readable_stable)
  then have s: "readableAt h (Suc m) \<subseteq> readableAt h m" if "?N \<le> m" for m
    using that by (metis le_iff_add)
  have "marshal (?N + k) h v \<noteq> None \<Longrightarrow> marshal ?N h v \<noteq> None" for k
  proof (induction k)
    case (Suc k)
    then have "marshal (Suc (?N + k)) h v \<noteq> None" by simp
    from readable_value [OF s this] Suc.IH show ?case by simp
  qed simp
  moreover have "marshal (?N + n) h v = Some j" by (rule marshal_mono [OF assms(2)]) simp
  ultimately obtain i where "marshal ?N h v = Some i" by fastforce
  with marshal_mono [OF this, of "?N + n"] \<open>marshal (?N + n) h v = Some j\<close> show ?thesis by (simp add: marshalAny_def)
qed

section \<open>The contract of a copy\<close>

text \<open>
  A copy reads as the original does, the original is left alone, and each of the two reads the same
  in every later heap that keeps the cells of its own side.
\<close>

locale deep_copy =
  fixes copy :: "'a \<Rightarrow> heap \<Rightarrow> 'a \<times> heap" and view :: "heap \<Rightarrow> 'a \<Rightarrow> 'b option"
  assumes grows: "wfHeap h \<Longrightarrow> view h x = Some a \<Longrightarrow> copy x h = (y, h') \<Longrightarrow> wfHeap h' \<and> sameBelow (hpNext h) h h'"
    and original: "wfHeap h \<Longrightarrow> view h x = Some a \<Longrightarrow> sameBelow (hpNext h) h h2 \<Longrightarrow> view h2 x = Some a"
    and fresh: "wfHeap h \<Longrightarrow> view h x = Some a \<Longrightarrow> copy x h = (y, h') \<Longrightarrow> sameFrom (hpNext h) h' h2 \<Longrightarrow> view h2 y = Some a"
begin

lemma isolated:
  assumes "wfHeap h" "view h x = Some a" "copy x h = (y, h')"
  shows "view h' x = Some a \<and> view h' y = Some a \<and>
    (\<forall>h2. sameBelow (hpNext h) h' h2 \<longrightarrow> view h2 x = Some a) \<and>
    (\<forall>h2. sameFrom (hpNext h) h' h2 \<longrightarrow> view h2 y = Some a)"
proof -
  note g = grows [OF assms]
  have b: "sameBelow (hpNext h) h h2" if "sameBelow (hpNext h) h' h2" for h2
    using g that by (auto simp: sameBelow_def)
  have f: "sameFrom (hpNext h) h' h'" by (simp add: sameFrom_def)
  from original [OF assms(1,2)] fresh [OF assms] g b f show ?thesis by blast
qed

end

lemma sameBelow_trans:
  "sameBelow n h h1 \<Longrightarrow> sameBelow m h1 h2 \<Longrightarrow> n \<le> m \<Longrightarrow> sameBelow n h h2"
  by (auto simp: sameBelow_def)

lemma sameBelow_next: "sameBelow n h h' \<Longrightarrow> hpNext h \<le> hpNext h'"
  by (simp add: sameBelow_def)

lemma sameFrom_later: "sameFrom n h h' \<Longrightarrow> n \<le> m \<Longrightarrow> sameFrom m h h'"
  by (auto simp: sameFrom_def)

lemma sameFrom_earlier:
  assumes "sameFrom n h2 h'" "wfHeap h1" "sameBelow (hpNext h1) h1 h2"
  shows "sameFrom n h1 h'"
  using assms wfHeap_dom [OF assms(2)] by (auto simp: sameFrom_def sameBelow_def)

lemma newCell_step:
  assumes "wfHeap h" "newCell c h = (l, h')"
  shows "l = hpNext h \<and> hpNext h' = Suc (hpNext h) \<and> hpCells h' l = Some c \<and> wfHeap h' \<and> sameBelow (hpNext h) h h'"
  using assms by (auto simp: newCell_def wfHeap_def sameBelow_def)

lemma newCell_from:
  "wfHeap h \<Longrightarrow> newCell c h = (l, h') \<Longrightarrow> sameFrom n h' h2 \<Longrightarrow> n \<le> l \<Longrightarrow>
   hpCells h2 l = Some c \<and> hpNext h < hpNext h2 \<and> sameFrom n h h2"
  by (auto simp: newCell_def wfHeap_def sameFrom_def split: if_splits)

text \<open>Two copies one after the other.\<close>

definition copyPair :: "('a \<Rightarrow> heap \<Rightarrow> 'a \<times> heap) \<Rightarrow> ('c \<Rightarrow> heap \<Rightarrow> 'c \<times> heap) \<Rightarrow> 'a \<times> 'c \<Rightarrow> heap \<Rightarrow> ('a \<times> 'c) \<times> heap" where
  "copyPair c1 c2 p h = (let (x, h1) = c1 (fst p) h; (y, h2) = c2 (snd p) h1 in ((x, y), h2))"

definition viewPair :: "(heap \<Rightarrow> 'a \<Rightarrow> 'b option) \<Rightarrow> (heap \<Rightarrow> 'c \<Rightarrow> 'd option) \<Rightarrow> heap \<Rightarrow> 'a \<times> 'c \<Rightarrow> ('b \<times> 'd) option" where
  "viewPair v1 v2 h p = (case v1 h (fst p) of None \<Rightarrow> None | Some a \<Rightarrow> map_option (Pair a) (v2 h (snd p)))"

lemma viewPair_Some:
  "viewPair v1 v2 h p = Some q \<longleftrightarrow> v1 h (fst p) = Some (fst q) \<and> v2 h (snd p) = Some (snd q)"
  by (cases q) (auto simp: viewPair_def split: option.split)

lemma deep_copy_pair:
  assumes "deep_copy c1 v1" "deep_copy c2 v2"
  shows "deep_copy (copyPair c1 c2) (viewPair v1 v2)"
proof
  fix h p q r h' and h2 :: heap
  note g = deep_copy.grows [OF assms(1)] deep_copy.grows [OF assms(2)]
  note o = deep_copy.original [OF assms(1)] deep_copy.original [OF assms(2)]
  note f = deep_copy.fresh [OF assms(1)] deep_copy.fresh [OF assms(2)]
  assume wf: "wfHeap h" and v: "viewPair v1 v2 h p = Some q"
  note v' = v [unfolded viewPair_Some, THEN conjunct1] v [unfolded viewPair_Some, THEN conjunct2]
  show "viewPair v1 v2 h2 p = Some q" if "sameBelow (hpNext h) h h2"
    using o(1) [OF wf v'(1) that] o(2) [OF wf v'(2) that] by (simp add: viewPair_Some)
  assume "copyPair c1 c2 p h = (r, h')"
  then obtain h1 where c: "c1 (fst p) h = (fst r, h1)" "c2 (snd p) h1 = (snd r, h')"
    by (auto simp: copyPair_def split: prod.splits)
  note g1 = g(1) [OF wf v'(1) c(1)]
  note v2 = o(2) [OF wf v'(2) conjunct2 [OF g1]]
  note g2 = g(2) [OF conjunct1 [OF g1] v2 c(2)]
  note n = sameBelow_next [OF conjunct2 [OF g1]]
  from g1 g2 n sameBelow_trans show "wfHeap h' \<and> sameBelow (hpNext h) h h'" by blast
  assume s: "sameFrom (hpNext h) h' h2"
  have "v1 h2 (fst r) = Some (fst q)"
    using f(1) [OF wf v'(1) c(1)] sameFrom_earlier [OF s] g1 g2 by blast
  moreover have "v2 h2 (snd r) = Some (snd q)"
    using f(2) [OF _ v2 c(2)] sameFrom_later [OF s n] g1 by blast
  ultimately show "viewPair v1 v2 h2 r = Some q" by (simp add: viewPair_Some)
qed

text \<open>A struct whose references are copied and whose other fields stay.\<close>

lemma deep_copy_struct:
  assumes "deep_copy c v"
    and "\<And>x h. copy x h = (put x (fst (c (refs x) h)), snd (c (refs x) h))"
    and "\<And>h x. view h x = map_option (fill x) (v h (refs x))"
    and "\<And>x y. refs (put x y) = y" "\<And>x y. fill (put x y) = fill x"
  shows "deep_copy copy view"
proof
  fix h x a y h' and h2 :: heap
  assume wf: "wfHeap h" and v: "view h x = Some a"
  then obtain b where b: "v h (refs x) = Some b" "a = fill x b" by (auto simp: assms(3))
  show "view h2 x = Some a" if "sameBelow (hpNext h) h h2"
    using deep_copy.original [OF assms(1) wf b(1) that] by (simp add: assms(3) b(2))
  assume "copy x h = (y, h')"
  then have c: "c (refs x) h = (fst (c (refs x) h), h')" "y = put x (fst (c (refs x) h))"
    by (auto simp: assms(2))
  show "wfHeap h' \<and> sameBelow (hpNext h) h h'" by (rule deep_copy.grows [OF assms(1) wf b(1) c(1)])
  assume "sameFrom (hpNext h) h' h2"
  from deep_copy.fresh [OF assms(1) wf b(1) c(1) this] show "view h2 y = Some a"
    by (simp add: assms(3-5) c(2) b(2))
qed

section \<open>Copies of JSON values\<close>

lemma newCell_marshal:
  assumes "wfHeap h" "newCell c h = (l, h')" "sameFrom (hpNext h0) h' h2" "hpNext h0 \<le> hpNext h"
  shows "hpCells h2 l = Some c" "sameFrom (hpNext h0) h h2"
    "hpNext h' - hpNext h0 = Suc (hpNext h - hpNext h0)"
proof -
  note s = newCell_step [OF assms(1,2)]
  then have "hpNext h0 \<le> l" using assms(4) by simp
  from newCell_from [OF assms(1,2,3) this] s assms(4)
  show "hpCells h2 l = Some c" "sameFrom (hpNext h0) h h2"
    "hpNext h' - hpNext h0 = Suc (hpNext h - hpNext h0)" by auto
qed

definition builds :: "heap \<Rightarrow> heap \<Rightarrow> (nat \<Rightarrow> heap \<Rightarrow> bool) \<Rightarrow> bool" where
  "builds h h' reads \<longleftrightarrow> wfHeap h' \<and> sameBelow (hpNext h) h h' \<and>
     (\<forall>h2. sameFrom (hpNext h) h' h2 \<longrightarrow> reads (hpNext h' - hpNext h) h2)"

lemma builds_same: "wfHeap h \<Longrightarrow> (\<And>h2. P 0 h2) \<Longrightarrow> builds h h P"
  by (simp add: builds_def sameBelow_def)

lemma builds_Cons:
  assumes "builds h h1 P" "builds h1 h2 Q"
    and "\<And>n n' h. P n h \<Longrightarrow> n \<le> n' \<Longrightarrow> P n' h" "\<And>n n' h. Q n h \<Longrightarrow> n \<le> n' \<Longrightarrow> Q n' h"
  shows "builds h h2 (\<lambda>n h. P n h \<and> Q n h)"
proof -
  note a = assms(1) [unfolded builds_def] and b = assms(2) [unfolded builds_def]
  have n: "hpNext h \<le> hpNext h1" "hpNext h1 \<le> hpNext h2" using a b by (auto simp: sameBelow_def)
  have "P (hpNext h2 - hpNext h) h3 \<and> Q (hpNext h2 - hpNext h) h3" if s: "sameFrom (hpNext h) h2 h3" for h3
  proof
    have "sameFrom (hpNext h) h1 h3" using sameFrom_earlier [OF s] a b by blast
    then have "P (hpNext h1 - hpNext h) h3" using a by blast
    then show "P (hpNext h2 - hpNext h) h3" by (rule assms(3)) (use n in simp)
    have "Q (hpNext h2 - hpNext h1) h3" using b sameFrom_later [OF s n(1)] by blast
    then show "Q (hpNext h2 - hpNext h) h3" by (rule assms(4)) (use n in simp)
  qed
  moreover have "sameBelow (hpNext h) h h2" using a b sameBelow_trans n(1) by blast
  ultimately show ?thesis using b by (auto simp: builds_def)
qed

lemma builds_cell:
  assumes "builds h h1 P" "newCell c h1 = (l, h2)"
    and "\<And>n h. P n h \<Longrightarrow> hpCells h l = Some c \<Longrightarrow> Q (Suc n) h"
  shows "builds h h2 Q"
proof -
  note a = assms(1) [unfolded builds_def]
  have n: "hpNext h \<le> hpNext h1" using a by (auto simp: sameBelow_def)
  have w: "wfHeap h1" using a by blast
  note s = newCell_step [OF w assms(2)]
  have "Q (hpNext h2 - hpNext h) h3" if f: "sameFrom (hpNext h) h2 h3" for h3
    using newCell_marshal [OF w assms(2) f n] a assms(3) by auto
  moreover have "sameBelow (hpNext h) h h2" using a s sameBelow_trans n by blast
  ultimately show ?thesis using s by (auto simp: builds_def)
qed

lemma marshalList_mono:
  "those (List.map (marshal n h) vs) = Some js \<Longrightarrow> n \<le> n' \<Longrightarrow> those (List.map (marshal n' h) vs) = Some js"
  by (erule those_mono) (rule marshal_mono)

definition marshalFields :: "nat \<Rightarrow> heap \<Rightarrow> (string \<times> goVal) list \<Rightarrow> jobj \<Rightarrow> bool" where
  "marshalFields n h kvs m \<longleftrightarrow> List.map fst kvs = List.map fst m \<and>
     those (List.map (\<lambda>(k, v). marshal n h v) kvs) = Some (List.map snd m)"

lemma marshalFields_mono: "marshalFields n h kvs m \<Longrightarrow> n \<le> n' \<Longrightarrow> marshalFields n' h kvs m"
  unfolding marshalFields_def by (auto elim!: those_mono intro: marshal_mono)

lemma unmarshal_builds:
  "unmarshal j h = (v, h') \<Longrightarrow> wfHeap h \<Longrightarrow> builds h h' (\<lambda>n h. marshal n h v = Some j)"
  "unmarshalList js h = (vs, h') \<Longrightarrow> wfHeap h \<Longrightarrow> builds h h' (\<lambda>n h. those (List.map (marshal n h) vs) = Some js)"
  "unmarshalFields m h = (kvs, h') \<Longrightarrow> wfHeap h \<Longrightarrow> builds h h' (\<lambda>n h. marshalFields n h kvs m)"
proof (induction j h and js h and m h arbitrary: v h' and vs h' and kvs h'
    rule: unmarshal_unmarshalList_unmarshalFields.induct)
  case (5 xs h)
  obtain vs h1 where u: "unmarshalList xs h = (vs, h1)" by fastforce
  with 5(2) obtain l where c: "newCell (CSlice vs) h1 = (l, h')" "v = GRef l" by (auto split: prod.splits)
  from builds_cell [OF 5(1) [OF u 5(3)] c(1)] show ?case by (simp add: c(2))
next
  case (6 m h)
  obtain kvs h1 where u: "unmarshalFields m h = (kvs, h1)" by fastforce
  with 6(2) obtain l where c: "newCell (CMap kvs) h1 = (l, h')" "v = GRef l" by (auto split: prod.splits)
  from builds_cell [OF 6(1) [OF u 6(3)] c(1)] show ?case
    by (auto simp: c(2) marshalFields_def zip_map_fst_snd)
next
  case (8 x xs h)
  obtain w h1 where u: "unmarshal x h = (w, h1)" by fastforce
  with 8(3) obtain ws where c: "unmarshalList xs h1 = (ws, h')" "vs = w # ws" by (auto split: prod.splits)
  note b = 8(1) [OF u 8(4)]
  then have "wfHeap h1" by (simp add: builds_def)
  have "builds h h' (\<lambda>n h. marshal n h w = Some x \<and> those (List.map (marshal n h) ws) = Some xs)"
    by (rule builds_Cons [OF b 8(2) [OF u [symmetric] refl c(1) \<open>wfHeap h1\<close>]])
      (erule (1) marshal_mono, erule (1) marshalList_mono)
  then show ?case by (simp add: builds_def c(2))
next
  case (10 k x m h)
  obtain w h1 where u: "unmarshal x h = (w, h1)" by fastforce
  with 10(3) obtain ws where c: "unmarshalFields m h1 = (ws, h')" "kvs = (k, w) # ws" by (auto split: prod.splits)
  note b = 10(1) [OF u 10(4)]
  then have "wfHeap h1" by (simp add: builds_def)
  have "builds h h' (\<lambda>n h. marshal n h w = Some x \<and> marshalFields n h ws m)"
    by (rule builds_Cons [OF b 10(2) [OF u [symmetric] refl c(1) \<open>wfHeap h1\<close>]])
      (erule (1) marshal_mono, erule (1) marshalFields_mono)
  then show ?case by (simp add: builds_def c(2) marshalFields_def)
qed (auto intro: builds_same simp: marshalFields_def)

interpretation any: deep_copy cloneAny marshalAny
proof
  fix h v j y h' and h2 :: heap
  assume wf: "wfHeap h" and v: "marshalAny h v = Some j"
  show "marshalAny h2 v = Some j" if "sameBelow (hpNext h) h h2" by (rule marshalAny_below [OF wf that v])
  assume c: "cloneAny v h = (y, h')"
  have b: "builds h h' (\<lambda>n h. marshal n h y = Some j)"
  proof (cases "v = GNil")
    case True
    with c v wf show ?thesis by (auto simp: cloneAny_def marshalAny_def intro!: builds_same)
  next
    case False
    with c v have "unmarshal j h = (y, h')" by (simp add: cloneAny_def)
    then show ?thesis using wf by (rule unmarshal_builds)
  qed
  then show "wfHeap h' \<and> sameBelow (hpNext h) h h'" by (simp add: builds_def)
  assume s: "sameFrom (hpNext h) h' h2"
  with b have "marshal (hpNext h' - hpNext h) h2 y = Some j" by (simp add: builds_def)
  then show "marshalAny h2 y = Some j"
    unfolding marshalAny_def by (rule marshal_mono) (use s in \<open>auto simp: sameFrom_def\<close>)
qed

text \<open>The same copy for every item of a list.\<close>

fun copyAll :: "('a \<Rightarrow> heap \<Rightarrow> 'a \<times> heap) \<Rightarrow> 'a list \<Rightarrow> heap \<Rightarrow> 'a list \<times> heap" where
  "copyAll c [] h = ([], h)"
| "copyAll c (x # xs) h = (let (y, h1) = c x h; (ys, h2) = copyAll c xs h1 in (y # ys, h2))"

definition viewAll :: "(heap \<Rightarrow> 'a \<Rightarrow> 'b option) \<Rightarrow> heap \<Rightarrow> 'a list \<Rightarrow> 'b list option" where
  "viewAll v h xs = those (List.map (v h) xs)"

lemma viewAll_Cons: "viewAll v h (x # xs) = Some as \<longleftrightarrow> (\<exists>a bs. as = a # bs \<and> v h x = Some a \<and> viewAll v h xs = Some bs)"
  by (auto simp: viewAll_def split: option.splits)

context deep_copy
begin

lemma all_original:
  "wfHeap h \<Longrightarrow> viewAll view h xs = Some as \<Longrightarrow> sameBelow (hpNext h) h h2 \<Longrightarrow> viewAll view h2 xs = Some as"
  unfolding viewAll_def by (erule those_mono) (rule original)

lemma all_fresh:
  "wfHeap h \<Longrightarrow> viewAll view h xs = Some as \<Longrightarrow> copyAll copy xs h = (ys, h') \<Longrightarrow>
   wfHeap h' \<and> sameBelow (hpNext h) h h' \<and> (\<forall>h2. sameFrom (hpNext h) h' h2 \<longrightarrow> viewAll view h2 ys = Some as)"
proof (induction xs arbitrary: h as ys)
  case (Cons x xs)
  from Cons.prems(2) obtain a bs where v: "as = a # bs" "view h x = Some a" "viewAll view h xs = Some bs"
    by (auto simp: viewAll_Cons)
  from Cons.prems(3) obtain y h1 zs where c: "copy x h = (y, h1)" "copyAll copy xs h1 = (zs, h')" "ys = y # zs"
    by (auto split: prod.splits)
  note g = grows [OF Cons.prems(1) v(2) c(1)]
  then have w: "wfHeap h1" and n: "hpNext h \<le> hpNext h1" by (auto simp: sameBelow_def)
  note t = Cons.IH [OF w all_original [OF Cons.prems(1) v(3) conjunct2 [OF g]] c(2)]
  have "viewAll view h2 ys = Some as" if s: "sameFrom (hpNext h) h' h2" for h2
  proof -
    have "sameFrom (hpNext h) h1 h2" using sameFrom_earlier [OF s w] t by blast
    with fresh [OF Cons.prems(1) v(2) c(1)] have "view h2 y = Some a" by blast
    moreover have "viewAll view h2 zs = Some bs" using t sameFrom_later [OF s n] by blast
    ultimately show ?thesis by (simp add: viewAll_Cons c(3) v(1))
  qed
  with g t n sameBelow_trans show ?case by blast
qed (simp add: sameBelow_def viewAll_def)

end

lemma deep_copy_all: "deep_copy c v \<Longrightarrow> deep_copy (copyAll c) (viewAll v)"
  by unfold_locales (meson deep_copy.all_fresh deep_copy.all_original)+

lemma cloneFields_all:
  "cloneFields m h = (zip (List.map fst m) (fst (copyAll cloneAny (List.map snd m) h)),
     snd (copyAll cloneAny (List.map snd m) h))"
  by (induction m h rule: cloneFields.induct) (auto split: prod.splits)

lemma copyAll_length: "length (fst (copyAll c xs h)) = length xs"
  by (induction c xs h rule: copyAll.induct) (auto split: prod.splits)

lemma fieldsView_all:
  "fieldsView h m = map_option (zip (List.map fst m)) (viewAll marshalAny h (List.map snd m))"
  by (simp add: fieldsView_def viewAll_def case_prod_unfold comp_def)

lemma marshal_next: "hpCells h' = hpCells h \<Longrightarrow> marshal n h' v = marshal n h v"
  using marshal_frame [of n h v _ n h'] marshal_frame [of n h' v _ n h]
  by (cases "marshal n h v"; cases "marshal n h' v") auto

interpretation flds: deep_copy cloneFields fieldsView
proof
  fix h m a y h' and h2 :: heap
  assume wf: "wfHeap h" and v: "fieldsView h m = Some a"
  then obtain vs where vs: "viewAll marshalAny h (List.map snd m) = Some vs" "a = zip (List.map fst m) vs"
    by (auto simp: fieldsView_all)
  show "fieldsView h2 m = Some a" if "sameBelow (hpNext h) h h2"
    using any.all_original [OF wf vs(1) that] by (simp add: fieldsView_all vs(2))
  assume "cloneFields m h = (y, h')"
  then obtain ws where c: "copyAll cloneAny (List.map snd m) h = (ws, h')" "y = zip (List.map fst m) ws"
    unfolding cloneFields_all by (metis prod.collapse prod.inject)
  have len: "length ws = length m" using copyAll_length [of cloneAny "List.map snd m" h] c(1) by simp
  note f = any.all_fresh [OF wf vs(1) c(1)]
  then show "wfHeap h' \<and> sameBelow (hpNext h) h h'" by blast
  assume "sameFrom (hpNext h) h' h2"
  with f have "viewAll marshalAny h2 ws = Some vs" by blast
  then show "fieldsView h2 y = Some a" by (simp add: fieldsView_all c(2) vs(2) len)
qed

text \<open>A map reads as its fields do, with one level less.\<close>

lemma mapView_cell:
  "mapView h (Some l) = Some m \<longleftrightarrow>
   (\<exists>k kvs. hpNext h = Suc k \<and> hpCells h l = Some (CMap kvs) \<and> fieldsView (h\<lparr>hpNext := k\<rparr>) kvs = Some m)"
proof -
  have f: "fieldsView (h\<lparr>hpNext := k\<rparr>) kvs =
      map_option (zip (List.map fst kvs)) (those (List.map (\<lambda>(i, v). marshal k h v) kvs))" for k kvs
    by (simp add: fieldsView_def marshalAny_def marshal_next [of "h\<lparr>hpNext := k\<rparr>" h])
  show ?thesis
    by (cases "hpNext h")
      (auto simp: mapView_def marshalAny_def f split: option.splits cell.splits json.splits)
qed

lemma fieldsView_more:
  assumes "fieldsView (h\<lparr>hpNext := k\<rparr>) kvs = Some m" "k \<le> hpNext h"
  shows "fieldsView h kvs = Some m"
proof -
  obtain vs where v: "those (List.map (\<lambda>(i, v). marshal k h v) kvs) = Some vs" "m = zip (List.map fst kvs) vs"
    using assms(1) by (auto simp: fieldsView_def marshalAny_def marshal_next [of "h\<lparr>hpNext := k\<rparr>" h])
  from v(1) have "those (List.map (\<lambda>(i, v). marshal (hpNext h) h v) kvs) = Some vs"
    by (rule those_mono) (auto intro: marshal_mono assms(2))
  then show ?thesis by (simp add: fieldsView_def marshalAny_def v(2))
qed

lemma mapView_below:
  assumes "wfHeap h" "mapView h r = Some m" "sameBelow (hpNext h) h h2"
  shows "mapView h2 r = Some m"
proof (cases r)
  case (Some l)
  with assms(2) have "marshalAny h (GRef l) = Some (JObj m)" by (auto simp: mapView_def split: option.splits json.splits)
  from marshalAny_below [OF assms(1,3) this] Some show ?thesis by (simp add: mapView_def)
qed (use assms(2) in \<open>simp add: mapView_def\<close>)

interpretation obj: deep_copy cloneMap mapView
proof
  fix h r m y h' and h2 :: heap
  assume wf: "wfHeap h" and v: "mapView h r = Some m"
  show "mapView h2 r = Some m" if "sameBelow (hpNext h) h h2" by (rule mapView_below [OF wf v that])
  assume c: "cloneMap r h = (y, h')"
  have "wfHeap h' \<and> sameBelow (hpNext h) h h' \<and> (sameFrom (hpNext h) h' h2 \<longrightarrow> mapView h2 y = Some m)"
  proof (cases r)
    case None
    with c v wf show ?thesis by (auto simp: cloneMap_def mapView_def sameBelow_def)
  next
    case (Some l)
    with v obtain k kvs where k: "hpNext h = Suc k" "hpCells h l = Some (CMap kvs)"
      "fieldsView (h\<lparr>hpNext := k\<rparr>) kvs = Some m" by (auto simp: mapView_cell)
    from c Some k(2) obtain kvs' h1 l' where d: "cloneFields kvs h = (kvs', h1)" "newCell (CMap kvs') h1 = (l', h')" "y = Some l'"
      by (auto simp: cloneMap_def mapAt_def split: prod.splits)
    have fv: "fieldsView h kvs = Some m" using fieldsView_more [OF k(3)] k(1) by simp
    note g = flds.grows [OF wf fv d(1)]
    then have w: "wfHeap h1" and n: "hpNext h \<le> hpNext h1" by (auto simp: sameBelow_def)
    note s = newCell_step [OF w d(2)]
    have "mapView h2 y = Some m" if f: "sameFrom (hpNext h) h' h2"
    proof -
      note z = newCell_from [OF w d(2) f] s n
      then obtain j where j: "hpNext h2 = Suc j" "hpNext h1 \<le> j" by (cases "hpNext h2") auto
      have "sameFrom (hpNext h) h1 (h2\<lparr>hpNext := j\<rparr>)" using z j by (auto simp: sameFrom_def)
      from flds.fresh [OF wf fv d(1) this] z j(1) show ?thesis by (simp add: d(3) mapView_cell)
    qed
    with g s n sameBelow_trans show ?thesis by blast
  qed
  then show "wfHeap h' \<and> sameBelow (hpNext h) h h'" and "sameFrom (hpNext h) h' h2 \<Longrightarrow> mapView h2 y = Some m"
    by blast+
qed

section \<open>Copies of structs\<close>

text \<open>A reference to one cell, read by \<open>rd\<close> and copied into a new one.\<close>

lemma deep_copy_cell:
  assumes "\<And>h. view h None = Some a0" "\<And>h l. view h (Some l) = (case hpCells h l of None \<Rightarrow> None | Some c \<Rightarrow> rd c)"
    and wf: "wfHeap h"
    and d: "(y = None \<and> a = a0 \<and> h' = h) \<or> (\<exists>c l. newCell c h = (l, h') \<and> y = Some l \<and> rd c = Some a)"
  shows "wfHeap h' \<and> sameBelow (hpNext h) h h' \<and> (sameFrom (hpNext h) h' h2 \<longrightarrow> view h2 y = Some a)"
  using d
proof (elim disjE exE conjE)
  assume "y = None" "a = a0" "h' = h"
  then show ?thesis using wf assms(1) by (simp add: sameBelow_def)
next
  fix c l
  assume n: "newCell c h = (l, h')" and y: "y = Some l" "rd c = Some a"
  note s = newCell_step [OF wf n]
  have "view h2 y = Some a" if "sameFrom (hpNext h) h' h2"
    using newCell_from [OF wf n that] s y by (simp add: assms(2))
  with s show ?thesis by blast
qed

lemma strsView_read:
  "strsView h None = Some []"
  "strsView h (Some l) = (case hpCells h l of None \<Rightarrow> None | Some c \<Rightarrow> (case c of CStrs ss \<Rightarrow> Some ss | _ \<Rightarrow> None))"
  by (simp_all add: strsView_def split: option.split cell.split)

lemma timeView_read:
  "timeView h None = Some None"
  "timeView h (Some l) = (case hpCells h l of None \<Rightarrow> None | Some c \<Rightarrow> (case c of CTime t \<Rightarrow> Some (Some t) | _ \<Rightarrow> None))"
  by (simp_all add: timeView_def split: option.split cell.split)

lemma cell_below: "wfHeap h \<Longrightarrow> sameBelow (hpNext h) h h2 \<Longrightarrow> hpCells h l = Some c \<Longrightarrow> hpCells h2 l = Some c"
  using wfHeap_dom [of h l] by (simp add: sameBelow_def)

interpretation strs: deep_copy copyStrs strsView
proof
  fix h r a y h' and h2 :: heap
  assume wf: "wfHeap h" and v: "strsView h r = Some a"
  show "strsView h2 r = Some a" if "sameBelow (hpNext h) h h2"
    using v cell_below [OF wf that] by (auto simp: strsView_def split: option.splits cell.splits)
  assume c: "copyStrs r h = (y, h')"
  have d: "(y = None \<and> a = [] \<and> h' = h) \<or>
      (\<exists>c l. newCell c h = (l, h') \<and> y = Some l \<and> (case c of CStrs ss \<Rightarrow> Some ss | _ \<Rightarrow> None) = Some a)"
    using c v by (auto simp: copyStrs_def strsAt_def strsView_def split: option.splits cell.splits if_splits prod.splits)
  from deep_copy_cell [where view = strsView, OF strsView_read wf d]
  show "wfHeap h' \<and> sameBelow (hpNext h) h h'" and "sameFrom (hpNext h) h' h2 \<Longrightarrow> strsView h2 y = Some a"
    by blast+
qed

interpretation times: deep_copy copyTime timeView
proof
  fix h r a y h' and h2 :: heap
  assume wf: "wfHeap h" and v: "timeView h r = Some a"
  show "timeView h2 r = Some a" if "sameBelow (hpNext h) h h2"
    using v cell_below [OF wf that] by (auto simp: timeView_def split: option.splits cell.splits)
  assume c: "copyTime r h = (y, h')"
  have d: "(y = None \<and> a = None \<and> h' = h) \<or>
      (\<exists>c l. newCell c h = (l, h') \<and> y = Some l \<and> (case c of CTime t \<Rightarrow> Some (Some t) | _ \<Rightarrow> None) = Some a)"
    using c v by (auto simp: copyTime_def timeAt_def timeView_def split: option.splits cell.splits prod.splits)
  from deep_copy_cell [where view = timeView, OF timeView_read wf d]
  show "wfHeap h' \<and> sameBelow (hpNext h) h h'" and "sameFrom (hpNext h) h' h2 \<Longrightarrow> timeView h2 y = Some a"
    by blast+
qed

interpretation errs: deep_copy cloneError errView
proof
  fix h r a y h' and h2 :: heap
  assume wf: "wfHeap h" and v: "errView h r = Some a"
  show "errView h2 r = Some a" if "sameBelow (hpNext h) h h2"
    using v cell_below [OF wf that] mapView_below [OF wf _ that]
    by (auto simp: errView_def split: option.splits cell.splits)
  assume c: "cloneError r h = (y, h')"
  have "wfHeap h' \<and> sameBelow (hpNext h) h h' \<and> (sameFrom (hpNext h) h' h2 \<longrightarrow> errView h2 y = Some a)"
  proof (cases r)
    case None
    with c v wf show ?thesis by (auto simp: cloneError_def errView_def sameBelow_def)
  next
    case (Some l)
    with v obtain code msg d m where e: "hpCells h l = Some (CErr code msg d)" "mapView h d = Some m"
      "a = Some \<lparr>ieCode = code, ieMessage = msg, ieDetails = m\<rparr>"
      by (auto simp: errView_def split: option.splits cell.splits)
    from c Some e(1) obtain d' h1 l' where k: "cloneMap d h = (d', h1)" "newCell (CErr code msg d') h1 = (l', h')" "y = Some l'"
      by (auto simp: cloneError_def split: prod.splits)
    note g = obj.grows [OF wf e(2) k(1)]
    then have w: "wfHeap h1" and n: "hpNext h \<le> hpNext h1" by (auto simp: sameBelow_def)
    note s = newCell_step [OF w k(2)]
    have "errView h2 y = Some a" if f: "sameFrom (hpNext h) h' h2"
      using newCell_from [OF w k(2) f] s n obj.fresh [OF wf e(2) k(1), of h2] by (auto simp: errView_def k(3) e(3))
    with g s n sameBelow_trans show ?thesis by blast
  qed
  then show "wfHeap h' \<and> sameBelow (hpNext h) h h'" and "sameFrom (hpNext h) h' h2 \<Longrightarrow> errView h2 y = Some a"
    by blast+
qed

definition invocationView :: "heap \<Rightarrow> goInvocation \<Rightarrow> invocation option" where
  "invocationView h g = map_option (\<lambda>(nodes, params, started, finished). (giPlain g)
       \<lparr>ivNodeIds := nodes, ivParams := params, ivStartedAt := started, ivFinishedAt := finished\<rparr>)
     (viewPair strsView (viewPair marshalAny (viewPair timeView timeView)) h
       (giNodeIds g, giParams g, giStartedAt g, giFinishedAt g))"

definition templateView :: "heap \<Rightarrow> goTemplate \<Rightarrow> commandTemplate option" where
  "templateView h g = map_option (\<lambda>(targets, as, schema). (gtPlain g)
       \<lparr>ctTargetOS := targets, ctExecutor := (ctExecutor (gtPlain g))\<lparr>teArgs := as\<rparr>, ctParamsSchema := schema\<rparr>)
     (viewPair strsView (viewPair strsView mapView) h (gtTargetOS g, gtArgs g, gtParamsSchema g))"

definition auditView :: "heap \<Rightarrow> goAudit \<Rightarrow> auditEvent option" where
  "auditView h g = map_option (\<lambda>(nodes, finished). (gaPlain g)\<lparr>auTargetNodeIds := nodes, auFinishedAt := finished\<rparr>)
     (viewPair strsView timeView h (gaTargetNodeIds g, gaFinishedAt g))"

definition resultView :: "heap \<Rightarrow> goResult \<Rightarrow> invocationResult option" where
  "resultView h g = map_option (\<lambda>(err, data). (grPlain g)\<lparr>irError := err, irData := data\<rparr>)
     (viewPair errView marshalAny h (grError g, grData g))"

interpretation invs: deep_copy cloneInvocation invocationView
  by (rule deep_copy_struct [where c = "copyPair copyStrs (copyPair cloneAny (copyPair copyTime copyTime))"
        and refs = "\<lambda>g. (giNodeIds g, giParams g, giStartedAt g, giFinishedAt g)"
        and put = "\<lambda>g (n, p, s, f). g\<lparr>giNodeIds := n, giParams := p, giStartedAt := s, giFinishedAt := f\<rparr>"
        and fill = "\<lambda>g (nodes, params, started, finished). (giPlain g)
          \<lparr>ivNodeIds := nodes, ivParams := params, ivStartedAt := started, ivFinishedAt := finished\<rparr>",
        OF _ _ invocationView_def])
    (auto simp: cloneInvocation_def copyPair_def Let_def split: prod.splits
      intro!: deep_copy_pair strs.deep_copy_axioms any.deep_copy_axioms times.deep_copy_axioms)

interpretation tpls: deep_copy cloneTemplate templateView
  by (rule deep_copy_struct [where c = "copyPair copyStrs (copyPair copyStrs cloneMap)"
        and refs = "\<lambda>g. (gtTargetOS g, gtArgs g, gtParamsSchema g)"
        and put = "\<lambda>g (t, a, s). g\<lparr>gtTargetOS := t, gtArgs := a, gtParamsSchema := s\<rparr>"
        and fill = "\<lambda>g (targets, as, schema). (gtPlain g)
          \<lparr>ctTargetOS := targets, ctExecutor := (ctExecutor (gtPlain g))\<lparr>teArgs := as\<rparr>, ctParamsSchema := schema\<rparr>",
        OF _ _ templateView_def])
    (auto simp: cloneTemplate_def copyPair_def Let_def split: prod.splits
      intro!: deep_copy_pair strs.deep_copy_axioms obj.deep_copy_axioms)

interpretation auds: deep_copy cloneAudit auditView
  by (rule deep_copy_struct [where c = "copyPair copyStrs copyTime"
        and refs = "\<lambda>g. (gaTargetNodeIds g, gaFinishedAt g)"
        and put = "\<lambda>g (n, f). g\<lparr>gaTargetNodeIds := n, gaFinishedAt := f\<rparr>"
        and fill = "\<lambda>g (nodes, finished). (gaPlain g)\<lparr>auTargetNodeIds := nodes, auFinishedAt := finished\<rparr>",
        OF _ _ auditView_def])
    (auto simp: cloneAudit_def copyPair_def Let_def split: prod.splits
      intro!: deep_copy_pair strs.deep_copy_axioms times.deep_copy_axioms)

interpretation res: deep_copy cloneResult resultView
  by (rule deep_copy_struct [where c = "copyPair cloneError cloneAny"
        and refs = "\<lambda>g. (grError g, grData g)"
        and put = "\<lambda>g (e, d). g\<lparr>grError := e, grData := d\<rparr>"
        and fill = "\<lambda>g (err, data). (grPlain g)\<lparr>irError := err, irData := data\<rparr>",
        OF _ _ resultView_def])
    (auto simp: cloneResult_def copyPair_def Let_def split: prod.splits
      intro!: deep_copy_pair errs.deep_copy_axioms any.deep_copy_axioms)

lemma cloneResults_all: "cloneResults rs h = copyAll cloneResult rs h"
  by (induction rs h rule: cloneResults.induct) (auto split: prod.splits)

interpretation ress: deep_copy cloneResults "viewAll resultView"
  using deep_copy_all [OF res.deep_copy_axioms] by (simp add: cloneResults_all [abs_def])

section \<open>Properties\<close>

text \<open>Original \<open>x\<close> and copy \<open>y\<close> read as \<open>a\<close>, each whatever happens to the cells of the other side.\<close>

definition isolatedCopy :: "(heap \<Rightarrow> 'a \<Rightarrow> 'b option) \<Rightarrow> heap \<Rightarrow> 'a \<Rightarrow> 'b \<Rightarrow> 'a \<times> heap \<Rightarrow> bool" where
  "isolatedCopy view h x a r \<longleftrightarrow>
     view (snd r) x = Some a \<and> view (snd r) (fst r) = Some a \<and>
     (\<forall>h2. sameBelow (hpNext h) (snd r) h2 \<longrightarrow> view h2 x = Some a) \<and>
     (\<forall>h2. sameFrom (hpNext h) (snd r) h2 \<longrightarrow> view h2 (fst r) = Some a)"

context deep_copy
begin

lemma isolated_copy: "wfHeap h \<Longrightarrow> view h x = Some a \<Longrightarrow> isolatedCopy view h x a (copy x h)"
  unfolding isolatedCopy_def by (rule isolated) simp_all

end

text \<open>
  Property C13: what the service hands out is its own.  The copies of invocations, templates, audit events and
  results read as the stored ones do; a later write to cells that the copy made leaves what is
  stored as it was, and whatever is done with the cells that were there before leaves the copy
  as it was.
\<close>

theorem clones_isolated:
  assumes "wfHeap h"
  shows "(invocationView h iv = Some i \<longrightarrow> isolatedCopy invocationView h iv i (cloneInvocation iv h)) \<and>
    (templateView h tpl = Some t \<longrightarrow> isolatedCopy templateView h tpl t (cloneTemplate tpl h)) \<and>
    (auditView h evt = Some e \<longrightarrow> isolatedCopy auditView h evt e (cloneAudit evt h)) \<and>
    (viewAll resultView h rs = Some out \<longrightarrow> isolatedCopy (viewAll resultView) h rs out (cloneResults rs h))"
  using invs.isolated_copy [OF assms] tpls.isolated_copy [OF assms] auds.isolated_copy [OF assms]
    ress.isolated_copy [OF assms] by blast

definition exHeap :: heap where
  "exHeap = \<lparr>hpCells = [0 \<mapsto> CStrs [''n1''], 1 \<mapsto> CMap [(''k'', GStr ''v'')]], hpNext = 2\<rparr>"

definition exInvocation :: goInvocation where
  "exInvocation = \<lparr>giPlain = \<lparr>ivId = ''i'', ivAction = ''fs.read'', ivActionType = ''builtin'', ivStatus = ''pending'',
       ivAsync = False, ivNodeIds = [], ivParams = JNull, ivSubjectId = ''s'', ivSource = ''api'', ivTimeoutSec = 5,
       ivCreatedAt = 1, ivStartedAt = None, ivFinishedAt = None\<rparr>,
     giNodeIds = Some 0, giParams = GRef 1, giStartedAt = None, giFinishedAt = None\<rparr>"

theorem clones_isolated_witness:
  "\<exists>cp h' i. cloneInvocation exInvocation exHeap = (cp, h') \<and> giParams cp = GRef 3 \<and>
     ivParams i = JObj [(''k'', JStr ''v'')] \<and>
     invocationView (h'\<lparr>hpCells := (hpCells h')(3 \<mapsto> CMap [])\<rparr>) exInvocation = Some i \<and>
     invocationView (h'\<lparr>hpCells := (hpCells h')(1 \<mapsto> CMap [])\<rparr>) cp = Some i"
proof -
  have w: "wfHeap exHeap" by (simp add: wfHeap_def exHeap_def)
  have n: "hpNext exHeap = 2" by (simp add: exHeap_def)
  obtain cp h' where c: "cloneInvocation exInvocation exHeap = (cp, h')" by fastforce
  then have p: "giParams cp = GRef 3"
    by (auto simp: cloneInvocation_def exInvocation_def exHeap_def copyStrs_def strsAt_def newCell_def cloneAny_def
        marshalAny_def copyTime_def numeral_2_eq_2 Let_def)
  obtain i where i: "invocationView exHeap exInvocation = Some i" "ivParams i = JObj [(''k'', JStr ''v'')]"
    by (simp add: invocationView_def viewPair_def strsView_def marshalAny_def timeView_def exInvocation_def exHeap_def
        numeral_2_eq_2)
  have "isolatedCopy invocationView exHeap exInvocation i (cp, h')"
    using clones_isolated [OF w, of exInvocation i] i(1) c by simp
  moreover have "sameBelow 2 h' (h'\<lparr>hpCells := (hpCells h')(3 \<mapsto> CMap [])\<rparr>)"
    "sameFrom 2 h' (h'\<lparr>hpCells := (hpCells h')(1 \<mapsto> CMap [])\<rparr>)"
    by (simp_all add: sameBelow_def sameFrom_def)
  ultimately show ?thesis using c p i unfolding isolatedCopy_def n fst_conv snd_conv by blast
qed

end
