(* ===== verification/NodeActions.thy ===== *)
theory NodeActions
  imports HttpProps Agent
begin

text \<open>
  Actions on a node, from the HTTP request at the center over the tool request to the agent that
  serves it and back: the handlers of \<open>sysplane-center/httpapi\<close> and \<open>sysplane-center/admin\<close> composed
  with the tools of \<open>sysplane-agent\<close>.
\<close>

section \<open>An action served by an agent\<close>

text \<open>
  The center admits the action and the node is an online agent; \<open>ps\<close> are the decoded arguments.
\<close>

definition admitted ::
  "apiEnv \<Rightarrow> apiRequest \<Rightarrow> string \<Rightarrow> string \<Rightarrow> requestMeta \<Rightarrow> service \<Rightarrow> jobj \<Rightarrow> bool" where
  "admitted env r node action meta s ps \<longleftrightarrow>
     (\<exists>plan rec. preparePlan (normalizeMeta (fiRequest (avFresh env)) meta) (directInvokeRequest node action ps) s = Inr plan \<and>
       decodeJSONMap r = Inr ps \<and> trimSpace node \<noteq> [] \<and> regLookup (sdReg (avDeps env)) (trimSpace node) = Some rec \<and>
       nodeTypeOf rec = ''agent'' \<and> status rec = StatusOnline)"

text \<open>The request reaches the agent, and the answer that the center awaits is what the agent's tool gives.\<close>

definition answeredBy :: "apiEnv \<Rightarrow> string \<Rightarrow> agentEnv \<Rightarrow> agentSys \<Rightarrow> string \<Rightarrow> jtext \<Rightarrow> bool" where
  "answeredBy env node aenv sys tool args \<longleftrightarrow>
     (let ce = sdEnv (avDeps env) (fiObject (avFresh env)) (trimSpace node) in
      ceSendErr ce = None \<and> ceAwait ce = Answer (toolAnswer (fiObject (avFresh env)) (fst (runTool aenv tool args sys))))"

definition agentError :: "goerr \<Rightarrow> goerr" where
  "agentError e = ErrText (''agent error [TOOL_ERROR]: '' @ errMsg e)"

lemma msgResult_toolAnswer:
  "snd (msgResult (toolAnswer i res)) = (case res of Inl e \<Rightarrow> Inl (agentError e) | Inr out \<Rightarrow> Inr out)"
  by (simp add: toolAnswer_def agentError_def split: sum.split)

lemma epAction_direct:
  assumes "preparePlan meta (directInvokeRequest node action ps) s = Inr plan"
  shows "epAction plan = normalizeAction (normalizeAction action)"
proof -
  have b: "trimSpace actionTypeBuiltin = actionTypeBuiltin" unfolding actionType_defs by code_simp
  show ?thesis
    using assms unfolding preparePlan_def directInvokeRequest_def
    by (auto simp: b planBuiltin_def Let_def split: if_splits sum.splits option.splits)
qed

theorem action_answered:
  assumes adm: "admitted env r node action meta s ps"
    and spec: "builtinSpecFor (normalizeAction (normalizeAction action)) = Inr spec"
    and ans: "answeredBy env node aenv sys (fst (bsMarshal spec ps)) (snd (bsMarshal spec ps))"
  shows "fst (handleAction env r node action meta s db) =
    (case fst (runTool aenv (fst (bsMarshal spec ps)) (snd (bsMarshal spec ps)) sys) of
       Inl e \<Rightarrow> writeInvocationError meta (classifyInvokeError (trimSpace node) (agentError e))
     | Inr out \<Rightarrow> Reply StatusOK (DataBody (projr (bsTransform spec (decodeResult out)))))"
proof -
  from adm obtain plan rec where p: "preparePlan (normalizeMeta (fiRequest (avFresh env)) meta)
      (directInvokeRequest node action ps) s = Inr plan"
    and b: "decodeJSONMap r = Inr ps" "trimSpace node \<noteq> []" "regLookup (sdReg (avDeps env)) (trimSpace node) = Some rec"
      "nodeTypeOf rec = ''agent''" "status rec = StatusOnline"
    by (auto simp: admitted_def)
  have sp: "builtinSpecFor (epAction plan) = Inr spec" using spec epAction_direct [OF p] by simp
  from http_action_spec [OF p b sp, of db] obtain msgs label res s' db' where
    r: "routerSend rec (fiObject (avFresh env)) (fst (bsMarshal spec ps)) (snd (bsMarshal spec ps))
        (ceSendErr (sdEnv (avDeps env) (fiObject (avFresh env)) (trimSpace node)))
        (ceAwait (sdEnv (avDeps env) (fiObject (avFresh env)) (trimSpace node))) = (msgs, label, res)"
    and h: "fst (handleAction env r node action meta s db) = (case res of
          Inl e \<Rightarrow> writeInvocationError meta (classifyInvokeError (trimSpace node) e)
        | Inr x \<Rightarrow> Reply StatusOK (DataBody (projr (bsTransform spec (decodeResult x)))))"
    by fastforce
  from r ans have "(label, res) = msgResult (toolAnswer (fiObject (avFresh env))
      (fst (runTool aenv (fst (bsMarshal spec ps)) (snd (bsMarshal spec ps)) sys)))"
    by (simp add: answeredBy_def routerSend_def Let_def)
  then have "res = snd (msgResult (toolAnswer (fiObject (avFresh env))
      (fst (runTool aenv (fst (bsMarshal spec ps)) (snd (bsMarshal spec ps)) sys))))"
    by (metis snd_conv)
  then show ?thesis unfolding h msgResult_toolAnswer by (simp split: sum.split)
qed

section \<open>Refused paths\<close>

definition fileActions :: "string list" where
  "fileActions = [''fs.list'', ''fs.read'', ''fs.stat'', ''fs.write'']"

lemma action_names:
  "normalizeAction ''fs.list'' = ''fs.list''" "normalizeAction ''fs.read'' = ''fs.read''"
  "normalizeAction ''fs.stat'' = ''fs.stat''" "normalizeAction ''fs.write'' = ''fs.write''"
  "normalizeAction ''sys.info'' = ''sys.info''"
  by code_simp+

lemma fileActions_cases:
  "action \<in> set fileActions \<Longrightarrow> action = ''fs.list'' \<or> action = ''fs.read'' \<or> action = ''fs.stat'' \<or> action = ''fs.write''"
  by (simp add: fileActions_def)

lemma fileActions_normal: "action \<in> set fileActions \<Longrightarrow> normalizeAction action = action"
  by (drule fileActions_cases) (elim disjE; simp add: action_names)

lemma asInt_int64: "floatToInt64 (of_int (asInt64 v)) = asInt64 v" "floatToInt64 (of_int (asInt v)) = asInt v"
proof -
  have "isInt64 (asInt64 v)" "isInt64 (asInt v)"
    using floatToInt64_range by (auto simp: asInt64_def asInt_def isInt64_def split: json.split)
  then show "floatToInt64 (of_int (asInt64 v)) = asInt64 v" "floatToInt64 (of_int (asInt v)) = asInt v"
    by (simp_all add: floatToInt64_of_int)
qed

lemma file_action_call:
  assumes "action \<in> set fileActions" "builtinSpecFor action = Inr spec"
  shows "fst (bsMarshal spec ps) \<in> set fileTools \<and>
    decodePath (snd (bsMarshal spec ps)) = Some (asString (jget ps ''path'')) \<and>
    refusal (fst (bsMarshal spec ps)) (snd (bsMarshal spec ps)) e = e"
  using fileActions_cases [OF assms(1)]
proof (elim disjE)
  assume "action = ''fs.list''"
  with assms(2) show ?thesis
    by (auto simp: builtinSpecFor_def action_names marshalToolArgs_def fileTools_def decodePath_def refusal_def)
next
  assume "action = ''fs.read''"
  with assms(2) show ?thesis
    by (auto simp: builtinSpecFor_def action_names marshalToolArgs_def fileTools_def decodePath_def refusal_def
        decodeReadParams_def AdminBuiltins.jInt_def asInt_int64)
next
  assume "action = ''fs.stat''"
  with assms(2) show ?thesis
    by (auto simp: builtinSpecFor_def action_names marshalToolArgs_def fileTools_def decodePath_def refusal_def)
next
  assume "action = ''fs.write''"
  with assms(2) show ?thesis
    by (auto simp: builtinSpecFor_def action_names marshalToolArgs_def fileTools_def decodePath_def refusal_def
        decodeWriteParams_def)
qed

text \<open>
  Property C9: what the API answers when an agent's path guard refuses a file.  The agent's error is
  only text to the center, which looks for words in it: the reply is 500 INTERNAL_ERROR, and not the
  403 POLICY_DENIED of the security model, unless the name of the file itself holds one of the words
  the center looks for, which then decide the status.
\<close>

theorem http_refused_path:
  assumes adm: "admitted env r node action meta s ps" and act: "action \<in> set fileActions"
    and spec: "builtinSpecFor action = Inr spec"
    and ans: "answeredBy env node aenv sys (fst (bsMarshal spec ps)) (snd (bsMarshal spec ps))"
    and refused: "guardCheck (currentGuard sys) (ovLinks (aeOs aenv)) (asString (jget ps ''path'')) = Some e"
  shows "\<exists>msg. (\<exists>why \<in> {'' is blocked'', '' is not in allowed paths''}.
      msg = ''agent error [TOOL_ERROR]: fileops: path '' @ quoteStr (asString (jget ps ''path'')) @ why) \<and>
    fst (handleAction env r node action meta s db) =
      (let d = [(''node_id'', JStr (trimSpace node))] in
       if containsStr msg ''HOST_NOT_FOUND'' \<or> containsStr msg ''agent not found''
       then writeError meta 404 ''NODE_NOT_FOUND'' ''target node was not found'' d
       else if containsStr (toLower msg) ''denied'' \<or> containsStr msg ''exceeds limit''
       then writeError meta 403 ''POLICY_DENIED'' msg d
       else writeError meta 500 ''INTERNAL_ERROR'' msg d)"
proof -
  let ?tool = "fst (bsMarshal spec ps)" and ?args = "snd (bsMarshal spec ps)"
  have c: "?tool \<in> set fileTools" "decodePath ?args = Some (asString (jget ps ''path''))" "refusal ?tool ?args e = e"
    using file_action_call [OF act spec] by auto
  have n: "builtinSpecFor (normalizeAction (normalizeAction action)) = Inr spec"
    using spec fileActions_normal [OF act] by simp
  have run: "fst (runTool aenv ?tool ?args sys) = Inl e"
    using runTool_refused [OF c(1,2) refused] c(3) by simp
  obtain why where why: "why \<in> {'' is blocked'', '' is not in allowed paths''}"
    "e = guardError (asString (jget ps ''path'')) why"
    using refused by (auto simp: guardCheck_def Let_def split: if_splits)
  have m: "errMsg (agentError e) = ''agent error [TOOL_ERROR]: fileops: path '' @ quoteStr (asString (jget ps ''path'')) @ why"
    by (simp add: agentError_def why(2) guardError_def)
  have "agentError e = ErrText (errMsg (agentError e))" by (simp add: agentError_def)
  then have i: "\<not> errIs (agentError e) t" if "t \<in> {ErrNodeNotFound, ErrNodeOffline, ErrRouterCanceled, CtxCanceled,
      ErrRouterTimeout, CtxDeadlineExceeded}" for t
    using that by (auto simp: agentError_def)
  have "fst (handleAction env r node action meta s db) =
      writeInvocationError meta (classifyInvokeError (trimSpace node) (agentError e))"
    using action_answered [OF adm n ans, of db] run by simp
  also have "\<dots> = (let msg = errMsg (agentError e); d = [(''node_id'', JStr (trimSpace node))] in
       if containsStr msg ''HOST_NOT_FOUND'' \<or> containsStr msg ''agent not found''
       then writeError meta 404 ''NODE_NOT_FOUND'' ''target node was not found'' d
       else if containsStr (toLower msg) ''denied'' \<or> containsStr msg ''exceeds limit''
       then writeError meta 403 ''POLICY_DENIED'' msg d
       else writeError meta 500 ''INTERNAL_ERROR'' msg d)"
    by (simp add: classifyInvokeError_def i writeInvocationError_def invocationErrorStatus_def http_defs Let_def)
  finally show ?thesis unfolding m Let_def using why(1) by blast
qed

section \<open>Writing and reading\<close>

text \<open>The operating system of an agent shows these files, and reading them does not fail.\<close>

definition showsFiles :: "agentEnv \<Rightarrow> files \<Rightarrow> bool" where
  "showsFiles aenv fs \<longleftrightarrow>
     (\<exists>e. ovOpen (aeOs aenv) = (\<lambda>q. case fs q of Some c \<Rightarrow> Inr c | None \<Rightarrow> Inl e) \<and>
       ovStat (aeOs aenv) = (\<lambda>q. case fs q of Some c \<Rightarrow> Inr (False, int (length c)) | None \<Rightarrow> Inl e)) \<and>
     ovSeek (aeOs aenv) = None \<and> ovSeekOffset (aeOs aenv) = None \<and> ovRead (aeOs aenv) = None \<and> aeCtx aenv 0 = None"

lemma error_status: "writeInvocationError meta e \<noteq> Reply StatusOK b"
  by (simp add: writeInvocationError_def writeError_def invocationErrorStatus_def http_defs StatusOK_def)

lemma write_call:
  assumes "builtinSpecFor ''fs.write'' = Inr spec"
  shows "fst (bsMarshal spec ps) = ''write_file''"
    "decodeWriteParams (snd (bsMarshal spec ps)) = Some \<lparr>wpPath = asString (jget ps ''path''),
       wpContent = asString (jget ps ''content''), wpOverwrite = asBool (jget ps ''overwrite'')\<rparr>"
  using assms by (auto simp: builtinSpecFor_def action_names marshalToolArgs_def decodeWriteParams_def)

lemma read_call:
  assumes "builtinSpecFor ''fs.read'' = Inr spec"
  shows "fst (bsMarshal spec ps) = ''read_file''"
    "snd (bsMarshal spec ps) = rangeArgs (asString (jget ps ''path'')) (asInt64 (jget ps ''offset'')) (asInt64 (jget ps ''length''))"
    "bsTransform spec (decodeResult (readResultJson d)) = Inr (JObj [(''content'', JStr (rsContent d)),
       (''encoding'', valueOr (JStr (rsEncoding d)) (JStr ''utf-8'')), (''truncated'', JBool (rsTruncated d))])"
  using assms by (auto simp: builtinSpecFor_def action_names marshalToolArgs_def rangeArgs_def AdminBuiltins.jInt_def
      onObject_def readResultJson_def)


section \<open>System information\<close>

text \<open>
  Property C10: what \<open>sys.info\<close> tells of a node.  It is the host name, the system, the kernel and the
  uptime that the agent's collector read, and blanks when it could not read them, which is not an
  error; the architecture is always null, since no agent reports one.
\<close>

theorem sys_info_served:
  assumes adm: "admitted env r node ''sys.info'' meta s ps" and spec: "builtinSpecFor ''sys.info'' = Inr spec"
    and ans: "answeredBy env node aenv sys (fst (bsMarshal spec ps)) (snd (bsMarshal spec ps))"
  shows "fst (handleAction env r node ''sys.info'' meta s db) =
    (case hsHost (aeHardware aenv) of
       Inr h \<Rightarrow> Reply StatusOK (DataBody (JObj
         [(''hostname'', JStr (hoHostname h)), (''os'', JStr (hoOS h)), (''arch'', JNull),
          (''kernel'', JStr (hoKernelVersion h)), (''uptime_sec'', JNum (of_int (hoUptime h)))]))
     | Inl e \<Rightarrow> Reply StatusOK (DataBody (JObj
         [(''hostname'', JStr []), (''os'', JStr []), (''arch'', JNull), (''kernel'', JStr []), (''uptime_sec'', JNum 0)])))"
proof -
  have n: "builtinSpecFor (normalizeAction (normalizeAction ''sys.info'')) = Inr spec" using spec by (simp add: action_names)
  let ?hw = "hardwareJson (collectHardware (aeHardware aenv))"
  let ?sys = "systemJson (collectSystem (aeHardware aenv))"
  have m: "fst (bsMarshal spec ps) = ''get_hardware_info''" and t: "bsTransform spec (JObj ?hw) = Inr (JObj
      [(''hostname'', jget ?sys ''hostname''), (''os'', jget ?sys ''os''), (''arch'', guessArch ?sys ?hw),
       (''kernel'', jget ?sys ''kernel_version''), (''uptime_sec'', jget ?sys ''uptime_seconds'')])"
    using spec by (auto simp: builtinSpecFor_def action_names onObject_def hardwareJson_def collectHardware_def Let_def)
  have a: "guessArch sys ?hw = JNull" if "jget sys ''arch'' = JNull" for sys
    using that by (simp add: guessArch_def systemJson_def hardwareJson_def cpuJson_def)
  have "fst (runTool aenv ''get_hardware_info'' (snd (bsMarshal spec ps)) sys) = Inr (JText (JObj ?hw))"
    by (simp add: runTool_def Let_def getHardwareInfo_def)
  with action_answered [OF adm n ans, of db] show ?thesis
    by (cases "hsHost (aeHardware aenv)") (simp_all add: m t a systemJson_def collectSystem_def jNumber_def)
qed

section \<open>Examples\<close>

definition exNode :: "agentEnv \<Rightarrow> agentSys \<Rightarrow> string \<Rightarrow> jtext \<Rightarrow> apiEnv" where
  "exNode aenv sys tool args =
     (exApi exNoTokens)\<lparr>avDeps := exDeps (Answer (toolAnswer ''t1'' (fst (runTool aenv tool args sys))))\<rparr>"

definition exArgs :: "jobj \<Rightarrow> apiRequest" where
  "exArgs ps = (exCall ''/'' [])\<lparr>rqContentLength := 1, rqBody := Inr (JObj ps)\<rparr>"

abbreviation exAdmin :: requestMeta where
  "exAdmin \<equiv> requestMetaFor ''same'' (identityFor (\<lambda>s. s) DomainAdmin 0 ''a1'')"

lemma exAdmitted:
  assumes "builtinSpecFor action = Inr spec" "normalizeAction action = action" "action \<noteq> []"
  shows "admitted (exNode aenv sys tool args) (exArgs ps) ''a'' action exAdmin newService ps"
proof -
  have t: "trimSpace ''a'' = ''a''" "dedupe [''a''] = [''a'']" "trimSpace ''builtin'' = ''builtin''" by code_simp+
  have p: "\<exists>plan. preparePlan (normalizeMeta i exAdmin) (directInvokeRequest ''a'' action ps) newService = Inr plan" for i
    using assms by (simp add: preparePlan_def directInvokeRequest_def planBuiltin_def allowRisk_def normalizeMeta_def
        requestMetaFor_def identityFor_def t actionTypeBuiltin_def)
  have l: "regLookup (sdReg (avDeps (exNode aenv sys tool args))) ''a'' = Some (exRecord ''a'' 1)"
    using exDeps_nodes(1) by (simp add: exNode_def)
  have b: "decodeJSONMap (exArgs ps) = Inr ps" by (simp add: exArgs_def exCall_def decodeJSONMap_def)
  have "nodeTypeOf (exRecord ''a'' 1) = ''agent''" "status (exRecord ''a'' 1) = StatusOnline" by (simp_all add: exRecord_def)
  with p l b show ?thesis unfolding admitted_def t by blast
qed

lemma exAnswered_by: "answeredBy (exNode aenv sys tool args) ''a'' aenv sys tool args"
  by (simp add: answeredBy_def exNode_def exApi_def exDeps_def exEnv_def exFresh_def)

definition exAgent :: agentSys where
  "exAgent = (agentNew demoConfig [] Map.empty)\<lparr>asSecurity := (acSecurity demoConfig)
     \<lparr>seAllowedPaths := [], seBlockedPaths := [''/proc''], seMaxFileSizeMB := 1\<rparr>\<rparr>"

lemma exSpecs:
  "\<exists>spec. builtinSpecFor ''sys.info'' = Inr spec" "\<exists>spec. builtinSpecFor ''fs.read'' = Inr spec"
  "\<exists>spec. builtinSpecFor ''fs.write'' = Inr spec"
  by (simp_all add: builtinSpecFor_def action_names)

theorem sys_info_served_witness:
  "\<exists>args. fst (handleAction (exNode demoEnv exAgent ''get_hardware_info'' args) (exArgs []) ''a'' ''sys.info'' exAdmin newService None) =
     Reply StatusOK (DataBody (JObj [(''hostname'', JStr ''h''), (''os'', JStr ''linux''), (''arch'', JNull),
       (''kernel'', JStr ''6.1''), (''uptime_sec'', JNum 60)]))"
proof -
  obtain spec where sp: "builtinSpecFor ''sys.info'' = Inr spec" using exSpecs by blast
  have m: "fst (bsMarshal spec []) = ''get_hardware_info''" using sp by (auto simp: builtinSpecFor_def action_names)
  let ?args = "snd (bsMarshal spec [])"
  have a: "answeredBy (exNode demoEnv exAgent ''get_hardware_info'' ?args) ''a'' demoEnv exAgent
      (fst (bsMarshal spec [])) (snd (bsMarshal spec []))"
    using exAnswered_by by (simp add: m)
  have "hsHost (aeHardware demoEnv) = Inr \<lparr>hoHostname = ''h'', hoOS = ''linux'', hoPlatform = ''debian'',
      hoPlatformVersion = ''12'', hoKernelVersion = ''6.1'', hoUptime = 60, hoBootTime = 1\<rparr>"
    by (simp add: demoEnv_def demoHardware_def)
  with sys_info_served [OF exAdmitted [OF sp action_names(5)] sp a, of None] show ?thesis by auto
qed

theorem http_refused_path_witness:
  "\<exists>args msg. fst (handleAction (exNode demoEnv exAgent ''read_file'' args) (exArgs [(''path'', JStr ''/proc/1'')]) ''a'' ''fs.read''
      exAdmin newService None) = writeError exAdmin 500 ''INTERNAL_ERROR'' msg [(''node_id'', JStr ''a'')]"
proof -
  let ?ps = "[(''path'', JStr ''/proc/1'')]"
  obtain spec where sp: "builtinSpecFor ''fs.read'' = Inr spec" using exSpecs by blast
  let ?args = "snd (bsMarshal spec ?ps)"
  have a: "answeredBy (exNode demoEnv exAgent ''read_file'' ?args) ''a'' demoEnv exAgent
      (fst (bsMarshal spec ?ps)) (snd (bsMarshal spec ?ps))"
    using exAnswered_by by (simp add: read_call(1) [OF sp])
  have p: "asString (jget ?ps ''path'') = ''/proc/1''" by (simp add: asString_def)
  have g: "currentGuard exAgent = newPathGuard [] [''/proc'']" "ovLinks (aeOs demoEnv) = Some"
    by (simp_all add: currentGuard_def exAgent_def demoEnv_def demoOS_def)
  have "guardCheck (newPathGuard [] [''/proc'']) Some ''/proc/1'' \<noteq> None" by code_simp
  then obtain e where e: "guardCheck (currentGuard exAgent) (ovLinks (aeOs demoEnv)) (asString (jget ?ps ''path'')) = Some e"
    unfolding g p by blast
  have f: "''fs.read'' \<in> set fileActions" by (simp add: fileActions_def)
  have t: "trimSpace ''a'' = ''a''" by code_simp
  let ?msg = "\<lambda>why. ''agent error [TOOL_ERROR]: fileops: path '' @ quoteStr ''/proc/1'' @ why"
  have w: "\<not> containsStr (?msg why) ''HOST_NOT_FOUND'' \<and> \<not> containsStr (?msg why) ''agent not found'' \<and>
      \<not> containsStr (toLower (?msg why)) ''denied'' \<and> \<not> containsStr (?msg why) ''exceeds limit''"
    if "why \<in> {'' is blocked'', '' is not in allowed paths''}" for why
    using that by (elim insertE emptyE; hypsubst) code_simp+
  from http_refused_path [OF exAdmitted [OF sp action_names(2)] f sp a e, of None]
  obtain msg why where m: "why \<in> {'' is blocked'', '' is not in allowed paths''}" "msg = ?msg why"
    and h: "fst (handleAction (exNode demoEnv exAgent ''read_file'' ?args) (exArgs ?ps) ''a'' ''fs.read'' exAdmin newService None) =
      (if containsStr msg ''HOST_NOT_FOUND'' \<or> containsStr msg ''agent not found''
       then writeError exAdmin 404 ''NODE_NOT_FOUND'' ''target node was not found'' [(''node_id'', JStr ''a'')]
       else if containsStr (toLower msg) ''denied'' \<or> containsStr msg ''exceeds limit''
       then writeError exAdmin 403 ''POLICY_DENIED'' msg [(''node_id'', JStr ''a'')]
       else writeError exAdmin 500 ''INTERNAL_ERROR'' msg [(''node_id'', JStr ''a'')])"
    unfolding p t Let_def by blast
  from w [OF m(1)] have "fst (handleAction (exNode demoEnv exAgent ''read_file'' ?args) (exArgs ?ps) ''a'' ''fs.read'' exAdmin
      newService None) = writeError exAdmin 500 ''INTERNAL_ERROR'' msg [(''node_id'', JStr ''a'')]"
    unfolding h m(2) by (simp only: if_False simp_thms)
  then show ?thesis by blast
qed


end
