(* ===== verification/CliProps.thy ===== *)
theory CliProps
  imports Cli HttpProps
begin

text \<open>
  What the command line client sends and prints, and what the center makes of the requests:
  \<open>received\<close> is the request that \<open>net/http\<close> presents to the handler of
  \<open>sysplane-center/httpapi\<close> when the client sends its URL to it.
\<close>

section \<open>What a command sends\<close>

text \<open>A request of the client, and the outcome of a command that sends at most \<open>n\<close> of them.\<close>

definition ownRequest :: "cliApp \<Rightarrow> cliRequest \<Rightarrow> bool" where
  "ownRequest a q \<longleftrightarrow> ckAuthorization q = ''Bearer '' @ apToken a \<and> prefix (apBaseURL a @ ''/v1/'') (ckURL q) \<and>
     prefix ''cli-'' (ckRequestId q) \<and> ckMethod q \<in> {''GET'', ''POST'', ''PATCH''} \<and>
     (ckMethod q = ''GET'' \<longrightarrow> ckBody q = None)"

definition accepted :: "cliEnv \<Rightarrow> cliRequest list \<Rightarrow> bool" where
  "accepted env tr \<longleftrightarrow> (\<exists>resp. cvAnswer env tr = Inr resp \<and> 200 \<le> csCode resp \<and> csCode resp < 300)"

definition sentBy :: "cliApp \<Rightarrow> nat \<Rightarrow> cliRequest list \<Rightarrow> cliRequest list \<Rightarrow> bool" where
  "sentBy a n tr tr' \<longleftrightarrow> (\<exists>new. tr' = tr @ new \<and> length new \<le> n \<and> (\<forall>q \<in> set new. ownRequest a q))"

definition ran :: "cliEnv \<Rightarrow> cliApp \<Rightarrow> nat \<Rightarrow> cliRequest list \<Rightarrow> cliResult \<Rightarrow> bool" where
  "ran env a n tr r \<longleftrightarrow> sentBy a n tr (snd r) \<and> (\<forall>v. fst r = Inr (Some v) \<longrightarrow> snd r \<noteq> tr \<and> accepted env (snd r))"

lemma sentBy_refl [simp]: "sentBy a n tr tr"
  by (simp add: sentBy_def)

lemma sentBy_trans: "sentBy a m tr tr1 \<Longrightarrow> sentBy a n tr1 tr2 \<Longrightarrow> sentBy a (m + n) tr tr2"
  unfolding sentBy_def by fastforce

lemma sentBy_mono: "sentBy a m tr tr1 \<Longrightarrow> m \<le> n \<Longrightarrow> sentBy a n tr tr1"
  unfolding sentBy_def by fastforce

lemma sentBy_grows: "sentBy a n tr tr1 \<Longrightarrow> length tr \<le> length tr1"
  unfolding sentBy_def by auto

lemma cliSend_sent:
  assumes "hasPrefix path ''/v1/''" "meth \<in> {''GET'', ''POST'', ''PATCH''}" "meth = ''GET'' \<longrightarrow> body = None"
  shows "sentBy a 1 tr (snd (cliSend env a meth path query body dec tr))"
  using assms unfolding sentBy_def cliSend_def Let_def
  by (auto simp: ownRequest_def hasPrefix_iff split: option.split)

lemma cliSend_ok:
  "cliSend env a meth path query body dec tr = (Inr x, tr') \<Longrightarrow> tr' \<noteq> tr \<and> accepted env tr'"
  unfolding cliSend_def Let_def accepted_def by (auto split: option.splits sum.splits if_splits)

lemma cliFetch_ran:
  assumes "hasPrefix path ''/v1/''" "meth \<in> {''GET'', ''POST'', ''PATCH''}" "meth = ''GET'' \<longrightarrow> body = None"
  shows "ran env a 1 tr (cliFetch env a meth path query body tr)"
  using cliSend_sent [OF assms, of a tr env query Inr] cliSend_ok [of env a meth path query body Inr tr]
  unfolding ran_def cliFetch_def by (auto split: prod.splits sum.splits)

lemma resolveTemplateRef_trace:
  "snd (resolveTemplateRef env a ref tr) =
   snd (cliSend env a ''GET'' ''/v1/command-templates'' [(''name'', ref), (''limit'', ''200'')] None
     (\<lambda>v. decodeStruct refPageField v \<lparr>pgItems = [], pgNextCursor = []\<rparr>) tr)"
  unfolding resolveTemplateRef_def by (simp split: prod.split sum.split option.split)

lemma resolveTemplateRef_sent: "sentBy a 1 tr (snd (resolveTemplateRef env a ref tr))"
  unfolding resolveTemplateRef_trace by (rule cliSend_sent) (simp_all add: hasPrefix_def)

lemma ran_error [simp]: "ran env a n tr (Inl e, tr)" "ran env a n tr (cliError msg tr)" "ran env a n tr (Inr None, tr)"
  by (simp_all add: ran_def cliError_def)

lemma ran_mono: "ran env a m tr r \<Longrightarrow> m \<le> n \<Longrightarrow> ran env a n tr r"
  unfolding ran_def using sentBy_mono by blast

lemma ran_after:
  assumes "sentBy a m tr tr1" "ran env a n tr1 r" shows "ran env a (m + n) tr r"
proof -
  have "sentBy a (m + n) tr (snd r)" using assms by (auto simp: ran_def intro: sentBy_trans)
  moreover have "snd r \<noteq> tr" if "snd r \<noteq> tr1"
    using assms that by (auto simp: ran_def sentBy_def)
  ultimately show ?thesis using assms(2) by (simp add: ran_def)
qed

lemma withFlags_ran: "(\<And>fs'. ran env a n tr (k fs' tr)) \<Longrightarrow> ran env a n tr (withFlags fs args k tr)"
  unfolding withFlags_def by (auto split: flagResult.split)

text \<open>One rule per construct of a command.\<close>

lemma ran_if: "ran env a n tr x \<Longrightarrow> ran env a n tr y \<Longrightarrow> ran env a n tr (if b then x else y)"
  by simp

lemma ran_case:
  "ran env a n tr x \<Longrightarrow> (\<And>y ys. ran env a n tr (f y ys)) \<Longrightarrow> ran env a n tr (case args of [] \<Rightarrow> x | y # ys \<Rightarrow> f y ys)"
  by (simp split: list.split)

lemma ran_result:
  "(\<And>e. ran env a n tr (f e)) \<Longrightarrow> (\<And>x. ran env a n tr (g x)) \<Longrightarrow>
   ran env a n tr (case res of Inl e \<Rightarrow> f e | Inr x \<Rightarrow> g x)"
  by (simp split: sum.split)

lemma ran_fetch:
  assumes "hasPrefix path ''/v1/''" "meth \<in> {''GET'', ''POST'', ''PATCH''}" "meth = ''GET'' \<longrightarrow> body = None"
  shows "ran env a 2 tr (cliFetch env a meth path query body tr)"
  by (rule ran_mono [OF cliFetch_ran [OF assms]]) simp

lemma ran_ref_then:
  assumes "ran env a 1 (snd (resolveTemplateRef env a ref tr)) r" shows "ran env a 2 tr r"
  using ran_after [OF resolveTemplateRef_sent assms] by (simp add: numeral_2_eq_2)

lemma ran_ref_fetch:
  assumes "hasPrefix path ''/v1/''" "meth \<in> {''GET'', ''POST'', ''PATCH''}" "meth = ''GET'' \<longrightarrow> body = None"
  shows "ran env a 2 tr (cliFetch env a meth path query body (snd (resolveTemplateRef env a ref tr)))"
  by (rule ran_ref_then) (rule cliFetch_ran [OF assms])

lemma sendTemplate_ran:
  assumes "hasPrefix path ''/v1/''" "meth \<in> {''POST'', ''PATCH''}"
  shows "ran env a 1 tr (sendTemplate env a meth path flags tr)"
  unfolding sendTemplate_def
  by (intro withFlags_ran ran_result ran_error cliFetch_ran) (use assms in auto)

lemma ran_send:
  "hasPrefix path ''/v1/'' \<Longrightarrow> meth \<in> {''POST'', ''PATCH''} \<Longrightarrow>
   ran env a 2 tr (sendTemplate env a meth path flags tr)"
  by (rule ran_mono [OF sendTemplate_ran]) auto

lemma ran_ref_send:
  "hasPrefix path ''/v1/'' \<Longrightarrow> meth \<in> {''POST'', ''PATCH''} \<Longrightarrow>
   ran env a 2 tr (sendTemplate env a meth path flags (snd (resolveTemplateRef env a ref tr)))"
  by (rule ran_ref_then) (rule sendTemplate_ran)

lemmas ran_rules = ran_if ran_case ran_result ran_error withFlags_ran ran_fetch ran_ref_fetch ran_send ran_ref_send

lemma runNodes_ran: "ran env a 2 tr (runNodes env a args tr)"
  unfolding runNodes_def by (intro ran_rules) (simp_all add: hasPrefix_def)

lemma runAudit_ran: "ran env a 2 tr (runAudit env a args tr)"
  unfolding runAudit_def by (intro ran_rules) (simp_all add: hasPrefix_def)

lemma runTemplates_ran: "ran env a 2 tr (runTemplates env a args tr)"
  unfolding runTemplates_def Let_def case_prod_beta by (intro ran_rules) (simp_all add: hasPrefix_def)

lemma resolveCommandAction_sent: "sentBy a 1 tr (snd (resolveCommandAction env a ref t tr))"
  unfolding resolveCommandAction_def Let_def case_prod_beta by (simp add: resolveTemplateRef_sent del: One_nat_def)

lemma invokeCommand_ran: "ran env a 2 tr (invokeCommand env a ref fs tr)"
proof (cases "resolveJSONObject env (flagStr fs ''params'') (flagStr fs ''params-file'')")
  case p: (Inr params)
  obtain res tr1 where rc: "resolveCommandAction env a ref (flagStr fs ''action-type'') tr = (res, tr1)" by fastforce
  have s1: "sentBy a 1 tr tr1" using resolveCommandAction_sent [of a tr env ref "flagStr fs ''action-type''"] rc by simp
  show ?thesis
  proof (cases res)
    case (Inl e)
    with p rc s1 show ?thesis by (auto simp: invokeCommand_def ran_def intro: sentBy_mono)
  next
    case (Inr act)
    let ?dec = "\<lambda>v. decodeStruct cliInvocationField v \<lparr>cinInvocation = None, cinResults = None\<rparr>"
    let ?body = "Some (invokePayload (fst act) (snd act) params fs)"
    obtain out tr2 where s: "cliSend env a ''POST'' ''/v1/invocations'' [] ?body ?dec tr1 = (out, tr2)" by fastforce
    have s2: "sentBy a 1 tr1 tr2"
      using cliSend_sent [of "''/v1/invocations''" "''POST''" ?body a tr1 env "[]" ?dec] s by (simp add: hasPrefix_def)
    have "invokeCommand env a ref fs tr = (case out of Inl e \<Rightarrow> (Inl e, tr2) | Inr x \<Rightarrow> (Inr (Some (cliInvocationJson x)), tr2))"
      using s by (cases act) (simp add: invokeCommand_def p rc Inr split: sum.split)
    moreover have "tr2 \<noteq> tr1 \<and> accepted env tr2" if "out = Inr x" for x
      by (rule cliSend_ok [OF s [unfolded that]])
    ultimately have "ran env a 1 tr1 (invokeCommand env a ref fs tr)"
      using s2 by (cases out) (auto simp: ran_def)
    from ran_after [OF s1 this] show ?thesis by (simp add: numeral_2_eq_2)
  qed
qed (simp add: invokeCommand_def)

lemma runCommands_ran: "ran env a 2 tr (runCommands env a args tr)"
  unfolding runCommands_def by (intro ran_rules invokeCommand_ran)

lemma createCommand_ran: "ran env a 2 tr (createCommand env a fs tr)"
  unfolding createCommand_def Let_def case_prod_beta if_distrib [of fst] if_distrib [of snd] fst_conv snd_conv
  by (cases "flagStr fs ''action-type'' = ''command_template''", simp_all only: if_True if_False simp_thms)
    (intro ran_rules; simp add: hasPrefix_def)+

lemma runInvocations_ran: "ran env a 2 tr (runInvocations env a args tr)"
  unfolding runInvocations_def by (intro ran_rules createCommand_ran) (simp_all add: hasPrefix_def)

lemmas command_ran = runNodes_ran runAudit_ran runTemplates_ran runCommands_ran runInvocations_ran

lemma runCommand_ran: "ran env a 2 tr (runCommand env a cmd args tr)"
  unfolding runCommand_def by (intro ran_if ran_error command_ran)

lemma cliRun_command:
  assumes "parseFlags (rootFlags env a) args = FlagsOk fs (cmd # cargs)" "flagStr fs ''token'' \<noteq> []"
  shows "cliRun env a args tr =
    runCommand env \<lparr>apBaseURL = trimRight slash (flagStr fs ''server''), apToken = flagStr fs ''token''\<rparr> cmd cargs tr"
  using assms by (simp add: cliRun_def)


section \<open>What the center receives\<close>

text \<open>
  The request of a client whose server URL is the root \<open>base\<close> of the API: the path as it is in the
  URL, the query parsed, the body as the JSON value sent.  The length of a body is at least one byte.
\<close>

definition received :: "string \<Rightarrow> cliRequest \<Rightarrow> apiRequest" where
  "received base q =
     (let rest = trimPrefix (ckURL q) base; path = takeWhile (\<lambda>c. c \<noteq> CHR ''?'') rest in
      \<lparr>rqMethod = ckMethod q, rqEscaped = path, rqQuery = parseQuery (drop (length path + 1) rest),
       rqAuthorization = ckAuthorization q, rqRequestIdHeader = ckRequestId q,
       rqContentLength = (if ckBody q = None then 0 else 1),
       rqBody = (case ckBody q of None \<Rightarrow> Inl (ErrText ''EOF'') | Some v \<Rightarrow> Inr v)\<rparr>)"

definition requestTo ::
  "cliEnv \<Rightarrow> cliApp \<Rightarrow> string \<Rightarrow> string \<Rightarrow> (string \<times> string) list \<Rightarrow> json option \<Rightarrow> cliRequest list \<Rightarrow> cliRequest" where
  "requestTo env a meth path query body tr =
     \<lparr>ckMethod = meth, ckURL = apBaseURL a @ path @ (if query \<noteq> [] then CHR ''?'' # encodeQuery query else []),
      ckAuthorization = ''Bearer '' @ apToken a, ckAccept = ''application/json'',
      ckRequestId = ''cli-'' @ cvUuid env (length tr),
      ckContentType = (if body \<noteq> None then ''application/json'' else []), ckBody = body\<rparr>"

lemma cliSend_trace:
  "(\<And>u. cvParseURL env u = None) \<Longrightarrow>
   snd (cliSend env a meth path query body dec tr) = tr @ [requestTo env a meth path query body tr]"
  by (simp add: cliSend_def requestTo_def Let_def)

lemma cliFetch_trace:
  "(\<And>u. cvParseURL env u = None) \<Longrightarrow>
   snd (cliFetch env a meth path query body tr) = tr @ [requestTo env a meth path query body tr]"
  using cliSend_trace [of env a meth path query body Inr tr]
  by (auto simp: cliFetch_def split: prod.split sum.split)

lemma received_requestTo:
  assumes "CHR ''?'' \<notin> set path"
  shows "received (apBaseURL a) (requestTo env a meth path query body tr) =
    \<lparr>rqMethod = meth, rqEscaped = path, rqQuery = sort_key fst query,
     rqAuthorization = ''Bearer '' @ apToken a, rqRequestIdHeader = ''cli-'' @ cvUuid env (length tr),
     rqContentLength = (if body = None then 0 else 1),
     rqBody = (case body of None \<Rightarrow> Inl (ErrText ''EOF'') | Some v \<Rightarrow> Inr v)\<rparr>"
proof -
  let ?tail = "if query \<noteq> [] then CHR ''?'' # encodeQuery query else []"
  have t: "trimPrefix (apBaseURL a @ r) (apBaseURL a) = r" for r by (simp add: trimPrefix_def hasPrefix_def)
  have w: "takeWhile (\<lambda>c. c \<noteq> CHR ''?'') (path @ ?tail) = path"
    using assms by (subst takeWhile_append2) auto
  have e: "parseQuery [] = []" by (simp add: parseQuery_def parsePair_def)
  then have p: "parseQuery (drop (length path + 1) (path @ ?tail)) = sort_key fst query"
    by (cases "query = []") (simp_all add: parseQuery_encodeQuery)
  show ?thesis by (simp add: received_def requestTo_def t w p e parseQuery_encodeQuery Let_def)
qed

lemma serveAPI_received:
  assumes "rqRequestIdHeader r \<noteq> []" "muxFind apiRoutes (rqMethod r) (rqEscaped r) (urlPath r) = MuxHandler ep"
  shows "serveAPI ev r s db =
    (rqRequestIdHeader r, requireHTTP ev r (allowedDomains ep) (endpointHandler ev r ep) s db)"
  using assms by (simp add: serveAPI_def withRequestID_def)

text \<open>A path whose segments are plain is clean.\<close>

definition plainSegment :: "string \<Rightarrow> bool" where
  "plainSegment s \<longleftrightarrow> s \<noteq> [] \<and> slash \<notin> set s \<and> s \<noteq> ''.'' \<and> s \<noteq> ''..''"

lemma okAcc_plain: "\<forall>c \<in> set acc. plainSegment c \<Longrightarrow> okAcc True acc"
  by (induction acc) (auto simp: plainSegment_def)

lemma cleanUrlPath_plain:
  assumes "\<forall>c \<in> set cs. plainSegment c" "cs \<noteq> []"
  shows "cleanUrlPath (slash # joinOn slash cs) = slash # joinOn slash cs"
proof -
  have s: "splitOn slash (joinOn slash cs) = cs"
    using assms by (intro splitOn_joinOn) (auto simp: plainSegment_def)
  have "foldl (cleanStep True) [] cs = rev cs"
    using okAcc_fixed [of True "rev cs"] okAcc_plain [of "rev cs"] assms(1) by simp
  then have "cleanComps True (slash # joinOn slash cs) = cs"
    by (simp add: cleanComps_def s)
  then have c: "clean (slash # joinOn slash cs) = slash # joinOn slash cs" by (simp add: clean_abs)
  moreover have "slash # joinOn slash cs \<noteq> ''/''"
  proof
    assume "slash # joinOn slash cs = ''/''"
    then have "joinOn slash cs = []" by simp
    with s have "cs = [[]]" by (metis splitOn.simps(1))
    with assms(1) show False by (simp add: plainSegment_def)
  qed
  ultimately have "\<not> hasSuffix (slash # joinOn slash cs) ''/''"
    by (intro clean_suffix_slash) simp_all
  moreover have "hasPrefix (slash # joinOn slash cs) ''/''" by (simp add: hasPrefix_def)
  ultimately show ?thesis using c by (simp add: cleanUrlPath_def)
qed

lemma urlSegments_plain:
  assumes "\<forall>c \<in> set cs. plainSegment c" "cs \<noteq> []"
  shows "urlSegments (slash # joinOn slash cs) = List.map (\<lambda>s. case pathUnescape s of Some t \<Rightarrow> t | None \<Rightarrow> s) cs"
proof -
  have "splitOn slash (joinOn slash cs) = cs"
    using assms by (intro splitOn_joinOn) (auto simp: plainSegment_def)
  then show ?thesis by (simp add: urlSegments_def)
qed

text \<open>Escaping a segment keeps it plain, so an id without a slash is one segment of the path.\<close>

lemma pathEscape_chars: "c \<in> set (pathEscape s) \<Longrightarrow> plainInSegment c \<or> c = CHR ''%''"
proof (induction s)
  case (Cons x s)
  have u: "d < 16 \<Longrightarrow> plainInSegment (upperHex d)" for d
    using upperHex_plain [of d] by (auto simp: plainInSegment_def plainInQuery_def)
  have "(of_char x :: nat) div 16 < 16" using of_char_less [of x] by (simp add: less_mult_imp_div_less)
  with Cons u show ?case by (auto split: if_splits)
qed simp

lemma pathEscape_no: "c \<in> {CHR ''?'', slash} \<Longrightarrow> c \<notin> set (pathEscape s)"
  by (auto dest!: pathEscape_chars simp: plainInSegment_def isDigit_def lowerChar_def)

lemma pathEscape_plain:
  assumes "s \<noteq> []" "s \<noteq> ''.''" "s \<noteq> ''..''"
  shows "plainSegment (pathEscape s)"
proof -
  have d: "pathUnescape (pathEscape s) = Some s" by (rule pathUnescape_pathEscape)
  have e: "pathUnescape [] = Some []" "pathUnescape ''.'' = Some ''.''" "pathUnescape ''..'' = Some ''..''"
    by simp_all
  have "pathEscape s \<noteq> []" "pathEscape s \<noteq> ''.''" "pathEscape s \<noteq> ''..''" using d e assms by force+
  then show ?thesis by (simp add: plainSegment_def pathEscape_no)
qed

lemma muxFind_clean:
  assumes "meth \<noteq> ''CONNECT''" "cleanUrlPath p = p" "muxMatch ps meth (urlSegments p) = Some m"
    and "\<And>m'. muxMatch ps meth (urlSegments p @ [[]]) = Some m' \<Longrightarrow> mpSubtree m' \<Longrightarrow> urlSegments p \<noteq> mpSegments m'"
  shows "muxFind ps meth p q = MuxHandler (mpHandler m)"
  using assms by (auto simp: muxFind_def Let_def split: option.splits)

lemma segment_path: "''/v1/nodes/'' @ s = slash # joinOn slash [''v1'', ''nodes'', s]"
  by simp

lemma plain_words: "plainSegment ''v1''" "plainSegment ''nodes''" "pathUnescape ''v1'' = Some ''v1''"
  "pathUnescape ''nodes'' = Some ''nodes''"
  by (simp_all add: plainSegment_def)

lemma node_route:
  assumes "node \<noteq> []" "node \<noteq> ''.''" "node \<noteq> ''..''"
  shows "muxFind apiRoutes ''GET'' (''/v1/nodes/'' @ pathEscape node) q = MuxHandler EpNodeRoutes"
proof -
  let ?cs = "[''v1'', ''nodes'', pathEscape node]"
  let ?m = "route None [''v1'', ''nodes''] True EpNodeRoutes"
  have cs: "\<forall>c \<in> set ?cs. plainSegment c" "?cs \<noteq> []" using pathEscape_plain [OF assms] plain_words by auto
  have segs: "urlSegments (slash # joinOn slash ?cs) = [''v1'', ''nodes'', node]"
    unfolding urlSegments_plain [OF cs] using plain_words by (simp add: pathUnescape_pathEscape)
  have m: "muxMatch apiRoutes ''GET'' [''v1'', ''nodes'', node] = Some ?m"
    "muxMatch apiRoutes ''GET'' ([''v1'', ''nodes'', node] @ [[]]) = Some ?m"
    using assms by (simp_all add: muxMatch_def apiRoutes_def matchPath_def)
  show ?thesis
    unfolding segment_path using m
    by (subst muxFind_clean [where m = ?m]) (simp_all only: segs cleanUrlPath_plain [OF cs], auto)
qed

lemma urlPath_escaped: "CHR ''%'' \<notin> set p \<Longrightarrow> pathUnescape (p @ pathEscape s) = Some (p @ s)"
  by (induction p) (auto simp: pathUnescape_pathEscape)

lemma hasSuffix_slash: "slash \<notin> set s \<Longrightarrow> s \<noteq> [] \<Longrightarrow> \<not> hasSuffix s ''/''"
  by (cases s rule: rev_cases) (auto simp: hasSuffix_def hasPrefix_def)

text \<open>
  The node that \<open>nodes get\<close> asks for.  For an id of one path segment the center's handler of
  one node runs, but on the id with its percent sequences decoded once more than the client
  encoded it; an id whose percent signs are no such sequences is refused.
\<close>

theorem cli_node_get:
  assumes net: "\<And>u. cvParseURL env u = None" and segment: "node \<noteq> []" "slash \<notin> set node" "node \<noteq> ''.''" "node \<noteq> ''..''"
  shows "\<exists>q. snd (runNodes env a [''get'', node] tr) = tr @ [q] \<and>
    serveAPI ev (received (apBaseURL a) q) s db =
      (ckRequestId q, requireHTTP ev (received (apBaseURL a) q) [DomainClient, DomainAdmin]
        (\<lambda>meta s db. case pathUnescape node of
            None \<Rightarrow> answer (badArgument meta ''invalid node id'' [(''field'', JStr ''node_id'')]) s db
          | Some n \<Rightarrow> handleGetNode ev n meta s db) s db)"
proof -
  let ?path = "''/v1/nodes/'' @ pathEscape node"
  let ?q = "requestTo env a ''GET'' ?path [] None tr"
  have c: "snd (runNodes env a [''get'', node] tr) = tr @ [?q]"
    using cliFetch_trace [OF net] by (simp add: runNodes_def)
  define r where "r = received (apBaseURL a) ?q"
  have "CHR ''?'' \<notin> set ?path" using pathEscape_no by simp
  from received_requestTo [OF this, of a env "''GET''" "[]" None tr]
  have r: "rqMethod r = ''GET''" "rqEscaped r = ?path" "rqRequestIdHeader r = ckRequestId ?q" "ckRequestId ?q \<noteq> []"
    by (simp_all add: r_def requestTo_def)
  have "urlPath r = ''/v1/nodes/'' @ node"
    using urlPath_escaped [of "''/v1/nodes/''" node] by (simp add: urlPath_def r)
  then have sub: "subPath r ''/v1/nodes/'' = node"
    using hasSuffix_slash [of node] segment by (simp add: subPath_def trimPrefix_def hasPrefix_def trimSuffix_def)
  have ne: "pathUnescape node \<noteq> Some []"
    using segment by (cases node) (auto split: list.splits option.splits if_splits)
  have "endpointHandler ev r EpNodeRoutes = (\<lambda>meta s db. case pathUnescape node of
            None \<Rightarrow> answer (badArgument meta ''invalid node id'' [(''field'', JStr ''node_id'')]) s db
          | Some n \<Rightarrow> handleGetNode ev n meta s db)"
    using segment ne by (auto simp: handleNodeRoutes_def sub splitOn_no_sep r Let_def fun_eq_iff split: option.split)
  moreover have "muxFind apiRoutes (rqMethod r) (rqEscaped r) (urlPath r) = MuxHandler EpNodeRoutes"
    using node_route segment by (simp add: r)
  ultimately have "serveAPI ev r s db = (ckRequestId ?q, requireHTTP ev r [DomainClient, DomainAdmin]
        (\<lambda>meta s db. case pathUnescape node of
            None \<Rightarrow> answer (badArgument meta ''invalid node id'' [(''field'', JStr ''node_id'')]) s db
          | Some n \<Rightarrow> handleGetNode ev n meta s db) s db)"
    using serveAPI_received [of r EpNodeRoutes ev s db] r(3,4) by simp
  with c show ?thesis unfolding r_def by blast
qed

section \<open>Listing\<close>

lemma map_of_sorted: "wfMap q \<Longrightarrow> map_of (sort_key fst q) = map_of q"
  by (rule map_of_inject_set [THEN iffD2]) (auto simp: distinct_map intro: inj_on_subset)

definition queryValue :: "(string \<times> string) list \<Rightarrow> string \<Rightarrow> string" where
  "queryValue q k = (case map_of q k of Some v \<Rightarrow> v | None \<Rightarrow> [])"

lemma queryValue_queryOf:
  assumes "wfMap q"
  shows "queryValue (sort_key fst (queryOf q)) k = queryValue q k"
proof -
  have "wfMap (queryOf q)" using assms unfolding queryOf_def by (rule wfMap_filter)
  then have "map_of (sort_key fst (queryOf q)) k = map_of (queryOf q) k" by (simp add: map_of_sorted)
  also have "\<dots> = (case map_of q k of None \<Rightarrow> None | Some v \<Rightarrow> if v \<noteq> [] then Some v else None)"
    unfolding queryOf_def using assms by (rule map_of_filter_some)
  finally show ?thesis by (simp add: queryValue_def split: option.split)
qed

lemma atoi_showNat: "isInt64 (int n) \<Longrightarrow> atoi (showNat n) = Some (int n)"
proof -
  assume n: "isInt64 (int n)"
  have ne: "showNat n \<noteq> []" by (subst showNat.simps) simp
  then have h: "isDigit (hd (showNat n))" by (rule showNat_digits [OF hd_in_set])
  have "\<not> hasPrefix (showNat n) ''-''" "\<not> hasPrefix (showNat n) ''+''"
    using ne h by (cases "showNat n"; auto simp: hasPrefix_def isDigit_def)+
  moreover have "list_all isDigit (showNat n)" using showNat_digits by (auto simp: list_all_iff)
  ultimately show ?thesis using n ne by (simp add: atoi_def)
qed

lemma parseInt0_int64: "parseInt0 s = Inr n \<Longrightarrow> isInt64 n"
  by (auto simp: parseInt0_def Let_def split: if_splits sum.splits prod.splits)

definition intFlags :: "flagSet \<Rightarrow> bool" where
  "intFlags fs \<longleftrightarrow> (\<forall>k n. map_of fs k = Some (FInt n) \<longrightarrow> isInt64 n)"

lemma parseOne_int64: "parseOne fs s rest = FlagSet fs' rest' \<Longrightarrow> intFlags fs \<Longrightarrow> intFlags fs'"
proof -
  assume p: "parseOne fs s rest = FlagSet fs' rest'" and i: "intFlags fs"
  have "isInt64 n" if "setFlag old v = Inr (FInt n)" for old v n
    using that by (cases old) (auto dest: parseInt0_int64 simp: map_sum_def split: sum.splits)
  with p i show ?thesis
    by (auto simp: parseOne_def assignFlag_def Let_def intFlags_def split: if_splits option.splits sum.splits prod.splits)
qed

lemma parseFlags_int64: "parseFlags fs args = FlagsOk fs' rest \<Longrightarrow> intFlags fs \<Longrightarrow> intFlags fs'"
  by (induction fs args rule: parseFlags.induct) (auto split: flagStep.splits dest: parseOne_int64)

lemma flagInt_int64: "intFlags fs \<Longrightarrow> isInt64 (flagInt fs k)"
  by (auto simp: flagInt_def intFlags_def isInt64_def split: option.split flagVal.split)

lemma listFlags_int64: "parseFlags (listFlags names) args = FlagsOk fs rest \<Longrightarrow> isInt64 (flagInt fs k)"
proof -
  assume "parseFlags (listFlags names) args = FlagsOk fs rest"
  moreover have "intFlags (listFlags names)"
    by (auto simp: listFlags_def intFlags_def isInt64_def dest!: map_of_SomeD split: if_splits)
  ultimately show ?thesis using parseFlags_int64 flagInt_int64 by blast
qed

text \<open>The limit that the center reads from the limit of the client.\<close>

lemma parse_limit:
  assumes "isInt64 (flagInt fs ''limit'')" "queryGet r ''limit'' = limitParam fs"
  shows "parsePositiveIntQuery r ''limit'' 50 200 =
    Some (if flagInt fs ''limit'' > 0 then min (flagInt fs ''limit'') 200 else 50)"
proof -
  have "showNat n \<noteq> []" for n by (subst showNat.simps) simp
  then show ?thesis
    using assms atoi_showNat [of "nat (flagInt fs ''limit'')"]
    by (auto simp: parsePositiveIntQuery_def limitParam_def showInt_def Let_def)
qed

text \<open>
  Property C31: \<open>nodes list\<close> shows the nodes that its flags select.  The center answers with the page of the
  agents of the given hostname and status after the given cursor; a limit that is not positive
  becomes 50 and one above 200 becomes 200.  An argument after the flags is ignored.
\<close>

theorem cli_node_list:
  assumes net: "\<And>u. cvParseURL env u = None"
    and flags: "parseFlags (listFlags [''cursor'', ''hostname'', ''status'']) args = FlagsOk fs ignored"
  shows "\<exists>q. snd (runNodes env a (''list'' # args) tr) = tr @ [q] \<and>
    serveAPI ev (received (apBaseURL a) q) s db =
      (ckRequestId q, requireHTTP ev (received (apBaseURL a) q) [DomainClient, DomainAdmin]
        (\<lambda>meta s db. answer (Reply StatusOK (NodesBody (pageOf
            (listedNodes (sdReg (avDeps ev)) (flagStr fs ''hostname'') (flagStr fs ''status'')) (flagStr fs ''cursor'')
            (if flagInt fs ''limit'' > 0 then min (flagInt fs ''limit'') 200 else 50) nrId))) s db) s db)"
proof -
  let ?kvs = "[(''limit'', limitParam fs), (''cursor'', flagStr fs ''cursor''), (''hostname'', flagStr fs ''hostname''),
    (''status'', flagStr fs ''status'')]"
  let ?q = "requestTo env a ''GET'' ''/v1/nodes'' (queryOf ?kvs) None tr"
  have c: "snd (runNodes env a (''list'' # args) tr) = tr @ [?q]"
    using cliFetch_trace [OF net] by (simp add: runNodes_def withFlags_def flags)
  define r where "r = received (apBaseURL a) ?q"
  have "CHR ''?'' \<notin> set ''/v1/nodes''" by simp
  from received_requestTo [OF this, of a env "''GET''" "queryOf ?kvs" None tr]
  have r: "rqMethod r = ''GET''" "rqEscaped r = ''/v1/nodes''" "rqRequestIdHeader r = ckRequestId ?q" "ckRequestId ?q \<noteq> []"
    and q: "rqQuery r = sort_key fst (queryOf ?kvs)"
    by (simp_all add: r_def requestTo_def)
  have "queryGet r k = queryValue ?kvs k" for k
    using queryValue_queryOf [of ?kvs k] by (simp add: queryGet_def queryValue_def q)
  then have g: "queryGet r ''limit'' = limitParam fs" "queryGet r ''cursor'' = flagStr fs ''cursor''"
    "queryGet r ''hostname'' = flagStr fs ''hostname''" "queryGet r ''status'' = flagStr fs ''status''"
    "queryGet r ''label_selector'' = []"
    by (simp_all add: queryValue_def)
  have "muxFind apiRoutes ''GET'' ''/v1/nodes'' ''/v1/nodes'' = MuxHandler EpListNodes" by code_simp
  moreover have "urlPath r = ''/v1/nodes''" by (simp add: urlPath_def r)
  ultimately have "muxFind apiRoutes (rqMethod r) (rqEscaped r) (urlPath r) = MuxHandler EpListNodes" by (simp add: r)
  then have sv: "serveAPI ev r s db = (ckRequestId ?q, requireHTTP ev r [DomainClient, DomainAdmin]
      (endpointHandler ev r EpListNodes) s db)"
    using serveAPI_received [of r EpListNodes ev s db] r(3,4) by simp
  have "endpointHandler ev r EpListNodes = (\<lambda>meta s db. answer (Reply StatusOK (NodesBody (pageOf
            (listedNodes (sdReg (avDeps ev)) (flagStr fs ''hostname'') (flagStr fs ''status'')) (flagStr fs ''cursor'')
            (if flagInt fs ''limit'' > 0 then min (flagInt fs ''limit'') 200 else 50) nrId))) s db)"
    by (simp add: handleListNodes_def fun_eq_iff g parse_limit [OF listFlags_int64 [OF flags] g(1)])
  with c sv show ?thesis unfolding r_def by auto
qed

section \<open>Invoking\<close>

declare foldName.simps [simp del]

lemma decodeStrs_strings [simp]:
  "those (List.map (decodeStr \<circ> JStr) xs) = Some xs" "decodeStrs (JArr (List.map JStr xs)) = Some xs"
  by (induction xs) simp_all

text \<open>The name of a builtin action is normalized already.\<close>

lemma builtin_words:
  "normalizeActionName ''fs.list'' = ''fs.list''" "normalizeActionName ''fs.read'' = ''fs.read''"
  "normalizeActionName ''fs.stat'' = ''fs.stat''" "normalizeActionName ''fs.write'' = ''fs.write''"
  "normalizeActionName ''sys.info'' = ''sys.info''" "normalizeActionName ''sys.hardware'' = ''sys.hardware''"
  by code_simp+

lemma isBuiltinAction_normalized: "isBuiltinAction ref \<Longrightarrow> isBuiltinAction (normalizeActionName ref)"
  using builtin_words unfolding isBuiltinAction_def by (elim insertE emptyE) simp_all

lemma foldName_words [simp]:
  "foldName ''action'' = ''action''" "foldName ''action_type'' = ''action_type''" "foldName ''async'' = ''async''"
  "foldName ''params'' = ''params''" "foldName ''targets'' = ''targets''" "foldName ''node_ids'' = ''node_ids''"
  "foldName ''timeout_sec'' = ''timeout_sec''" "foldName ''invocation'' = ''invocation''" "foldName ''results'' = ''results''"
  "foldName ''data'' = ''data''" "foldName ''error'' = ''error''"
  by code_simp+

text \<open>The request that the payload stands for.\<close>

definition invokeRequest :: "string \<Rightarrow> string \<Rightarrow> jobj \<Rightarrow> flagSet \<Rightarrow> createInvocationRequest" where
  "invokeRequest action actionType params fs =
     \<lparr>cqAction = action, cqActionType = actionType,
      cqNodeIds = targetNodeList (flagStr fs ''node'') (flagStr fs ''nodes''), cqParams = JObj params,
      cqTimeoutSec = max 0 (flagInt fs ''timeout''), cqAsync = flagBool fs ''async''\<rparr>"

lemma decode_payload:
  assumes "isInt64 (flagInt fs ''timeout'')"
  shows "decodeStruct invocationField (invokePayload action actionType params fs) noInvocation =
    Inr (invokeRequest action actionType params fs)"
  using assms
  by (simp add: decodeStruct_def invokePayload_def invocationField_def targetsField_def setField_def setNilable_def
      noInvocation_def invokeRequest_def floatToInt64_of_int Let_def)

lemma invokeFlags_int64:
  assumes "parseFlags (fs0 @ invokeFlags) args = FlagsOk fs rest" "\<forall>(k, v) \<in> set fs0. \<exists>s. v = FStr s"
  shows "isInt64 (flagInt fs k)"
proof -
  have "intFlags (fs0 @ invokeFlags)"
    using assms(2) by (auto simp: intFlags_def invokeFlags_def isInt64_def dest!: map_of_SomeD split: if_splits)
  with assms(1) show ?thesis using parseFlags_int64 flagInt_int64 by blast
qed

lemma invokeCommand_trace:
  assumes "\<And>u. cvParseURL env u = None"
    and "resolveJSONObject env (flagStr fs ''params'') (flagStr fs ''params-file'') = Inr params"
    and "resolveCommandAction env a ref (flagStr fs ''action-type'') tr = (Inr (action, actionType), tr1)"
  shows "snd (invokeCommand env a ref fs tr) =
    tr1 @ [requestTo env a ''POST'' ''/v1/invocations'' [] (Some (invokePayload action actionType params fs)) tr1]"
  using assms cliSend_trace [of env a "''POST''" "''/v1/invocations''" "[]"
      "Some (invokePayload action actionType params fs)"
      "\<lambda>v. decodeStruct cliInvocationField v \<lparr>cinInvocation = None, cinResults = None\<rparr>" tr1]
  by (auto simp: invokeCommand_def split: prod.split sum.split)

text \<open>
  Property C15: a command line is the invocation that it says.  For \<open>commands invoke\<close> with well
  formed flags, once the action is resolved, the center receives one request and creates from it
  the invocation of that action on exactly the nodes of --node and --nodes, with the parameters of
  --params as they are, the time limit of --timeout where it is positive, and the mode of --async.
\<close>

theorem cli_invoke_created:
  assumes net: "\<And>u. cvParseURL env u = None"
    and flags: "parseFlags ((''action-type'', FStr ''auto'') # invokeFlags) args = FlagsOk fs ignored"
    and params: "resolveJSONObject env (flagStr fs ''params'') (flagStr fs ''params-file'') = Inr params"
    and action: "resolveCommandAction env a ref (flagStr fs ''action-type'') tr = (Inr (action, actionType), tr1)"
  shows "\<exists>q. snd (runCommands env a (''invoke'' # ref # args) tr) = tr1 @ [q] \<and>
    serveAPI ev (received (apBaseURL a) q) s db =
      (ckRequestId q, requireHTTP ev (received (apBaseURL a) q) [DomainClient, DomainAdmin]
        (\<lambda>meta s db.
           let req = \<lparr>cqAction = action, cqActionType = actionType,
                 cqNodeIds = targetNodeList (flagStr fs ''node'') (flagStr fs ''nodes''), cqParams = JObj params,
                 cqTimeoutSec = max 0 (flagInt fs ''timeout''), cqAsync = flagBool fs ''async''\<rparr>;
               (res, s', msgs, db') = createInvocation (avDeps ev) (avFresh ev) meta req
                 (avOrder ev (dedupe (cqNodeIds req))) (avCtxErr ev) (avStarted ev) (avFinished ev) s db
           in (invokedReply res meta, s', msgs, db')) s db)"
proof -
  let ?body = "Some (invokePayload action actionType params fs)"
  let ?q = "requestTo env a ''POST'' ''/v1/invocations'' [] ?body tr1"
  have c: "snd (runCommands env a (''invoke'' # ref # args) tr) = tr1 @ [?q]"
    using invokeCommand_trace [OF net params action] by (simp add: runCommands_def withFlags_def flags)
  define r where "r = received (apBaseURL a) ?q"
  have "CHR ''?'' \<notin> set ''/v1/invocations''" by simp
  from received_requestTo [OF this, of a env "''POST''" "[]" ?body tr1]
  have r: "rqMethod r = ''POST''" "rqEscaped r = ''/v1/invocations''" "rqRequestIdHeader r = ckRequestId ?q"
    "ckRequestId ?q \<noteq> []" "rqBody r = Inr (invokePayload action actionType params fs)"
    by (simp_all add: r_def requestTo_def)
  have i: "isInt64 (flagInt fs ''timeout'')"
    by (rule invokeFlags_int64 [of "[(''action-type'', FStr ''auto'')]" args fs ignored]) (simp_all add: flags)
  have d: "decodeJSONBody invocationField noInvocation r = Inr (invokeRequest action actionType params fs)"
    by (simp add: decodeJSONBody_def r decode_payload [OF i])
  have "muxFind apiRoutes ''POST'' ''/v1/invocations'' ''/v1/invocations'' = MuxHandler EpCreateInvocation" by code_simp
  moreover have "urlPath r = ''/v1/invocations''" by (simp add: urlPath_def r)
  ultimately have "muxFind apiRoutes (rqMethod r) (rqEscaped r) (urlPath r) = MuxHandler EpCreateInvocation"
    by (simp add: r)
  then have sv: "serveAPI ev r s db = (ckRequestId ?q, requireHTTP ev r [DomainClient, DomainAdmin]
      (endpointHandler ev r EpCreateInvocation) s db)"
    using serveAPI_received [of r EpCreateInvocation ev s db] r(3,4) by simp
  have "endpointHandler ev r EpCreateInvocation = (\<lambda>meta s db.
           let req = invokeRequest action actionType params fs;
               (res, s', msgs, db') = createInvocation (avDeps ev) (avFresh ev) meta req
                 (avOrder ev (dedupe (cqNodeIds req))) (avCtxErr ev) (avStarted ev) (avFinished ev) s db
           in (invokedReply res meta, s', msgs, db'))"
    by (simp add: handleCreateInvocation_def runInvocation_def d fun_eq_iff Let_def)
  with c sv show ?thesis unfolding r_def invokeRequest_def by auto
qed

text \<open>
  \<open>--params-file\<close> cannot be used alone.  The default of \<open>--params\<close> is \<open>{}\<close>, which counts
  as inline JSON, so a file is refused before it is read and before anything is sent.
\<close>

theorem cli_params_file_refused:
  "file \<noteq> [] \<Longrightarrow>
   runCommands env a [''invoke'', ref, ''--params-file'', file] tr =
     (Inl (ErrText ''use either inline JSON or --file/--params-file''), tr)"
proof -
  assume f: "file \<noteq> []"
  have "parseFlags ((''action-type'', FStr ''auto'') # invokeFlags) [''--params-file'', file] =
      FlagsOk [(''action-type'', FStr ''auto''), (''node'', FStr []), (''nodes'', FStr []), (''params'', FStr ''{}''),
        (''params-file'', FStr file), (''timeout'', FInt 0), (''async'', FBool False)] []"
    by (simp add: parseOne_def assignFlag_def invokeFlags_def)
  with f show ?thesis
    by (simp add: runCommands_def withFlags_def invokeCommand_def resolveJSONObject_def readTextSource_def flagStr_def)
qed

text \<open>
  The answer to an invocation as the server encodes it, by the json tags of \<open>InvocationResult\<close> and
  \<open>InvocationError\<close>; \<open>showTime\<close> is the encoding of a time.
\<close>

definition invocationErrorJson :: "invocationError option \<Rightarrow> json" where
  "invocationErrorJson err =
     (case err of
        None \<Rightarrow> JNull
      | Some e \<Rightarrow> JObj ([(''code'', JStr (ieCode e)), (''message'', JStr (ieMessage e))] @
          (if ieDetails e = [] then [] else [(''details'', JObj (ieDetails e))])))"

definition invocationResultJson :: "(int \<Rightarrow> string) \<Rightarrow> invocationResult \<Rightarrow> json" where
  "invocationResultJson showTime r = JObj
     [(''node_id'', JStr (irNodeId r)), (''hostname'', JStr (irHostname r)), (''status'', JStr (irStatus r)),
      (''started_at'', JStr (showTime (irStartedAt r))), (''finished_at'', JStr (showTime (irFinishedAt r))),
      (''data'', irData r), (''error'', invocationErrorJson (irError r))]"

definition invocationAnswer :: "(int \<Rightarrow> string) \<Rightarrow> json \<Rightarrow> invocationResult list \<Rightarrow> cliResponse" where
  "invocationAnswer showTime iv rs = \<lparr>csCode = 200, csStatus = ''200 OK'',
     csBody = Inr (JObj [(''invocation'', iv), (''results'', JArr (List.map (invocationResultJson showTime) rs))]),
     csRest = []\<rparr>"

lemma foldName_skipped:
  "foldName ''node_id'' = ''node_id''" "foldName ''hostname'' = ''hostname''" "foldName ''status'' = ''status''"
  "foldName ''started_at'' = ''started_at''" "foldName ''finished_at'' = ''finished_at''"
  by code_simp+

lemma decode_result:
  "decodeStruct resultItemField (invocationResultJson showTime r) x =
     (case decodeMapOrNil (irData r) of
        None \<Rightarrow> Inl (unmarshalError ''value into field data'')
      | Some m \<Rightarrow> Inr (x\<lparr>cirData := m, cirError := invocationErrorJson (irError r)\<rparr>))"
  by (simp add: decodeStruct_def invocationResultJson_def resultItemField_def foldName_skipped setNilable_def Let_def
      split: option.split)

lemma decodeEach_cong: "List.map dec vs = List.map dec vs' \<Longrightarrow> decodeEach dec vs = decodeEach dec vs'"
proof (induction vs arbitrary: vs')
  case (Cons v vs)
  then obtain u us where "vs' = u # us" "dec u = dec v" "List.map dec vs = List.map dec us" by auto
  with Cons.IH [of us] show ?case by (simp split: sum.split)
qed simp

lemma decodeEach_error: "v \<in> set vs \<Longrightarrow> dec v = Inl e \<Longrightarrow> \<exists>e'. decodeEach dec vs = Inl e'"
  by (induction vs) (auto split: sum.split)

lemma decodeEach_results:
  assumes "List.map (\<lambda>r. (irData r, irError r)) rs = List.map (\<lambda>r. (irData r, irError r)) rs'"
  shows "decodeEach (\<lambda>i. decodeStruct resultItemField i x) (List.map (invocationResultJson showTime) rs) =
    decodeEach (\<lambda>i. decodeStruct resultItemField i x) (List.map (invocationResultJson showTime) rs')"
proof -
  let ?d = "\<lambda>(d, e). case decodeMapOrNil d of
      None \<Rightarrow> Inl (unmarshalError ''value into field data'')
    | Some m \<Rightarrow> Inr (x\<lparr>cirData := m, cirError := invocationErrorJson e\<rparr>)"
  have m: "List.map (\<lambda>i. decodeStruct resultItemField i x) (List.map (invocationResultJson showTime) ys) =
      List.map ?d (List.map (\<lambda>r. (irData r, irError r)) ys)" for ys
    by (simp add: decode_result)
  show ?thesis by (rule decodeEach_cong) (simp only: m assms)
qed

lemma decodeMapOrNil_None: "jAsObj d = None \<Longrightarrow> d \<noteq> JNull \<Longrightarrow> decodeMapOrNil d = None"
  by (cases d) (simp_all add: decodeMapOrNil_def)

definition decodedAnswer :: "json \<Rightarrow> goerr + cliInvocation" where
  "decodedAnswer v = decodeStruct cliInvocationField v \<lparr>cinInvocation = None, cinResults = None\<rparr>"

lemma decodedAnswer_results:
  "decodedAnswer (JObj [(''invocation'', iv), (''results'', JArr vs)]) =
     (case decodeMapOrNil iv of
        None \<Rightarrow> Inl (unmarshalError ''value into field invocation'')
      | Some m \<Rightarrow>
          (case decodeEach (\<lambda>i. decodeStruct resultItemField i \<lparr>cirData = None, cirError = JNull\<rparr>) vs of
             Inl e \<Rightarrow> Inl e
           | Inr xs \<Rightarrow> Inr \<lparr>cinInvocation = m, cinResults = Some xs\<rparr>))"
  by (simp add: decodedAnswer_def decodeStruct_def cliInvocationField_def setNilable_def decodeSlice_def Let_def
      split: option.split sum.split)

lemma fst_invokeCommand:
  assumes "isBuiltinAction ref" "flagStr fs ''action-type'' = ''auto''" "\<And>sent. cvAnswer env sent = Inr (invocationAnswer showTime iv rs)"
  shows "fst (invokeCommand env a ref fs tr) =
    (case resolveJSONObject env (flagStr fs ''params'') (flagStr fs ''params-file'') of
       Inl e \<Rightarrow> Inl e
     | Inr params \<Rightarrow>
         (case cvParseURL env (apBaseURL a @ ''/v1/invocations'') of
            Some e \<Rightarrow> Inl e
          | None \<Rightarrow> map_sum id (\<lambda>x. Some (cliInvocationJson x))
              (decodedAnswer (JObj [(''invocation'', iv), (''results'', JArr (List.map (invocationResultJson showTime) rs))]))))"
proof -
  have "isBuiltinAction (normalizeActionName ref)"
    using assms(1) by (rule isBuiltinAction_normalized)
  with assms(2,3) show ?thesis
    by (simp add: invokeCommand_def resolveCommandAction_def cliSend_def invocationAnswer_def decodedAnswer_def Let_def
        map_sum_def split: sum.split option.split)
qed

lemma same_outside:
  "resolveJSONObject (env\<lparr>cvAnswer := f\<rparr>) data file = resolveJSONObject env data file"
  "cvParseURL (env\<lparr>cvAnswer := f\<rparr>) = cvParseURL env"
  by (simp_all add: resolveJSONObject_def readTextSource_def split: sum.split)



section \<open>Examples\<close>

definition exApp :: cliApp where
  "exApp = \<lparr>apBaseURL = ''http://c'', apToken = ''c1''\<rparr>"

definition exCli :: cliEnv where
  "exCli = \<lparr>cvGetenv = (\<lambda>k. if k = ''SYSPLANE_TOKEN'' then ''c1'' else []),
     cvReadFile = (\<lambda>_. Inl (ErrText ''no file'')), cvUnmarshal = (\<lambda>_. Inr (JObj [])), cvParseURL = (\<lambda>_. None),
     cvUuid = (\<lambda>_. ''u''), cvAnswer = (\<lambda>_. Inr \<lparr>csCode = 200, csStatus = ''200 OK'', csBody = Inr (JObj []), csRest = []\<rparr>)\<rparr>"

lemma exCli_net: "cvParseURL exCli u = None"
  by (simp add: exCli_def)

lemma exCli_prints: "fst (cliRun exCli newApp [''nodes'', ''get'', ''n1''] []) = Inr (Some (JObj []))"
  by code_simp


lemma exApp_auth:
  assumes "newCatalog (\<lambda>s. s) [''c1''] [''a1''] [''g1''] [''p1''] = Inr c"
  shows "requireHTTP (exApi c) (received ''http://c'' (requestTo env exApp m p qs b tr)) [DomainClient, DomainAdmin] h s db =
    h (requestMetaFor (''cli-'' @ cvUuid env (length tr)) (identityFor (\<lambda>s. s) DomainClient 0 ''c1'')) s db"
  using exAuth [OF assms]
  by (simp add: requireHTTP_def received_def requestTo_def exApi_def exApp_def withRequestID_def Let_def)

theorem cli_node_get_witness:
  "\<exists>c q rid. newCatalog (\<lambda>s. s) [''c1''] [''a1''] [''g1''] [''p1''] = Inr c \<and>
     snd (runNodes exCli exApp [''get'', ''50%''] []) = [q] \<and>
     fst (snd (serveAPI (exApi c) (received ''http://c'' q) newService None)) =
       badArgument \<lparr>rmRequestId = rid, rmSource = ''api'', rmIdentity = identityFor (\<lambda>s. s) DomainClient 0 ''c1''\<rparr>
         ''invalid node id'' [(''field'', JStr ''node_id'')]"
proof -
  obtain c where c: "newCatalog (\<lambda>s. s) [''c1''] [''a1''] [''g1''] [''p1''] = Inr c" using exampleCatalog by blast
  have n: "''50%'' \<noteq> []" "slash \<notin> set ''50%''" "''50%'' \<noteq> ''.''" "''50%'' \<noteq> ''..''" by simp_all
  have u: "pathUnescape ''50%'' = None" by code_simp
  have b: "apBaseURL exApp = ''http://c''" by (simp add: exApp_def)
  obtain q where q: "snd (runNodes exCli exApp [''get'', ''50%''] []) = [q]"
    and s: "serveAPI (exApi c) (received ''http://c'' q) newService None =
      (ckRequestId q, requireHTTP (exApi c) (received ''http://c'' q) [DomainClient, DomainAdmin]
        (\<lambda>meta s db. answer (badArgument meta ''invalid node id'' [(''field'', JStr ''node_id'')]) s db) newService None)"
    using cli_node_get [OF exCli_net n, of exApp "[]" "exApi c" newService None] by (auto simp: u b)
  have "q = requestTo exCli exApp ''GET'' (''/v1/nodes/'' @ pathEscape ''50%'') [] None []"
    using q cliFetch_trace [of exCli exApp "''GET''" "''/v1/nodes/'' @ pathEscape ''50%''" "[]" None "[]"] exCli_net
    by (simp add: runNodes_def)
  with q s c exApp_auth [OF c, of exCli "''GET''" "''/v1/nodes/'' @ pathEscape ''50%''" "[]" None "[]"]
  show ?thesis by (auto simp: answer_def requestMetaFor_def)
qed

abbreviation exListArgs :: "string list" where
  "exListArgs \<equiv> [''--limit'', ''500'', ''-hostname=a'', ''rest'']"

lemma exListFlags:
  "parseFlags (listFlags [''cursor'', ''hostname'', ''status'']) exListArgs =
     FlagsOk [(''limit'', FInt 500), (''cursor'', FStr []), (''hostname'', FStr ''a''), (''status'', FStr [])] [''rest'']"
  by code_simp

theorem cli_node_list_witness:
  "\<exists>q. snd (runNodes exCli exApp (''list'' # exListArgs) []) = [q] \<and>
    serveAPI (exApi exNoTokens) (received ''http://c'' q) newService None =
      (ckRequestId q, requireHTTP (exApi exNoTokens) (received ''http://c'' q) [DomainClient, DomainAdmin]
        (\<lambda>meta s db. answer (Reply StatusOK (NodesBody (pageOf
            (listedNodes (sdReg (avDeps (exApi exNoTokens))) ''a'' []) [] 200 nrId))) s db) newService None)"
  using cli_node_list [OF exCli_net exListFlags, of exApp "[]" "exApi exNoTokens" newService None]
  by (simp add: flagStr_def flagInt_def exApp_def)

abbreviation exInvokeArgs :: "string list" where
  "exInvokeArgs \<equiv> [''--nodes'', ''n2, n3'', ''--node'', ''n1'', ''--timeout=5'', ''--async'']"

lemma exInvokeFlags:
  "parseFlags ((''action-type'', FStr ''auto'') # invokeFlags) exInvokeArgs =
     FlagsOk [(''action-type'', FStr ''auto''), (''node'', FStr ''n1''), (''nodes'', FStr ''n2, n3''),
       (''params'', FStr ''{}''), (''params-file'', FStr []), (''timeout'', FInt 5), (''async'', FBool True)] []"
  by code_simp

lemma exTargets: "targetNodeList ''n1'' ''n2, n3'' = [''n1'', ''n2'', ''n3'']"
  by code_simp

theorem cli_invoke_created_witness:
  "\<exists>q. snd (runCommands exCli exApp (''invoke'' # ''sys:info'' # exInvokeArgs) []) = [q] \<and>
    serveAPI (exApi exNoTokens) (received ''http://c'' q) newService None =
      (ckRequestId q, requireHTTP (exApi exNoTokens) (received ''http://c'' q) [DomainClient, DomainAdmin]
        (\<lambda>meta s db.
           let req = \<lparr>cqAction = ''sys.info'', cqActionType = ''builtin'', cqNodeIds = [''n1'', ''n2'', ''n3''],
                 cqParams = JObj [], cqTimeoutSec = 5, cqAsync = True\<rparr>;
               (res, s', msgs, db') = createInvocation (avDeps (exApi exNoTokens)) (avFresh (exApi exNoTokens)) meta req
                 (avOrder (exApi exNoTokens) (dedupe (cqNodeIds req))) (avCtxErr (exApi exNoTokens))
                 (avStarted (exApi exNoTokens)) (avFinished (exApi exNoTokens)) s db
           in (invokedReply res meta, s', msgs, db')) newService None)"
proof -
  let ?fs = "[(''action-type'', FStr ''auto''), (''node'', FStr ''n1''), (''nodes'', FStr ''n2, n3''),
       (''params'', FStr ''{}''), (''params-file'', FStr []), (''timeout'', FInt 5), (''async'', FBool True)]"
  have f: "flagStr ?fs ''params'' = ''{}''" "flagStr ?fs ''params-file'' = []" "flagStr ?fs ''action-type'' = ''auto''"
    "flagStr ?fs ''node'' = ''n1''" "flagStr ?fs ''nodes'' = ''n2, n3''" "flagInt ?fs ''timeout'' = 5" "flagBool ?fs ''async''"
    by (simp_all add: flagStr_def flagInt_def flagBool_def)
  have "trimSpace ''{}'' \<noteq> []" by code_simp
  then have p: "resolveJSONObject exCli (flagStr ?fs ''params'') (flagStr ?fs ''params-file'') = Inr []"
    unfolding f by (simp add: resolveJSONObject_def readTextSource_def exCli_def)
  have "normalizeActionName ''sys:info'' = ''sys.info''" "isBuiltinAction ''sys.info''" by code_simp+
  then have a: "resolveCommandAction exCli exApp ''sys:info'' (flagStr ?fs ''action-type'') [] = (Inr (''sys.info'', ''builtin''), [])"
    unfolding f by (simp add: resolveCommandAction_def)
  show ?thesis
    using cli_invoke_created [OF exCli_net exInvokeFlags p a, of "exApi exNoTokens" newService None]
    by (simp add: f exTargets exApp_def)
qed

theorem cli_params_file_refused_witness:
  "runCommands exCli exApp [''invoke'', ''sys.info'', ''--params-file'', ''p.json''] [] =
     (Inl (ErrText ''use either inline JSON or --file/--params-file''), [])"
  by (rule cli_params_file_refused) simp

definition exResult :: "string \<Rightarrow> json \<Rightarrow> invocationResult" where
  "exResult node data = \<lparr>irNodeId = node, irHostname = node, irStatus = ''succeeded'', irStartedAt = 1, irFinishedAt = 2,
     irData = data, irError = None\<rparr>"

abbreviation exAnswered :: "invocationResult list \<Rightarrow> cliEnv" where
  "exAnswered rs \<equiv> exCli\<lparr>cvAnswer := (\<lambda>_. Inr (invocationAnswer (\<lambda>_. ''t'') (JObj []) rs))\<rparr>"


end
