(* ===== verification/Spec2Isabelle.thy ===== *)
theory Spec2Isabelle
  imports ProcessMain AdminClones NodeActions CenterMain CliProps Agent AgentExec AgentProxy AgentFiles AgentGuard ProxyTunnel Dialer AdminInvoke AdminTemplates
    HighAvailability CenterTunnel Store GoPath GoJson TokenAuth Registry ProxyRegistry Router
begin

text \<open>
  Sysplane runs tools (read a file, run a program, call a local HTTP service, ...) on many machines.
  An agent on each machine keeps a stream open to a center, directly or through a proxy, and
  registers its host name on it.  Clients of the center's HTTP API create invocations; the center
  checks the caller's token, plans the invocation, sends a tool request to each target over its stream,
  matches the responses by request id, and records results, audit events and log rows.
  Several centers share a database and forward calls to each other.

  What models what (paths below src/internal):

  \<^item> GoBase, GoPath, GoJson: what the program uses of Go and its standard library (strings, 64-bit
    integers with wrap-around, error values, maps, path cleaning, decoded JSON values).
  \<^item> TokenAuth: pkg/tokenauth, the token domains.  Tunnel: the messages of api/tunnel.
  \<^item> AgentRegistry: the contract of a table of connected nodes (locale agent_registry).  Registry and
    ProxyRegistry: the two tables, center and proxy, each an interpretation of the contract.
  \<^item> Router: sysplane-center/router, concurrent calls of Send and deliveries as events.
  \<^item> Store: sysplane-center/store, the tables of the database with the outcomes of a query; locales
    agent_persister and call_logger for what its clients rely on.
  \<^item> CenterTunnel: sysplane-center/tunnel_svc.go, stream handlers, background updates and the offline
    sweep as the step function of the center.
  \<^item> HighAvailability: sysplane-center/ha and the internal endpoint of run.go.
  \<^item> AdminTypes, AdminHelpers, AdminBuiltins, AdminTemplates, AdminInvoke: sysplane-center/admin/service.go,
    from its types up to the invocations, their audit trail and their fan-out.  AdminClones: the copies that
    the service makes, over an explicit heap (locale deep_copy); the other theories take a copy to be the
    value, and AdminClones shows why they may.
  \<^item> HttpBase: what the API uses of net/http, net/url and encoding/json (routing, escapes, the JSON scanner,
    decoding into a struct).  HttpApi: sysplane-center/httpapi, every route and handler.  HttpProps: what holds of
    a request from the outside up to the messages that it sends.
  \<^item> ServerConfig: the configurations of center and proxy, pkg/tlsconf, and the wiring of both run.go.
    WebUI: sysplane-center/webui.  CenterMain: the HTTP mux of the center, and centers and proxies started
    from their configurations.
  \<^item> CliBase: package flag and the queries and escapes of net/url.  Cli: sysplane-cli, every command from its
    flags over the requests to the printed value.  CliProps: what it sends, and what the center makes of it.
  \<^item> Dialer: pkg/stream/dialer.go, attempts and backoff.  ProxyTunnel: sysplane-proxy/tunnel and the
    callbacks of run.go.
  \<^item> AgentGuard, AgentFiles, AgentFind, AgentExec, AgentProxy: the tools of the agent (fileops, cmdexec,
    apiproxy).  AgentHardware: collector, the report of the machine.  AgentConfig: its configuration and the
    tools that read and replace it.  Agent: agent.go, the table of the tools and the dispatch of requests and
    cancellations as an event system.
  \<^item> ProcessMain: cmd and the Run functions, from the arguments of a process to its exit code, and the servers
    that a process runs at once.
  \<^item> NodeActions: an action from the HTTP request at the center to the tool of the agent and back.

  Conventions.  Time is an integer number of nanoseconds given to an operation.  A Go map is an
  association list with distinct keys, a database table a map.  An operation that can fail returns a
  sum whose left side is the error.  Code outside the repository (SQL, gRPC, SHA-256, text/template,
  regular expressions, the operating system, the network) is an argument of the definitions
  that call it.  Goroutines that share state are events of a step function, and a run is a list of
  events, so the theorems about runs hold for every interleaving of the modelled atomic actions.
  A JSON text is the value it parses to.  There is no fuel: every loop is structural recursion, except
  that the pages of a listing are fetched at most one more time than there are items, and that a value
  on the heap is marshalled with as many levels as there are cells; both are proved to be
  enough (the latter by marshal_enough).

  What the lemmas show.  Each component has an invariant kept by its operations (regInv, the invariants
  of the router and the center, templatesInv, the audit invariant), the behaviour of its operations on
  every branch, and the properties of the manifest, which stand after a text with their number.

  Not modelled: the network below listening and serving (its outcomes are arguments), logging, metrics
  export, the wrapper of a gRPC stream, and generated code.
\<close>

end
